(* ===== verification/Prelude.thy ===== *)
theory Prelude
  imports Main
begin

text \<open>
  What every component of the model shares.

  \<^item> Numbers. A JavaScript number that holds a time stamp, a count or a line number is an
    \<open>int\<close>: the code only adds, subtracts and compares integers far below \<open>2 ^ 53\<close>.
  \<^item> \<open>null\<close> and \<open>undefined\<close> are \<open>None\<close>.
  \<^item> SQL. A SQLite or D1 table is the list of its rows in rowid order. Every statement the
    sources run is one of the operations below: a filtered scan, an \<open>UPDATE ... WHERE\<close> with
    its \<open>changes()\<close>, a \<open>DELETE ... WHERE\<close>, an \<open>INSERT ... ON CONFLICT\<close>. The primary key is
    the invariant \<open>sql_keyed\<close>.
  \<^item> Strings. A string is a list of characters; non-ASCII text is its UTF-8 bytes.
\<close>

named_theorems sql_simps \<open>how the SQL operations act on rows, keys and look-ups\<close>
named_theorems keyed_intros \<open>every statement keeps the primary key\<close>

section \<open>Tables\<close>

definition sql_keyed :: "('r \<Rightarrow> 'k) \<Rightarrow> 'r list \<Rightarrow> bool" where
  "sql_keyed key t = distinct (map key t)"

definition sql_select :: "('r \<Rightarrow> bool) \<Rightarrow> 'r list \<Rightarrow> 'r list" where
  "sql_select P t = filter P t"

definition sql_row :: "('r \<Rightarrow> 'k) \<Rightarrow> 'k \<Rightarrow> 'r list \<Rightarrow> 'r option" where
  "sql_row key k t = find (\<lambda>r. key r = k) t"

definition sql_update :: "('r \<Rightarrow> bool) \<Rightarrow> ('r \<Rightarrow> 'r) \<Rightarrow> 'r list \<Rightarrow> 'r list" where
  "sql_update P f t = map (\<lambda>r. if P r then f r else r) t"

definition sql_changes :: "('r \<Rightarrow> bool) \<Rightarrow> 'r list \<Rightarrow> nat" where
  "sql_changes P t = length (filter P t)"

definition sql_delete :: "('r \<Rightarrow> bool) \<Rightarrow> 'r list \<Rightarrow> 'r list" where
  "sql_delete P t = filter (\<lambda>r. \<not> P r) t"

text \<open>\<open>INSERT ... ON CONFLICT(key) DO UPDATE\<close>: \<open>f\<close> merges the stored row.\<close>

definition sql_upsert :: "('r \<Rightarrow> 'k) \<Rightarrow> 'r \<Rightarrow> ('r \<Rightarrow> 'r) \<Rightarrow> 'r list \<Rightarrow> 'r list" where
  "sql_upsert key r f t =
     (if \<exists>x \<in> set t. key x = key r then sql_update (\<lambda>x. key x = key r) f t else t @ [r])"

lemma sql_keyed_Nil [keyed_intros, simp]: "sql_keyed key []"
  by (simp add: sql_keyed_def)

lemma set_sql_update: "set (sql_update P f t) = (\<lambda>r. if P r then f r else r) ` set t"
  by (simp add: sql_update_def)

lemma set_sql_delete [sql_simps]: "set (sql_delete P t) = {r \<in> set t. \<not> P r}"
  by (auto simp: sql_delete_def)

lemma set_sql_select [sql_simps]: "set (sql_select P t) = {r \<in> set t. P r}"
  by (auto simp: sql_select_def)

lemma map_key_sql_update:
  assumes "\<And>r. P r \<Longrightarrow> key (f r) = key r"
  shows "map key (sql_update P f t) = map key t"
  using assms by (simp add: sql_update_def)

lemma sql_keyed_update [keyed_intros]:
  assumes "sql_keyed key t" and "\<And>r. P r \<Longrightarrow> key (f r) = key r"
  shows "sql_keyed key (sql_update P f t)"
  using assms by (simp add: sql_keyed_def map_key_sql_update)

lemma sql_keyed_delete [keyed_intros]: "sql_keyed key t \<Longrightarrow> sql_keyed key (sql_delete P t)"
  by (simp add: sql_keyed_def sql_delete_def distinct_map_filter)

lemma sql_keyed_upsert [keyed_intros]:
  assumes "sql_keyed key t" and "\<And>x. key x = key r \<Longrightarrow> key (f x) = key x"
  shows "sql_keyed key (sql_upsert key r f t)"
proof (cases "\<exists>x \<in> set t. key x = key r")
  case True
  have "sql_keyed key (sql_update (\<lambda>x. key x = key r) f t)"
    using assms by (intro sql_keyed_update) auto
  with True show ?thesis by (simp add: sql_upsert_def)
next
  case False
  with assms show ?thesis by (force simp: sql_upsert_def sql_keyed_def)
qed

lemma sql_row_Some_in: "sql_row key k t = Some r \<Longrightarrow> r \<in> set t \<and> key r = k"
  by (auto simp: sql_row_def find_Some_iff)

lemma sql_row_None: "sql_row key k t = None \<longleftrightarrow> (\<forall>r \<in> set t. key r \<noteq> k)"
  by (auto simp: sql_row_def find_None_iff)

lemma sql_row_Cons [sql_simps]:
  "sql_row key k (x # t) = (if key x = k then Some x else sql_row key k t)"
  by (simp add: sql_row_def)

lemma sql_row_Nil [sql_simps]: "sql_row key k [] = None"
  by (simp add: sql_row_def)

lemma sql_row_keyed:
  assumes "sql_keyed key t"
  shows "sql_row key k t = Some r \<longleftrightarrow> r \<in> set t \<and> key r = k"
  using assms
proof (induction t)
  case Nil
  then show ?case by (simp add: sql_row_def)
next
  case (Cons x t)
  then show ?case by (auto simp: sql_row_Cons sql_keyed_def)
qed

lemma sql_row_update [sql_simps]:
  assumes "\<And>r. P r \<Longrightarrow> key (f r) = key r"
  shows "sql_row key k (sql_update P f t) =
    map_option (\<lambda>r. if P r then f r else r) (sql_row key k t)"
  using assms by (induction t) (auto simp: sql_update_def sql_row_Cons sql_row_Nil)

lemma sql_row_append [sql_simps]:
  "sql_row key k (t @ u) = (case sql_row key k t of None \<Rightarrow> sql_row key k u | Some r \<Rightarrow> Some r)"
  by (induction t) (auto simp: sql_row_Cons sql_row_Nil)

lemma sql_row_delete [sql_simps]:
  assumes "sql_keyed key t"
  shows "sql_row key k (sql_delete P t) =
    (case sql_row key k t of None \<Rightarrow> None | Some r \<Rightarrow> if P r then None else Some r)"
  using assms
proof (induction t)
  case Nil
  then show ?case by (simp add: sql_delete_def sql_row_Nil)
next
  case (Cons x t)
  then have fresh: "sql_row key (key x) t = None" and IH: "sql_row key k (sql_delete P t) =
    (case sql_row key k t of None \<Rightarrow> None | Some r \<Rightarrow> if P r then None else Some r)"
    by (auto simp: sql_keyed_def sql_row_None) (metis imageI)
  show ?case
  proof (cases "key x = k")
    case True
    with fresh IH show ?thesis by (auto simp: sql_delete_def sql_row_Cons)
  next
    case False
    with IH show ?thesis by (simp add: sql_delete_def sql_row_Cons)
  qed
qed

lemma sql_row_upsert [sql_simps]:
  assumes "\<And>x. key x = key r \<Longrightarrow> key (f x) = key x"
  shows "sql_row key k (sql_upsert key r f t) =
    (if k = key r then Some (case sql_row key k t of None \<Rightarrow> r | Some x \<Rightarrow> f x)
     else sql_row key k t)"
proof (cases "\<exists>x \<in> set t. key x = key r")
  case True
  then have found: "sql_row key (key r) t \<noteq> None" by (simp add: sql_row_None)
  have "sql_row key k (sql_update (\<lambda>x. key x = key r) f t) =
      map_option (\<lambda>x. if key x = key r then f x else x) (sql_row key k t)"
    using assms by (rule sql_row_update)
  then have upd: "sql_row key k (sql_upsert key r f t) =
      map_option (\<lambda>x. if key x = key r then f x else x) (sql_row key k t)"
    using True by (simp only: sql_upsert_def if_True)
  show ?thesis
  proof (cases "sql_row key k t")
    case None
    with found have "k \<noteq> key r" by blast
    with upd None show ?thesis by simp
  next
    case (Some y)
    then have "key y = k" by (rule sql_row_Some_in [THEN conjunct2])
    with upd Some show ?thesis by (cases "k = key r") auto
  qed
next
  case False
  then have "sql_row key (key r) t = None" by (auto simp: sql_row_None)
  with False show ?thesis
    by (auto simp: sql_upsert_def sql_row_append sql_row_Cons sql_row_Nil split: option.splits)
qed

lemma set_sql_upsert_replace:
  assumes "\<And>x. key x = key r \<Longrightarrow> f x = r"
  shows "set (sql_upsert key r f t) = insert r {x \<in> set t. key x \<noteq> key r}"
  using assms by (auto simp: sql_upsert_def sql_update_def image_iff)

lemma length_filter_keyed:
  "sql_keyed key t \<Longrightarrow> length (filter P t) = card {r \<in> set t. P r}"
  by (simp add: sql_keyed_def distinct_map distinct_card [symmetric])

lemma find_key_fresh: "k \<notin> key ` set xs \<Longrightarrow> find (\<lambda>r. key r = k) xs = None"
  by (auto simp: find_None_iff)

lemma filter_key_keyed:
  "sql_keyed key t \<Longrightarrow> filter (\<lambda>r. key r = k) t = (case sql_row key k t of None \<Rightarrow> [] | Some r \<Rightarrow> [r])"
proof (induction t)
  case Nil
  then show ?case by (simp add: sql_row_Nil)
next
  case (Cons x t)
  then have fresh: "sql_row key (key x) t = None" and "sql_keyed key t"
    by (auto simp: sql_keyed_def sql_row_None) (metis imageI)
  with Cons.IH show ?case by (auto simp: sql_row_Cons)
qed

text \<open>
  Updating by primary key with a guard changes one row or none, and says which: the
  \<open>changes() = 1\<close> gates of the sources.
\<close>

lemma sql_changes_keyed [sql_simps]:
  assumes "sql_keyed key t"
  shows "sql_changes (\<lambda>r. key r = k \<and> G r) t =
    (case sql_row key k t of None \<Rightarrow> 0 | Some r \<Rightarrow> if G r then 1 else 0)"
proof -
  have "filter (\<lambda>r. key r = k \<and> G r) t = filter G (filter (\<lambda>r. key r = k) t)"
    by (simp add: conj_commute)
  with assms show ?thesis
    by (simp add: sql_changes_def filter_key_keyed split: option.splits)
qed

section \<open>Optional times\<close>

text \<open>\<open>if (min === null || t < min) min = t\<close>, the step of every horizon fold.\<close>

definition minNullable :: "int option \<Rightarrow> int \<Rightarrow> int" where
  "minNullable m t = (case m of None \<Rightarrow> t | Some u \<Rightarrow> if t < u then t else u)"

lemma minNullable_simps [simp]:
  "minNullable None t = t"
  "minNullable (Some u) t = min u t"
  by (auto simp: minNullable_def)

text \<open>A horizon fold computes the least of its times, and is \<open>null\<close> only when there is none.\<close>

definition least_time :: "int set \<Rightarrow> int option" where
  "least_time S = (if S = {} then None else Some (Min S))"

lemma Some_minNullable_least:
  assumes "finite S"
  shows "Some (minNullable (least_time S) t) = least_time (insert t S)"
  using assms by (auto simp: least_time_def min.commute)

lemma foldl_minNullable:
  assumes "finite S"
  shows "foldl (\<lambda>m x. Some (minNullable m (f x))) (least_time S) xs = least_time (S \<union> f ` set xs)"
  using assms
proof (induction xs arbitrary: S)
  case Nil
  then show ?case by simp
next
  case (Cons x xs)
  then show ?case by (simp add: Some_minNullable_least)
qed

lemma least_time_Some:
  assumes "finite S"
  shows "least_time S = Some m \<longleftrightarrow> m \<in> S \<and> (\<forall>t \<in> S. m \<le> t)"
  using assms by (auto simp: least_time_def Min_eq_iff)

lemma least_time_None [simp]: "least_time S = None \<longleftrightarrow> S = {}"
  by (simp add: least_time_def)

lemma least_time_below:
  assumes "finite S"
  shows "(\<exists>m. least_time S = Some m \<and> m < t) \<longleftrightarrow> (\<exists>s \<in> S. s < t)"
proof (cases "S = {}")
  case False
  with assms show ?thesis by (auto simp: least_time_def Min_less_iff)
qed (simp add: least_time_def)

lemma least_time_empty [simp]: "least_time {} = None"
  by (simp add: least_time_def)

lemma least_time_singleton [simp]: "least_time {t} = Some t"
  by (simp add: least_time_def)

lemma least_time_set_option: "least_time (set_option m) = m"
  by (cases m) (simp_all add: least_time_def)

section \<open>Decimal rendering\<close>

text \<open>\<open>String(n)\<close> of an integer.\<close>

fun nat_digits :: "nat \<Rightarrow> string" where
  "nat_digits n =
     (if n < 10 then [char_of (48 + n)] else nat_digits (n div 10) @ [char_of (48 + n mod 10)])"

declare nat_digits.simps [simp del]

definition int_string :: "int \<Rightarrow> string" where
  "int_string i = (if i < 0 then ''-'' @ nat_digits (nat (- i)) else nat_digits (nat i))"

text \<open>\<open>Math.round(a / b)\<close> for integers \<open>a\<close> and \<open>b > 0\<close>: the nearest integer, ties towards
  plus infinity.\<close>

definition round_div :: "int \<Rightarrow> int \<Rightarrow> int" where
  "round_div a b = (2 * a + b) div (2 * b)"

end
