(* ===== verification/Strings.thy ===== *)
theory Strings
  imports Prelude "HOL-Library.Sublist"
begin

text \<open>
  The string operations the sources use: \<open>split\<close> and \<open>join\<close>, \<open>startsWith\<close>, \<open>trim\<close>, the line
  patterns, and the UTF-8 codec. A string is the list of its UTF-8 bytes, so encoding it is the
  identity, and decoding checks well-formedness and drops a leading byte-order mark.
  The white space \<open>trim\<close> drops is the ASCII one.
\<close>

section \<open>Split and join\<close>

text \<open>\<open>s.split(c)\<close> at a one-character separator, and \<open>parts.join(sep)\<close>.\<close>

fun js_split :: "char \<Rightarrow> string \<Rightarrow> string list" where
  "js_split c [] = [[]]"
| "js_split c (x # xs) =
     (if x = c then [] # js_split c xs
      else case js_split c xs of [] \<Rightarrow> [[x]] | l # ls \<Rightarrow> (x # l) # ls)"

fun js_join :: "string \<Rightarrow> string list \<Rightarrow> string" where
  "js_join sep [] = []"
| "js_join sep [l] = l"
| "js_join sep (l # ls) = l @ sep @ js_join sep ls"

lemma js_split_ne [simp]: "js_split c s \<noteq> []"
  by (induction s) (auto split: list.splits)

lemma js_join_Cons: "ls \<noteq> [] \<Longrightarrow> js_join sep (l # ls) = l @ sep @ js_join sep ls"
  by (cases ls) simp_all

lemma js_join_split [simp]: "js_join [c] (js_split c s) = s"
proof (induction s)
  case (Cons x xs)
  show ?case
  proof (cases "js_split c xs")
    case (Cons l ls)
    with Cons.IH show ?thesis by (cases ls) (auto simp: js_join_Cons)
  qed simp
qed simp

lemma js_split_no_sep: "c \<notin> set s \<Longrightarrow> js_split c s = [s]"
  by (induction s) auto

lemma js_split_append: "c \<notin> set l \<Longrightarrow> js_split c (l @ c # s) = l # js_split c s"
  by (induction l) auto

lemma js_split_join:
  "ls \<noteq> [] \<Longrightarrow> \<forall>l \<in> set ls. c \<notin> set l \<Longrightarrow> js_split c (js_join [c] ls) = ls"
proof (induction ls)
  case (Cons l ls)
  then show ?case by (cases ls) (auto simp: js_split_no_sep js_split_append js_join_Cons)
qed simp

lemma js_split_parts: "l \<in> set (js_split c s) \<Longrightarrow> c \<notin> set l"
proof (induction s arbitrary: l)
  case (Cons x xs)
  then show ?case by (auto split: list.splits if_splits)
qed simp

lemma js_split_snoc: "js_split c (s @ [c]) = js_split c s @ [[]]"
proof (induction s)
  case (Cons x xs)
  then show ?case by (cases "js_split c xs") auto
qed simp

lemma js_split_chars: "l \<in> set (js_split c s) \<Longrightarrow> x \<in> set l \<Longrightarrow> x \<in> set s"
proof (induction s arbitrary: l)
  case (Cons y ys)
  then show ?case by (fastforce split: list.splits if_splits)
qed simp

lemma js_join_chars: "x \<in> set (js_join sep ls) \<Longrightarrow> x \<in> set sep \<or> (\<exists>l \<in> set ls. x \<in> set l)"
  by (induction sep ls rule: js_join.induct) auto

lemma js_join_append:
  "xs \<noteq> [] \<Longrightarrow> ys \<noteq> [] \<Longrightarrow> js_join sep (xs @ ys) = js_join sep xs @ sep @ js_join sep ys"
proof (induction xs)
  case (Cons x xs)
  then show ?case by (cases xs) (auto simp: js_join_Cons)
qed simp

lemma last_js_join:
  "ls \<noteq> [] \<Longrightarrow> last ls \<noteq> [] \<Longrightarrow>
     js_join sep ls \<noteq> [] \<and> last (js_join sep ls) = last (last ls)"
proof (induction ls)
  case (Cons l ls)
  then show ?case by (cases ls) (auto simp: js_join_Cons)
qed simp

text \<open>\<open>s.split(/\r?\n/)\<close>.\<close>

definition LF :: char where "LF = CHR 0x0A"
definition CR :: char where "CR = CHR 0x0D"
definition NUL :: char where "NUL = CHR 0x00"

fun drop_final_CR :: "string \<Rightarrow> string" where
  "drop_final_CR [] = []"
| "drop_final_CR [x] = (if x = CR then [] else [x])"
| "drop_final_CR (x # xs) = x # drop_final_CR xs"

text \<open>Every line but the last was ended by a line feed, which takes one carriage return with it.\<close>

definition split_crlf :: "string \<Rightarrow> string list" where
  "split_crlf s = (let ls = js_split LF s in map drop_final_CR (butlast ls) @ [last ls])"

lemma drop_final_CR_id: "CR \<notin> set l \<Longrightarrow> drop_final_CR l = l"
  by (induction l rule: drop_final_CR.induct) auto

lemma split_crlf_join:
  assumes "ls \<noteq> []" and "\<forall>l \<in> set ls. LF \<notin> set l \<and> CR \<notin> set l"
  shows "split_crlf (js_join [LF] ls) = ls"
proof -
  have "map drop_final_CR (butlast ls) = butlast ls"
    using assms(2) by (intro map_idI drop_final_CR_id) (auto dest: in_set_butlastD)
  then show ?thesis
    using assms by (simp add: split_crlf_def js_split_join)
qed

section \<open>Prefixes and trimming\<close>

abbreviation startsWith :: "string \<Rightarrow> string \<Rightarrow> bool" where
  "startsWith s p \<equiv> prefix p s"

definition is_space :: "char \<Rightarrow> bool" where
  "is_space c \<longleftrightarrow> c \<in> {CHR '' '', CHR 0x09, CHR 0x0A, CHR 0x0B, CHR 0x0C, CHR 0x0D}"

definition trimStart :: "string \<Rightarrow> string" where
  "trimStart s = dropWhile is_space s"

definition trimEnd :: "string \<Rightarrow> string" where
  "trimEnd s = rev (dropWhile is_space (rev s))"

definition trim :: "string \<Rightarrow> string" where
  "trim s = trimEnd (trimStart s)"

lemma dropWhile_none: "\<forall>x \<in> set xs. \<not> P x \<Longrightarrow> dropWhile P xs = xs"
  by (cases xs) auto

lemma trim_id: "\<forall>c \<in> set s. \<not> is_space c \<Longrightarrow> trim s = s"
  by (simp add: trim_def trimStart_def trimEnd_def dropWhile_none)

text \<open>
  A pattern \<open>^lit(.+)$\<close> against one line: the rest is not empty and has no line terminator
  (\<open>.\<close> refuses LF, CR, U+2028 and U+2029).
\<close>

fun has_terminator :: "string \<Rightarrow> bool" where
  "has_terminator (x # y # z # s) =
     (x = LF \<or> x = CR \<or> (x = CHR 0xE2 \<and> y = CHR 0x80 \<and> (z = CHR 0xA8 \<or> z = CHR 0xA9))
      \<or> has_terminator (y # z # s))"
| "has_terminator s = (LF \<in> set s \<or> CR \<in> set s)"

definition match_rest :: "string \<Rightarrow> string \<Rightarrow> string option" where
  "match_rest lit line =
     (if startsWith line lit \<and> drop (length lit) line \<noteq> [] \<and>
         \<not> has_terminator (drop (length lit) line)
      then Some (drop (length lit) line) else None)"

lemma match_rest_append:
  "match_rest lit (lit @ rest) = (if rest \<noteq> [] \<and> \<not> has_terminator rest then Some rest else None)"
  by (simp add: match_rest_def)

lemma has_terminator_chars: "\<not> has_terminator s \<Longrightarrow> LF \<notin> set s \<and> CR \<notin> set s"
  by (induction s rule: has_terminator.induct) auto

section \<open>UTF-8\<close>

definition byte :: "char \<Rightarrow> nat" where
  "byte c = of_char c"

fun utf8_tail :: "nat \<Rightarrow> string \<Rightarrow> string option" where
  "utf8_tail 0 s = Some s"
| "utf8_tail (Suc n) [] = None"
| "utf8_tail (Suc n) (c # s) = (if byte c \<in> {0x80..0xBF} then utf8_tail n s else None)"

lemma utf8_tail_shorter: "utf8_tail n s = Some t \<Longrightarrow> length t \<le> length s"
  by (induction n s rule: utf8_tail.induct) (auto split: if_splits)

text \<open>The well-formed sequences of the Unicode standard (table 3-7).\<close>

definition utf8_step :: "string \<Rightarrow> string option" where
  "utf8_step s =
     (case s of
        [] \<Rightarrow> None
      | a # r \<Rightarrow>
          if byte a < 0x80 then Some r
          else if byte a \<in> {0xC2..0xDF} then utf8_tail 1 r
          else if byte a \<in> {0xE0..0xEF} then
            (case r of [] \<Rightarrow> None | b # _ \<Rightarrow>
               if (byte a = 0xE0 \<and> byte b < 0xA0) \<or> (byte a = 0xED \<and> byte b > 0x9F)
               then None else utf8_tail 2 r)
          else if byte a \<in> {0xF0..0xF4} then
            (case r of [] \<Rightarrow> None | b # _ \<Rightarrow>
               if (byte a = 0xF0 \<and> byte b < 0x90) \<or> (byte a = 0xF4 \<and> byte b > 0x8F)
               then None else utf8_tail 3 r)
          else None)"

lemma utf8_step_shorter: "utf8_step s = Some t \<Longrightarrow> length t < length s"
  by (auto simp: utf8_step_def split: list.splits if_splits
      dest!: utf8_tail_shorter intro: le_less_trans le_imp_less_Suc)

function valid_utf8 :: "string \<Rightarrow> bool" where
  "valid_utf8 s =
     (if s = [] then True
      else case utf8_step s of None \<Rightarrow> False | Some t \<Rightarrow> valid_utf8 t)"
  by pat_completeness auto
termination by (relation "measure length") (auto dest: utf8_step_shorter)

declare valid_utf8.simps [simp del]

definition utf8_bom :: string where
  "utf8_bom = [CHR 0xEF, CHR 0xBB, CHR 0xBF]"

definition strip_bom :: "string \<Rightarrow> string" where
  "strip_bom s = (if startsWith s utf8_bom then drop 3 s else s)"

lemma valid_utf8_ascii: "\<forall>c \<in> set s. byte c < 0x80 \<Longrightarrow> valid_utf8 s"
proof (induction s)
  case Nil
  show ?case by (simp add: valid_utf8.simps)
next
  case (Cons c s)
  then show ?case by (subst valid_utf8.simps) (simp add: utf8_step_def)
qed

lemma strip_bom_ascii: "\<forall>c \<in> set s. byte c < 0x80 \<Longrightarrow> strip_bom s = s"
  by (cases s) (auto simp: strip_bom_def utf8_bom_def byte_def)

text \<open>
  \<open>new TextDecoder().decode\<close>, which replaces each maximal ill-formed subpart by U+FFFD.
\<close>

definition is_tail :: "char \<Rightarrow> bool" where
  "is_tail c \<longleftrightarrow> byte c \<in> {0x80..0xBF}"

definition second_ok :: "char \<Rightarrow> char \<Rightarrow> bool" where
  "second_ok a b \<longleftrightarrow> is_tail b \<and> \<not> (byte a = 0xE0 \<and> byte b < 0xA0) \<and>
     \<not> (byte a = 0xED \<and> byte b > 0x9F) \<and> \<not> (byte a = 0xF0 \<and> byte b < 0x90) \<and>
     \<not> (byte a = 0xF4 \<and> byte b > 0x8F)"

definition bad_length :: "string \<Rightarrow> nat" where
  "bad_length s =
     (case s of
        a # b # c # _ \<Rightarrow>
          if byte a \<in> {0xE0..0xEF} \<and> second_ok a b then 2
          else if byte a \<in> {0xF0..0xF4} \<and> second_ok a b then (if is_tail c then 3 else 2)
          else 1
      | [a, b] \<Rightarrow> if byte a \<in> {0xE0..0xF4} \<and> second_ok a b then 2 else 1
      | _ \<Rightarrow> 1)"

definition replacement_char :: string where
  "replacement_char = [CHR 0xEF, CHR 0xBF, CHR 0xBD]"

lemma bad_length_pos [simp]: "0 < bad_length s"
  by (simp add: bad_length_def split: list.split)

function replace_invalid :: "string \<Rightarrow> string" where
  "replace_invalid s =
     (if s = [] then []
      else case utf8_step s of
        Some t \<Rightarrow> take (length s - length t) s @ replace_invalid t
      | None \<Rightarrow> replacement_char @ replace_invalid (drop (bad_length s) s))"
  by pat_completeness auto
termination
  by (relation "measure length") (auto dest: utf8_step_shorter simp: diff_less)

declare replace_invalid.simps [simp del]

definition decode_utf8 :: "string \<Rightarrow> string" where
  "decode_utf8 bytes = replace_invalid (strip_bom bytes)"

lemma utf8_tail_suffix: "utf8_tail n s = Some t \<Longrightarrow> suffix t s"
  by (induction n s rule: utf8_tail.induct) (auto split: if_splits simp: suffix_Cons)

lemma utf8_step_suffix: "utf8_step s = Some t \<Longrightarrow> suffix t s"
  by (auto simp: utf8_step_def suffix_Cons split: list.splits if_splits dest!: utf8_tail_suffix)

lemma replace_invalid_valid: "valid_utf8 s \<Longrightarrow> replace_invalid s = s"
proof (induction s rule: valid_utf8.induct)
  case (1 s)
  show ?case
  proof (cases "s = []")
    case True
    then show ?thesis by (simp add: replace_invalid.simps)
  next
    case False
    then obtain t where t: "utf8_step s = Some t" "valid_utf8 t"
      using "1.prems" by (subst (asm) valid_utf8.simps) (auto split: option.splits)
    then have "replace_invalid t = t" using "1.IH" False by blast
    moreover obtain pre where "s = pre @ t" using utf8_step_suffix [OF t(1)] by (auto simp: suffix_def)
    ultimately show ?thesis using False t(1) by (subst replace_invalid.simps) simp
  qed
qed

section \<open>Truncation\<close>

text \<open>The byte sequences of one character.\<close>

definition utf8_char :: "string \<Rightarrow> bool" where
  "utf8_char p =
     ((\<exists>a. p = [a] \<and> byte a < 0x80) \<or>
      (\<exists>a b. p = [a, b] \<and> byte a \<in> {0xC2..0xDF} \<and> is_tail b) \<or>
      (\<exists>a b c. p = [a, b, c] \<and> byte a \<in> {0xE0..0xEF} \<and> second_ok a b \<and> is_tail c) \<or>
      (\<exists>a b c d. p = [a, b, c, d] \<and> byte a \<in> {0xF0..0xF4} \<and> second_ok a b \<and> is_tail c \<and> is_tail d))"

lemma utf8_tail_numerals:
  "utf8_tail (Suc 0) s = Some t \<longleftrightarrow> (\<exists>b. s = b # t \<and> is_tail b)"
  "utf8_tail 2 s = Some t \<longleftrightarrow> (\<exists>b c. s = b # c # t \<and> is_tail b \<and> is_tail c)"
  "utf8_tail 3 s = Some t \<longleftrightarrow> (\<exists>b c d. s = b # c # d # t \<and> is_tail b \<and> is_tail c \<and> is_tail d)"
  by (cases s; cases "tl s"; cases "tl (tl s)"; auto simp: numeral_eq_Suc is_tail_def split: if_splits)+

lemma utf8_step_char:
  assumes "utf8_step s = Some t"
  shows "\<exists>p. s = p @ t \<and> utf8_char p"
proof -
  obtain a r where s: "s = a # r" using assms by (cases s) (auto simp: utf8_step_def)
  consider "byte a < 0x80" "t = r" | "byte a \<in> {0xC2..0xDF}" "utf8_tail 1 r = Some t"
    | b where "byte a \<in> {0xE0..0xEF}" "utf8_tail 2 r = Some t" "\<exists>u. r = b # u" "is_tail b \<longrightarrow> second_ok a b"
    | b where "byte a \<in> {0xF0..0xF4}" "utf8_tail 3 r = Some t" "\<exists>u. r = b # u" "is_tail b \<longrightarrow> second_ok a b"
    using assms unfolding s
    by (auto simp: utf8_step_def second_ok_def split: if_splits list.splits)
  then show ?thesis
    by cases (auto simp: s utf8_char_def utf8_tail_numerals)
qed

lemma utf8_char_step: "utf8_char p \<Longrightarrow> utf8_step (p @ t) = Some t"
  by (auto simp: utf8_char_def utf8_step_def second_ok_def is_tail_def numeral_eq_Suc)

lemma utf8_char_cut:
  assumes "utf8_char p" and "0 < k" and "k < length p"
  shows "replace_invalid (take k p) = replacement_char"
proof -
  have "utf8_step (take k p) = None \<and> bad_length (take k p) = k"
  proof -
    consider a b where "p = [a, b]" "byte a \<in> {0xC2..0xDF}" "is_tail b"
      | a b c where "p = [a, b, c]" "byte a \<in> {0xE0..0xEF}" "second_ok a b" "is_tail c"
      | a b c d where "p = [a, b, c, d]" "byte a \<in> {0xF0..0xF4}" "second_ok a b" "is_tail c" "is_tail d"
      using assms by (auto simp: utf8_char_def)
    then show ?thesis
    proof cases
      case 1
      with assms have "k = 1" by auto
      with 1 show ?thesis by (auto simp: utf8_step_def bad_length_def)
    next
      case 2
      with assms have "k = 1 \<or> k = 2" by auto
      with 2 show ?thesis by (auto simp: utf8_step_def bad_length_def numeral_eq_Suc)
    next
      case 3
      with assms have "k = 1 \<or> k = 2 \<or> k = 3" by auto
      with 3 show ?thesis by (auto simp: utf8_step_def bad_length_def numeral_eq_Suc is_tail_def)
    qed
  qed
  moreover have "take k p \<noteq> []" using assms by auto
  ultimately show ?thesis
    by (subst replace_invalid.simps) (simp add: replace_invalid.simps [of "[]"])
qed

text \<open>Cutting a well-formed text at a byte keeps its whole characters and replaces a cut one.\<close>

lemma replace_invalid_take:
  "valid_utf8 s \<Longrightarrow> \<exists>u. prefix u s \<and>
     (replace_invalid (take n s) = u \<and> length u = min n (length s) \<or>
      replace_invalid (take n s) = u @ replacement_char \<and> length u < n)"
proof (induction s arbitrary: n rule: valid_utf8.induct)
  case (1 s)
  show ?case
  proof (cases "s = []")
    case True
    then show ?thesis by (simp add: replace_invalid.simps)
  next
    case False
    then obtain t where t: "utf8_step s = Some t" "valid_utf8 t"
      using "1.prems" by (subst (asm) valid_utf8.simps) (auto split: option.splits)
    obtain p where p: "s = p @ t" "utf8_char p" using utf8_step_char [OF t(1)] by blast
    have p0: "p \<noteq> []" using p(2) by (auto simp: utf8_char_def)
    show ?thesis
    proof (cases "length p \<le> n")
      case True
      have IH: "\<exists>u. prefix u t \<and> (replace_invalid (take m t) = u \<and> length u = min m (length t) \<or>
          replace_invalid (take m t) = u @ replacement_char \<and> length u < m)" for m
        using "1.IH" [OF False t(1,2)] by blast
      have "replace_invalid (p @ take (n - length p) t) = p @ replace_invalid (take (n - length p) t)"
        using p0 by (subst replace_invalid.simps) (simp add: utf8_char_step [OF p(2)])
      moreover have "take n s = p @ take (n - length p) t" using True p(1) by simp
      moreover obtain u where "prefix u t" "replace_invalid (take (n - length p) t) = u \<and>
          length u = min (n - length p) (length t) \<or>
          replace_invalid (take (n - length p) t) = u @ replacement_char \<and> length u < n - length p"
        using IH by blast
      ultimately show ?thesis
        using True p(1) by (intro exI [of _ "p @ u"]) auto
    next
      case False
      then have cut: "take n s = take n p" using p(1) by simp
      show ?thesis
      proof (cases "n = 0")
        case True
        then show ?thesis by (simp add: replace_invalid.simps)
      next
        case n: False
        have "replace_invalid (take n s) = replacement_char"
          unfolding cut using utf8_char_cut [OF p(2)] n False by simp
        with n show ?thesis by (intro exI [of _ "[]"]) simp
      qed
    qed
  qed
qed

lemma decode_take_length:
  assumes "valid_utf8 s"
  shows "length (decode_utf8 (take n s)) \<le> n + 2"
proof -
  have bound: "length (replace_invalid (take m x)) \<le> m + 2" if "valid_utf8 x" for m x
    using replace_invalid_take [OF that, of m] by (auto simp: replacement_char_def)
  show ?thesis
  proof (cases "startsWith (take n s) utf8_bom")
    case False
    with bound [OF assms, of n] show ?thesis by (simp add: decode_utf8_def strip_bom_def)
  next
    case True
    then obtain z where z: "take n s = utf8_bom @ z" by (auto simp: prefix_def)
    then have s: "s = utf8_bom @ z @ drop n s" by (metis append.assoc append_take_drop_id)
    define r where "r = z @ drop n s"
    have "length (take n s) \<ge> 3" by (simp add: z utf8_bom_def)
    then have n: "3 \<le> n" by simp
    have s: "s = utf8_bom @ r" using s by (simp add: r_def)
    from n have "decode_utf8 (take n s) = replace_invalid (take (n - 3) r)"
      by (simp add: s decode_utf8_def strip_bom_def utf8_bom_def take_Cons' numeral_3_eq_3)
    moreover have "valid_utf8 r"
    proof -
      have "utf8_char utf8_bom" by (simp add: utf8_char_def utf8_bom_def second_ok_def is_tail_def byte_def)
      then have "utf8_step s = Some r" unfolding s by (rule utf8_char_step)
      then show ?thesis using assms by (subst (asm) valid_utf8.simps) (auto simp: s utf8_bom_def)
    qed
    ultimately show ?thesis using bound [of r "n - 3"] n by simp
  qed
qed

end
