(* ===== verification/Compute_Backend.thy ===== *)
theory Compute_Backend
  imports Strings
begin

text \<open>
  \<open>src/src/compute/errors.ts\<close> and the data of \<open>backend.ts\<close>: the errors, references and
  inputs every sandbox provider shares, and the file half of the \<open>ComputeBackend\<close> contract as
  the locale \<open>compute_files\<close>. A thrown error is \<open>Inl\<close>.
\<close>

section \<open>Errors\<close>

datatype compute_error_code =
    CeComputeUnavailable | CeRuntimeMissing | CeProcessMissing | CeQuotaExhausted
  | CePolicyRejected | CeRecoveryFailed | CeProviderTransient | CeInvalidPath | CePathEscape
  | CeBinaryFile | CeFileTooLarge | CePatchMalformed | CePatchDuplicatePath
  | CePatchHunkMismatch | CePatchHunkOverlap | CePatchMissingFile | CePatchFileExists
  | CeStaleFile | CePartialWrite

fun code_text :: "compute_error_code \<Rightarrow> string" where
  "code_text CeComputeUnavailable = ''compute_unavailable''"
| "code_text CeRuntimeMissing = ''runtime_missing''"
| "code_text CeProcessMissing = ''process_missing''"
| "code_text CeQuotaExhausted = ''quota_exhausted''"
| "code_text CePolicyRejected = ''policy_rejected''"
| "code_text CeRecoveryFailed = ''recovery_failed''"
| "code_text CeProviderTransient = ''provider_transient''"
| "code_text CeInvalidPath = ''compute_invalid_path''"
| "code_text CePathEscape = ''compute_path_escape''"
| "code_text CeBinaryFile = ''compute_binary_file''"
| "code_text CeFileTooLarge = ''compute_file_too_large''"
| "code_text CePatchMalformed = ''compute_patch_malformed''"
| "code_text CePatchDuplicatePath = ''compute_patch_duplicate_path''"
| "code_text CePatchHunkMismatch = ''compute_patch_hunk_mismatch''"
| "code_text CePatchHunkOverlap = ''compute_patch_hunk_overlap''"
| "code_text CePatchMissingFile = ''compute_patch_missing_file''"
| "code_text CePatchFileExists = ''compute_patch_file_exists''"
| "code_text CeStaleFile = ''compute_stale_file''"
| "code_text CePartialWrite = ''compute_partial_write''"

text \<open>\<open>OtherError\<close> is any exception that is not a \<open>ComputeError\<close>.\<close>

datatype compute_error =
    ComputeError compute_error_code string
  | ComputePartialWriteError "string list" string
  | ComputeStaleFileError string string string
  | OtherError string

fun error_code :: "compute_error \<Rightarrow> compute_error_code option" where
  "error_code (ComputeError c _) = Some c"
| "error_code (ComputePartialWriteError _ _) = Some CePartialWrite"
| "error_code (ComputeStaleFileError _ _ _) = Some CeStaleFile"
| "error_code (OtherError _) = None"

fun error_message :: "compute_error \<Rightarrow> string" where
  "error_message (ComputeError _ m) = m"
| "error_message (ComputePartialWriteError _ m) = m"
| "error_message (ComputeStaleFileError _ _ m) = m"
| "error_message (OtherError m) = m"

text \<open>\<open>new ComputeError(code)\<close>, its message the code itself.\<close>

definition compute_error :: "compute_error_code \<Rightarrow> compute_error" where
  "compute_error c = ComputeError c (code_text c)"

definition compute_stale_file_error :: "string \<Rightarrow> string \<Rightarrow> compute_error" where
  "compute_stale_file_error path currentHash =
     ComputeStaleFileError path currentHash ''compute_stale_file''"

definition COMPUTE_ERROR_CODES :: "compute_error_code list" where
  "COMPUTE_ERROR_CODES = [CeComputeUnavailable, CeRuntimeMissing, CeProcessMissing,
     CeQuotaExhausted, CePolicyRejected, CeRecoveryFailed, CeProviderTransient, CeInvalidPath,
     CePathEscape, CeBinaryFile, CeFileTooLarge, CePatchMalformed, CePatchDuplicatePath,
     CePatchHunkMismatch, CePatchHunkOverlap, CePatchMissingFile, CePatchFileExists, CeStaleFile,
     CePartialWrite]"

definition isComputeErrorCode :: "string \<Rightarrow> bool" where
  "isComputeErrorCode value \<longleftrightarrow> value \<in> set (map code_text COMPUTE_ERROR_CODES)"

section \<open>Backend data\<close>

text \<open>What a backend reads out of the payload of one of its references.\<close>

record backend_payload =
  bp_kind :: string
  bp_runtimeId :: string
  bp_processId :: "string option"

text \<open>The payload of a reference is an opaque object; the ones the sources build have string fields.\<close>

record backend_reference =
  br_provider :: string
  br_version :: int
  br_payload :: "(string \<times> string) list"

record compute_spec =
  cs_environmentId :: string
  cs_profile :: string
  cs_workspaceRoot :: string
  cs_env :: "(string \<times> string) list"
  cs_maxProcessRuntimeMs :: int
  cs_allowedHosts :: "string list option"

datatype release_disposition = Discard | Recoverable

datatype stop_mode = Interrupt | Terminate | Kill

datatype path_type = FileT | DirectoryT | SymlinkT

record path_info =
  pi_type :: path_type
  pi_size :: nat
  pi_resolvedPath :: string

datatype entry_type = PathT path_type | OtherT

record dir_entry =
  de_name :: string
  de_type :: entry_type

text \<open>The status \<open>failed\<close> is \<open>rc_exited = False\<close>.\<close>

record run_command_result =
  rc_exited :: bool
  rc_exitCode :: int
  rc_stdout :: string
  rc_stderr :: string
  rc_stdoutTruncated :: bool

section \<open>The contract of the file operations\<close>

text \<open>
  What \<open>backend.ts\<close> documents of one runtime's files: \<open>view s p\<close> is the content of the file at
  \<open>p\<close>. \<open>pathExists\<close> answers or throws; \<open>readFile\<close> returns the whole file or throws; a move with
  \<open>overwrite\<close> replaces its destination; whatever happens, an operation changes no file other than
  those it names and those below them.
\<close>

definition below :: "string \<Rightarrow> string \<Rightarrow> bool" where
  "below p q \<longleftrightarrow> startsWith q (p @ ''/'')"

definition within :: "string \<Rightarrow> string \<Rightarrow> bool" where
  "within p q \<longleftrightarrow> q = p \<or> below p q"

locale compute_files =
  fixes path_exists :: "string \<Rightarrow> 's \<Rightarrow> 's \<times> (compute_error + bool)"
    and read_file :: "string \<Rightarrow> nat \<Rightarrow> 's \<Rightarrow> compute_error + string"
    and write_file :: "string \<Rightarrow> string \<Rightarrow> bool \<Rightarrow> bool \<Rightarrow> 's \<Rightarrow> 's \<times> (compute_error + unit)"
    and delete_path :: "string \<Rightarrow> 's \<Rightarrow> 's \<times> (compute_error + unit)"
    and move_path :: "string \<Rightarrow> string \<Rightarrow> bool \<Rightarrow> 's \<Rightarrow> 's \<times> (compute_error + unit)"
    and view :: "'s \<Rightarrow> string \<Rightarrow> string option"
  assumes exists_view: "view (fst (path_exists p s)) = view s"
    and exists_False: "path_exists p s = (s', Inr False) \<Longrightarrow> view s p = None"
    and read_ok: "read_file p n s = Inr b \<Longrightarrow> view s p = Some b \<and> length b \<le> n"
    and write_ok: "write_file p b parents ow s = (s', Inr u) \<Longrightarrow>
      view s' = (view s)(p \<mapsto> b) \<and> (\<not> ow \<longrightarrow> view s p = None)"
    and write_frame: "write_file p b parents ow s = (s', Inl e) \<Longrightarrow> q \<noteq> p \<Longrightarrow> view s' q = view s q"
    and delete_ok: "delete_path p s = (s', Inr u) \<Longrightarrow>
      view s' = (\<lambda>q. if within p q then None else view s q)"
    and delete_frame: "delete_path p s = (s', Inl e) \<Longrightarrow> \<not> within p q \<Longrightarrow> view s' q = view s q"
    and move_ok: "move_path p q ow s = (s', Inr u) \<Longrightarrow> view s p = Some b \<Longrightarrow> p \<noteq> q \<Longrightarrow> \<not> below p q \<Longrightarrow>
      view s' = (\<lambda>r. if r = q then Some b else if r = p \<or> below q r then None else view s r)"
    and move_frame: "move_path p q ow s = (s', res) \<Longrightarrow> \<not> within p r \<Longrightarrow> \<not> within q r \<Longrightarrow>
      view s' r = view s r"

text \<open>The operations bundled, as the services receive them.\<close>

record 's file_backend =
  fb_inspect :: "string \<Rightarrow> 's \<Rightarrow> compute_error + path_info option"
  fb_exists :: "string \<Rightarrow> 's \<Rightarrow> 's \<times> (compute_error + bool)"
  fb_read :: "string \<Rightarrow> nat \<Rightarrow> 's \<Rightarrow> compute_error + string"
  fb_write :: "string \<Rightarrow> string \<Rightarrow> bool \<Rightarrow> bool \<Rightarrow> 's \<Rightarrow> 's \<times> (compute_error + unit)"
  fb_delete :: "string \<Rightarrow> 's \<Rightarrow> 's \<times> (compute_error + unit)"
  fb_move :: "string \<Rightarrow> string \<Rightarrow> bool \<Rightarrow> 's \<Rightarrow> 's \<times> (compute_error + unit)"

locale file_backend =
  compute_files "fb_exists B" "fb_read B" "fb_write B" "fb_delete B" "fb_move B" view
  for B :: "'s file_backend" and view :: "'s \<Rightarrow> string \<Rightarrow> string option"

end
