(* ===== verification/Effects.thy ===== *)
theory Effects
  imports Compute_Backend
begin

text \<open>
  Code that changes a state and may throw: an action takes the state and returns the state it
  leaves behind with the error (\<open>Inl\<close>) or the value (\<open>Inr\<close>). A thrown error does not undo what was
  done before it. \<open>wp m Q E s\<close> says that running \<open>m\<close> in \<open>s\<close> ends in \<open>Q\<close> when it returns and in \<open>E\<close>
  when it throws; the equations \<open>wp_simps\<close> push it through every construct.
\<close>

named_theorems wp_simps \<open>the weakest precondition of each construct and operation\<close>

type_synonym ('s, 'e, 'a) eact = "'s \<Rightarrow> 's \<times> ('e + 'a)"

text \<open>The compute code throws \<open>compute_error\<close>.\<close>

type_synonym ('s, 'a) act = "('s, compute_error, 'a) eact"

section \<open>Constructs\<close>

definition ret :: "'a \<Rightarrow> ('s, 'e, 'a) eact" where
  "ret a s = (s, Inr a)"

definition raise :: "'e \<Rightarrow> ('s, 'e, 'a) eact" where
  "raise e s = (s, Inl e)"

text \<open>A statement and what follows it.\<close>

definition andThen :: "('s, 'e, 'a) eact \<Rightarrow> ('a \<Rightarrow> ('s, 'e, 'b) eact) \<Rightarrow> ('s, 'e, 'b) eact" where
  "andThen m f s = (case m s of (t, Inl e) \<Rightarrow> (t, Inl e) | (t, Inr a) \<Rightarrow> f a t)"

text \<open>\<open>try { m } catch (e) { h(e) }\<close>.\<close>

definition catching :: "('s, 'e, 'a) eact \<Rightarrow> ('e \<Rightarrow> ('s, 'e, 'a) eact) \<Rightarrow> ('s, 'e, 'a) eact" where
  "catching m h s = (case m s of (t, Inl e) \<Rightarrow> h e t | (t, Inr a) \<Rightarrow> (t, Inr a))"

text \<open>\<open>m\<close>, then \<open>f\<close> outside the \<open>try\<close> whose handler is \<open>h\<close>.\<close>

definition tryThen ::
    "('s, 'e, 'a) eact \<Rightarrow> ('e \<Rightarrow> ('s, 'e, 'b) eact) \<Rightarrow> ('a \<Rightarrow> ('s, 'e, 'b) eact) \<Rightarrow> ('s, 'e, 'b) eact" where
  "tryThen m h f s = (case m s of (t, Inl e) \<Rightarrow> h e t | (t, Inr a) \<Rightarrow> f a t)"

definition reading :: "('s \<Rightarrow> 'a) \<Rightarrow> ('a \<Rightarrow> ('s, 'e, 'b) eact) \<Rightarrow> ('s, 'e, 'b) eact" where
  "reading g f s = f (g s) s"

definition changing :: "('s \<Rightarrow> 's) \<Rightarrow> ('s, 'e, unit) eact" where
  "changing f s = (f s, Inr ())"

fun forEach :: "('x \<Rightarrow> ('s, 'e, unit) eact) \<Rightarrow> 'x list \<Rightarrow> ('s, 'e, unit) eact" where
  "forEach f [] = ret ()"
| "forEach f (x # xs) = andThen (f x) (\<lambda>_. forEach f xs)"

text \<open>\<open>m\<close> with its error swallowed.\<close>

definition bestEffort :: "('s, 'e, unit) eact \<Rightarrow> ('s, 'e, unit) eact" where
  "bestEffort m = catching m (\<lambda>_. ret ())"

text \<open>An operation of a part of the state.\<close>

definition on_part :: "('s \<Rightarrow> 'p) \<Rightarrow> ('p \<Rightarrow> 's \<Rightarrow> 's) \<Rightarrow> ('p, 'e, 'a) eact \<Rightarrow> ('s, 'e, 'a) eact" where
  "on_part get put m s = (case m (get s) of (p, r) \<Rightarrow> (put p s, r))"

text \<open>A call of a service outside may fail before or after its effect.\<close>

datatype call_fault = FailsBefore | FailsAfter

section \<open>Weakest preconditions\<close>

definition wp :: "('s, 'e, 'a) eact \<Rightarrow> ('a \<Rightarrow> 's \<Rightarrow> bool) \<Rightarrow> ('e \<Rightarrow> 's \<Rightarrow> bool) \<Rightarrow> 's \<Rightarrow> bool" where
  "wp m Q E s = (case m s of (t, Inl e) \<Rightarrow> E e t | (t, Inr a) \<Rightarrow> Q a t)"

lemma wp_ret [wp_simps]: "wp (ret a) Q E = Q a"
  by (simp add: fun_eq_iff wp_def ret_def)

lemma wp_raise [wp_simps]: "wp (raise e) Q E = E e"
  by (simp add: fun_eq_iff wp_def raise_def)

lemma wp_andThen [wp_simps]: "wp (andThen m f) Q E = wp m (\<lambda>a. wp (f a) Q E) E"
  by (simp add: fun_eq_iff wp_def andThen_def split: prod.split sum.split)

lemma wp_catching [wp_simps]: "wp (catching m h) Q E = wp m Q (\<lambda>e. wp (h e) Q E)"
  by (simp add: fun_eq_iff wp_def catching_def split: prod.split sum.split)

lemma wp_tryThen [wp_simps]:
  "wp (tryThen m h f) Q E = wp m (\<lambda>a. wp (f a) Q E) (\<lambda>e. wp (h e) Q E)"
  by (simp add: fun_eq_iff wp_def tryThen_def split: prod.split sum.split)

lemma wp_reading [wp_simps]: "wp (reading g f) Q E = (\<lambda>s. wp (f (g s)) Q E s)"
  by (simp add: fun_eq_iff wp_def reading_def)

lemma wp_changing [wp_simps]: "wp (changing f) Q E = (\<lambda>s. Q () (f s))"
  by (simp add: fun_eq_iff wp_def changing_def)

lemma wp_bestEffort [wp_simps]: "wp (bestEffort m) Q E = wp m Q (\<lambda>_. Q ())"
  by (simp add: bestEffort_def wp_simps)

lemma wp_on_part [wp_simps]: "wp (on_part get put m) Q E =
    (\<lambda>s. wp m (\<lambda>a p. Q a (put p s)) (\<lambda>e p. E e (put p s)) (get s))"
  by (simp add: fun_eq_iff wp_def on_part_def split: prod.split sum.split)

lemma wp_if [wp_simps]: "wp (if b then m else n) Q E = (if b then wp m Q E else wp n Q E)"
  by simp

lemma wp_conseq:
  assumes "wp m Q E s" and "\<And>a t. Q a t \<Longrightarrow> Q' a t" and "\<And>e t. E e t \<Longrightarrow> E' e t"
  shows "wp m Q' E' s"
  using assms by (simp add: wp_def split: prod.splits sum.splits)

text \<open>Two facts about one run hold together.\<close>

lemma wp_conj: "wp m Q E s \<Longrightarrow> wp m Q' E' s \<Longrightarrow>
    wp m (\<lambda>a t. Q a t \<and> Q' a t) (\<lambda>e t. E e t \<and> E' e t) s"
  by (simp add: wp_def split: prod.splits sum.splits)

lemma wp_forEach:
  assumes "I s" and "\<And>x s. x \<in> set xs \<Longrightarrow> I s \<Longrightarrow> wp (f x) (\<lambda>_. I) E s"
  shows "wp (forEach f xs) (\<lambda>_. I) E s"
  using assms
proof (induction xs arbitrary: s)
  case (Cons x xs)
  have "wp (f x) (\<lambda>_. I) E s" using Cons.prems by simp
  then have "wp (f x) (\<lambda>_. wp (forEach f xs) (\<lambda>_. I) E) E s"
    by (rule wp_conseq) (use Cons in auto)
  then show ?case by (simp add: wp_simps)
qed (simp add: wp_simps)

text \<open>What \<open>wp\<close> says of the final state and result.\<close>

lemma wp_run: "wp m Q E s \<longleftrightarrow>
    (\<forall>a. snd (m s) = Inr a \<longrightarrow> Q a (fst (m s))) \<and> (\<forall>e. snd (m s) = Inl e \<longrightarrow> E e (fst (m s)))"
  by (cases "m s") (simp add: wp_def split: sum.splits)

lemma wp_final: "wp m (\<lambda>_. P) (\<lambda>_. P) s \<longleftrightarrow> P (fst (m s))"
  by (cases "m s") (simp add: wp_def split: sum.splits)

section \<open>What holds when an action returns\<close>

text \<open>\<open>ends Q m\<close>: whatever happens before, \<open>Q\<close> holds of the value \<open>m\<close> returns and the state it leaves.\<close>

definition ends :: "('a \<Rightarrow> 's \<Rightarrow> bool) \<Rightarrow> ('s, 'e, 'a) eact \<Rightarrow> bool" where
  "ends Q m \<longleftrightarrow> (\<forall>s. wp m Q (\<lambda>_ _. True) s)"

lemma ends_ret: "(\<And>s. Q a s) \<Longrightarrow> ends Q (ret a)"
  by (simp add: ends_def wp_simps)

lemma ends_raise: "ends Q (raise e)"
  by (simp add: ends_def wp_simps)

lemma ends_andThen: "(\<And>a. ends Q (g a)) \<Longrightarrow> ends Q (andThen m g)"
  by (simp add: ends_def wp_andThen) (simp add: wp_run)

lemma ends_after: "ends (\<lambda>a _. P a) m \<Longrightarrow> (\<And>a. P a \<Longrightarrow> ends Q (g a)) \<Longrightarrow> ends Q (andThen m g)"
  unfolding ends_def wp_andThen by (blast intro: wp_conseq)

lemma ends_then_ret: "ends (\<lambda>a. Q (f a)) m \<Longrightarrow> ends Q (andThen m (\<lambda>a. ret (f a)))"
  by (simp add: ends_def wp_simps)

lemma ends_reading: "(\<And>x. ends Q (g x)) \<Longrightarrow> ends Q (reading h g)"
  by (simp add: ends_def wp_simps)

lemma ends_if: "(b \<Longrightarrow> ends Q m) \<Longrightarrow> (\<not> b \<Longrightarrow> ends Q m') \<Longrightarrow> ends Q (if b then m else m')"
  by simp

lemma ends_mono: "ends Q m \<Longrightarrow> (\<And>a t. Q a t \<Longrightarrow> Q' a t) \<Longrightarrow> ends Q' m"
  unfolding ends_def by (blast intro: wp_conseq)

lemmas ends_intros = ends_ret ends_raise ends_andThen ends_reading ends_if

section \<open>What an action leaves alone\<close>

named_theorems keeps_intros \<open>which actions keep which part of the state\<close>

definition keeps :: "('s \<Rightarrow> 'p) \<Rightarrow> ('s, 'e, 'a) eact \<Rightarrow> bool" where
  "keeps f m \<longleftrightarrow> (\<forall>s. f (fst (m s)) = f s)"

lemma keeps_wp: "keeps f m \<longleftrightarrow> (\<forall>s. wp m (\<lambda>_ t. f t = f s) (\<lambda>_ t. f t = f s) s)"
  by (simp add: keeps_def wp_final)

lemma wp_keeps:
  assumes "keeps f m" and "\<And>a t. f t = f s \<Longrightarrow> Q a t" and "\<And>e t. f t = f s \<Longrightarrow> E e t"
  shows "wp m Q E s"
proof -
  have "wp m (\<lambda>_ t. f t = f s) (\<lambda>_ t. f t = f s) s" using assms(1) by (simp add: keeps_wp)
  then show ?thesis by (rule wp_conseq) (use assms in auto)
qed

text \<open>A fact about that part survives whatever comes after.\<close>

lemma wp_then_keeps:
  assumes "\<And>a. keeps f (g a)" and "\<And>t u. f t = f u \<Longrightarrow> P t = P u"
    and "wp m (\<lambda>_. P) (\<lambda>_. P) s"
  shows "wp (andThen m g) (\<lambda>_. P) (\<lambda>_. P) s"
  unfolding wp_andThen
proof (rule wp_conseq [OF assms(3)])
  fix a t assume "P t"
  then show "wp (g a) (\<lambda>_. P) (\<lambda>_. P) t"
    by (intro wp_keeps [OF assms(1)]) (use assms(2) in blast)+
qed

lemma keeps_ret [keeps_intros]: "keeps f (ret a)"
  by (simp add: keeps_wp wp_simps)

lemma keeps_raise [keeps_intros]: "keeps f (raise e)"
  by (simp add: keeps_wp wp_simps)

lemma keeps_andThen [keeps_intros]:
  "keeps f m \<Longrightarrow> (\<And>a. keeps f (g a)) \<Longrightarrow> keeps f (andThen m g)"
  unfolding keeps_def andThen_def by (simp split: prod.split sum.split) (metis fst_conv)

lemma keeps_tryThen [keeps_intros]:
  "keeps f m \<Longrightarrow> (\<And>e. keeps f (h e)) \<Longrightarrow> (\<And>a. keeps f (g a)) \<Longrightarrow> keeps f (tryThen m h g)"
  unfolding keeps_def tryThen_def by (simp split: prod.split sum.split) (metis fst_conv)

lemma keeps_catching [keeps_intros]:
  "keeps f m \<Longrightarrow> (\<And>e. keeps f (h e)) \<Longrightarrow> keeps f (catching m h)"
  unfolding keeps_def catching_def by (simp split: prod.split sum.split) (metis fst_conv)

lemma keeps_bestEffort [keeps_intros]: "keeps f m \<Longrightarrow> keeps f (bestEffort m)"
  unfolding bestEffort_def by (intro keeps_intros)

lemma keeps_reading [keeps_intros]: "(\<And>x. keeps f (g x)) \<Longrightarrow> keeps f (reading h g)"
  by (simp add: keeps_def reading_def)

lemma keeps_changing [keeps_intros]: "(\<And>s. f (g s) = f s) \<Longrightarrow> keeps f (changing g)"
  by (simp add: keeps_def changing_def)

lemma keeps_forEach [keeps_intros]:
  "(\<And>x. x \<in> set xs \<Longrightarrow> keeps f (g x)) \<Longrightarrow> keeps f (forEach g xs)"
  by (induction xs) (auto intro!: keeps_intros)

lemma keeps_on_part [keeps_intros]:
  "(\<And>p s. f (put p s) = f s) \<Longrightarrow> keeps f (on_part get put m)"
  by (simp add: keeps_def on_part_def split: prod.split)

lemma keeps_if [keeps_intros]: "keeps f m \<Longrightarrow> keeps f n \<Longrightarrow> keeps f (if b then m else n)"
  by simp

lemma keeps_option [keeps_intros]:
  "keeps f m \<Longrightarrow> (\<And>x. keeps f (g x)) \<Longrightarrow> keeps f (case x of None \<Rightarrow> m | Some y \<Rightarrow> g y)"
  by (cases x) simp_all

end
