(* ===== verification/Process_Output.thy ===== *)
theory Process_Output
  imports Strings
begin

text \<open>
  The output of a background process: how \<open>ThreadComputeStore.appendOutput\<close>
  (\<open>src/compute/thread-store.ts\<close>) stores it in chunks under a byte budget, and how
  \<open>src/compute/output.ts\<close> slices the stored chunks by line, byte and pattern.

  Text is UTF-8, so \<open>utf8ByteLength\<close> is \<open>length\<close>. JavaScript counts a string in UTF-16 units;
  only the pattern length and the scan limit of \<open>grepOutputChunks\<close> depend on that, through
  \<open>utf16_length\<close>. The regular expression engine is the argument \<open>regex_test\<close>: it compiles a pattern
  or throws, and tests a line, or its first 5000 units.
\<close>

section \<open>Lines\<close>

text \<open>\<open>text.split(/(?<=\n)/g).filter(Boolean)\<close>: each line keeps its newline.\<close>

fun splitLines :: "string \<Rightarrow> string list" where
  "splitLines [] = []"
| "splitLines (c # cs) =
     (if c = LF then [c] # splitLines cs
      else case splitLines cs of [] \<Rightarrow> [[c]] | l # ls \<Rightarrow> (c # l) # ls)"

definition countLines :: "string \<Rightarrow> nat" where
  "countLines s = length (splitLines s)"

definition ends_line :: "string \<Rightarrow> bool" where
  "ends_line s = (s \<noteq> [] \<and> last s = LF)"

lemma concat_splitLines [simp]: "concat (splitLines s) = s"
  by (induction s) (auto split: list.split)

lemma splitLines_append_line:
  "ends_line s \<Longrightarrow> splitLines (s @ u) = splitLines s @ splitLines u"
proof (induction s)
  case Nil
  then show ?case by (simp add: ends_line_def)
next
  case (Cons c s)
  show ?case
  proof (cases "s = []")
    case True
    with Cons.prems show ?thesis by (simp add: ends_line_def)
  next
    case False
    with Cons.prems have "ends_line s" by (simp add: ends_line_def)
    with Cons.IH have IH: "splitLines (s @ u) = splitLines s @ splitLines u" by blast
    have "splitLines s \<noteq> []" using False by (metis concat.simps(1) concat_splitLines)
    with IH show ?thesis by (auto split: list.split)
  qed
qed

lemma splitLines_Nil_iff [simp]: "splitLines s = [] \<longleftrightarrow> s = []"
  by (metis concat.simps(1) concat_splitLines splitLines.simps(1))

lemma countLines_Nil [simp]: "countLines [] = 0"
  by (simp add: countLines_def)

lemma countLines_max [simp]: "s \<noteq> [] \<Longrightarrow> max (countLines s) (Suc 0) = countLines s"
  by (cases "splitLines s") (simp_all add: countLines_def)

lemma line_shape: "l \<in> set (splitLines s) \<Longrightarrow> l \<noteq> [] \<and> LF \<notin> set (butlast l)"
proof (induction s arbitrary: l)
  case (Cons c s)
  then show ?case by (cases "splitLines s") (auto split: if_splits)
qed simp

section \<open>Storing output\<close>

datatype out_stream = Stdout | Stderr

record output_chunk =
  oc_processId :: string
  oc_stream :: out_stream
  oc_index :: nat
  oc_byteStart :: nat
  oc_byteEnd :: nat
  oc_lineStart :: nat
  oc_lineEnd :: nat
  oc_text :: string
  oc_createdAt :: int

text \<open>The chunk table and the processes whose \<open>output_truncated\<close> is set.\<close>

record output_store =
  os_chunks :: "output_chunk list"
  os_truncated :: "string list"

record output_limits =
  ol_maxProcessOutputBytes :: int
  ol_maxThreadOutputBytes :: int

definition trimUtf8 :: "string \<Rightarrow> nat \<Rightarrow> string" where
  "trimUtf8 value maxBytes = decode_utf8 (take maxBytes value)"

definition chunk_bytes :: "output_chunk \<Rightarrow> int" where
  "chunk_bytes c = int (oc_byteEnd c) - int (oc_byteStart c)"

definition processOutputBytes :: "string \<Rightarrow> output_chunk list \<Rightarrow> int" where
  "processOutputBytes p t = sum_list (map chunk_bytes (filter (\<lambda>c. oc_processId c = p) t))"

definition threadOutputBytes :: "output_chunk list \<Rightarrow> int" where
  "threadOutputBytes t = sum_list (map chunk_bytes t)"

definition markProcessTruncated :: "string \<Rightarrow> output_store \<Rightarrow> output_store" where
  "markProcessTruncated p s = s\<lparr>os_truncated := List.insert p (os_truncated s)\<rparr>"

definition of_stream :: "string \<Rightarrow> out_stream \<Rightarrow> output_chunk \<Rightarrow> bool" where
  "of_stream p st c \<longleftrightarrow> oc_processId c = p \<and> oc_stream c = st"

text \<open>\<open>ORDER BY chunk_index DESC LIMIT 1\<close>. The row it finds is updated by its id; a process, a stream
  and an index identify the row as well.\<close>

definition last_chunk :: "string \<Rightarrow> out_stream \<Rightarrow> output_chunk list \<Rightarrow> output_chunk option" where
  "last_chunk p st t =
     (case sort_key oc_index (filter (of_stream p st) t) of [] \<Rightarrow> None | cs \<Rightarrow> Some (last cs))"

definition next_chunk :: "string \<Rightarrow> out_stream \<Rightarrow> string \<Rightarrow> int \<Rightarrow> output_chunk option \<Rightarrow> output_chunk" where
  "next_chunk p st txt now prev =
     (let i = (case prev of None \<Rightarrow> 0 | Some c \<Rightarrow> oc_index c + 1);
          b = (case prev of None \<Rightarrow> 0 | Some c \<Rightarrow> oc_byteEnd c);
          l = (case prev of None \<Rightarrow> 0 | Some c \<Rightarrow> oc_lineEnd c) + 1
      in \<lparr>oc_processId = p, oc_stream = st, oc_index = i, oc_byteStart = b,
          oc_byteEnd = b + length txt, oc_lineStart = l, oc_lineEnd = l + max (countLines txt) 1 - 1,
          oc_text = txt, oc_createdAt = now\<rparr>)"

definition merged_chunk :: "string \<Rightarrow> int \<Rightarrow> output_chunk \<Rightarrow> output_chunk" where
  "merged_chunk txt now c =
     (let merged = oc_text c @ txt
      in c\<lparr>oc_text := merged, oc_byteEnd := oc_byteStart c + length merged,
           oc_lineEnd := oc_lineStart c + max (countLines merged) 1 - 1, oc_createdAt := now\<rparr>)"

definition store_text :: "string \<Rightarrow> out_stream \<Rightarrow> string \<Rightarrow> int \<Rightarrow> output_chunk list \<Rightarrow> output_chunk list" where
  "store_text p st txt now t =
     (case last_chunk p st t of
        None \<Rightarrow> t @ [next_chunk p st txt now None]
      | Some c \<Rightarrow>
          if \<not> ends_line (oc_text c)
          then map (\<lambda>x. if of_stream p st x \<and> oc_index x = oc_index c then merged_chunk txt now x else x) t
          else t @ [next_chunk p st txt now (Some c)])"

definition appendOutput ::
  "output_limits \<Rightarrow> string \<Rightarrow> out_stream \<Rightarrow> string \<Rightarrow> int \<Rightarrow> output_store \<Rightarrow> output_store" where
  "appendOutput lim p st txt now s =
     (if txt = [] then s
      else let remaining = min (ol_maxProcessOutputBytes lim - processOutputBytes p (os_chunks s))
                               (ol_maxThreadOutputBytes lim - threadOutputBytes (os_chunks s))
        in if remaining \<le> 0 then markProcessTruncated p s
           else let truncated = int (length txt) > remaining;
                    kept = (if truncated then trimUtf8 txt (nat remaining) else txt)
             in if kept = [] then markProcessTruncated p s
                else let s1 = s\<lparr>os_chunks := store_text p st kept now (os_chunks s)\<rparr>
                  in if truncated then markProcessTruncated p s1 else s1)"

definition listOutputChunks :: "string \<Rightarrow> out_stream option \<Rightarrow> output_chunk list \<Rightarrow> output_chunk list" where
  "listOutputChunks p st t =
     sort_key oc_index (filter (\<lambda>c. oc_processId c = p \<and> (case st of None \<Rightarrow> True | Some x \<Rightarrow> oc_stream c = x)) t)"

section \<open>The stored chunks of a stream\<close>

definition stream_text :: "output_chunk list \<Rightarrow> string" where
  "stream_text cs = concat (map oc_text cs)"

lemma stream_text_simps [simp]:
  "stream_text [] = []" "stream_text (c # cs) = oc_text c @ stream_text cs"
  "stream_text (cs @ ds) = stream_text cs @ stream_text ds"
  by (simp_all add: stream_text_def)

text \<open>A chunk in its place after the text \<open>pre\<close>; a chunk is followed by another only at the end of a line.\<close>

definition in_place :: "nat \<Rightarrow> string \<Rightarrow> output_chunk \<Rightarrow> bool" where
  "in_place i pre c \<longleftrightarrow> oc_index c = i \<and> oc_text c \<noteq> [] \<and>
     oc_byteStart c = length pre \<and> oc_byteEnd c = length pre + length (oc_text c) \<and>
     oc_lineStart c = countLines pre + 1 \<and> oc_lineEnd c = countLines pre + countLines (oc_text c)"

fun chained :: "nat \<Rightarrow> string \<Rightarrow> output_chunk list \<Rightarrow> bool" where
  "chained i pre [] = True"
| "chained i pre (c # cs) =
     (in_place i pre c \<and> (cs \<noteq> [] \<longrightarrow> ends_line (oc_text c)) \<and> chained (i + 1) (pre @ oc_text c) cs)"

lemma chained_snoc:
  "chained i pre (cs @ [c]) \<longleftrightarrow> chained i pre cs \<and> (cs \<noteq> [] \<longrightarrow> ends_line (oc_text (last cs))) \<and>
     in_place (i + length cs) (pre @ stream_text cs) c"
  by (induction cs arbitrary: i pre) auto

lemma chained_index: "chained i pre cs \<Longrightarrow> k < length cs \<Longrightarrow> oc_index (cs ! k) = i + k"
proof (induction cs arbitrary: i pre k)
  case (Cons c cs)
  then show ?case by (cases k) (auto simp: in_place_def)
qed simp

lemma chained_indices: "chained i pre cs \<Longrightarrow> map oc_index cs = [i ..< i + length cs]"
  by (rule nth_equalityI) (auto simp: chained_index)

lemma chained_sorted: "chained i pre cs \<Longrightarrow> sort_key oc_index cs = cs"
  by (rule sort_key_id_if_sorted) (simp add: chained_indices)

lemma chained_bytes: "chained i pre cs \<Longrightarrow> sum_list (map chunk_bytes cs) = int (length (stream_text cs))"
  by (induction cs arbitrary: i pre) (auto simp: in_place_def chunk_bytes_def)

lemma chained_ends_line: "chained i pre cs \<Longrightarrow> cs \<noteq> [] \<Longrightarrow> ends_line (oc_text (last cs)) \<Longrightarrow> ends_line (pre @ stream_text cs)"
proof (induction cs rule: rev_induct)
  case (snoc c cs)
  then show ?case by (simp add: ends_line_def)
qed simp

lemma countLines_append: "ends_line s \<or> s = [] \<Longrightarrow> countLines (s @ u) = countLines s + countLines u"
  by (auto simp: countLines_def splitLines_append_line)

definition stream_chunks :: "string \<Rightarrow> out_stream \<Rightarrow> output_chunk list \<Rightarrow> output_chunk list" where
  "stream_chunks p st t = filter (of_stream p st) t"

definition chunks_ok :: "output_chunk list \<Rightarrow> bool" where
  "chunks_ok t = (\<forall>p st. chained 0 [] (stream_chunks p st t))"

lemma list_stream: "chunks_ok t \<Longrightarrow> listOutputChunks p (Some st) t = stream_chunks p st t"
  using chained_sorted [of 0 "[]" "stream_chunks p st t"]
  by (simp add: chunks_ok_def listOutputChunks_def stream_chunks_def of_stream_def [abs_def])

lemma last_chunk_eq:
  assumes "chunks_ok t"
  shows "last_chunk p st t = (if stream_chunks p st t = [] then None else Some (last (stream_chunks p st t)))"
  using chained_sorted [of 0 "[]" "stream_chunks p st t"] assms
  by (simp add: chunks_ok_def last_chunk_def stream_chunks_def split: list.split)

lemma next_chunk_in_place:
  assumes "chained 0 [] cs" and "cs \<noteq> [] \<Longrightarrow> ends_line (oc_text (last cs))" and "txt \<noteq> []"
  shows "in_place (length cs) (stream_text cs) (next_chunk p st txt now (if cs = [] then None else Some (last cs)))"
proof (cases cs rule: rev_cases)
  case Nil
  with assms(3) show ?thesis by (simp add: in_place_def next_chunk_def Let_def)
next
  case (snoc ds c)
  have c: "in_place (length ds) (stream_text ds) c" and ds: "chained 0 [] ds"
    "ds \<noteq> [] \<longrightarrow> ends_line (oc_text (last ds))"
    using assms(1) unfolding snoc chained_snoc by simp_all
  have "ends_line (stream_text ds) \<or> stream_text ds = []"
    using chained_ends_line [OF ds(1)] ds(2) by (cases "ds = []") auto
  with c assms(3) show ?thesis
    by (simp add: snoc in_place_def next_chunk_def Let_def countLines_append)
qed

lemma merged_in_place:
  assumes "in_place i pre c" and "txt \<noteq> []"
  shows "in_place i pre (merged_chunk txt now c)"
  using assms by (simp add: in_place_def merged_chunk_def Let_def)

lemma next_chunk_fields [simp]:
  "oc_text (next_chunk p st txt now prev) = txt"
  "of_stream q su (next_chunk p st txt now prev) \<longleftrightarrow> q = p \<and> su = st"
  "oc_text (merged_chunk txt now c) = oc_text c @ txt"
  "of_stream q su (merged_chunk txt now c) = of_stream q su c"
  by (auto simp: next_chunk_def merged_chunk_def Let_def of_stream_def)

lemma filter_map_same: "(\<And>x. P (f x) = P x) \<Longrightarrow> filter P (map f t) = map f (filter P t)"
  by (simp add: filter_map comp_def)

text \<open>Appending text to one stream: its chunks stay chained and hold the text at their end.\<close>

lemma store_text_stream:
  assumes "chunks_ok t" and "txt \<noteq> []"
  shows "chained 0 [] (stream_chunks p st (store_text p st txt now t))"
    and "stream_text (stream_chunks p st (store_text p st txt now t)) =
      stream_text (stream_chunks p st t) @ txt"
proof -
  let ?cs = "stream_chunks p st t"
  have chain: "chained 0 [] ?cs" using assms(1) by (simp add: chunks_ok_def)
  have "chained 0 [] (stream_chunks p st (store_text p st txt now t)) \<and>
      stream_text (stream_chunks p st (store_text p st txt now t)) = stream_text ?cs @ txt"
  proof (cases ?cs rule: rev_cases)
    case Nil
    then show ?thesis
      using next_chunk_in_place [of "[]" "txt" p st now] assms(2)
      by (simp add: store_text_def last_chunk_eq [OF assms(1)] stream_chunks_def)
  next
    case (snoc ds c)
    have last_c: "last_chunk p st t = Some c" by (simp add: last_chunk_eq [OF assms(1)] snoc)
    show ?thesis
    proof (cases "ends_line (oc_text c)")
      case True
      then have "in_place (length ?cs) (stream_text ?cs) (next_chunk p st txt now (Some c))"
        using next_chunk_in_place [OF chain _ assms(2), of p st now] by (simp add: snoc)
      with chain True show ?thesis
        by (simp add: store_text_def last_c stream_chunks_def chained_snoc)
          (metis chained_snoc last_snoc snoc stream_chunks_def add_0 append_Nil)
    next
      case False
      have idx: "oc_index c = length ds" and old: "\<And>x. x \<in> set ds \<Longrightarrow> oc_index x \<noteq> length ds"
        using chained_indices [OF chain] by (auto simp: snoc) (metis atLeastLessThan_iff imageI less_irrefl set_map set_upt)
      have "stream_chunks p st (store_text p st txt now t) =
          map (\<lambda>x. if of_stream p st x \<and> oc_index x = oc_index c then merged_chunk txt now x else x) ?cs"
        using False by (simp add: store_text_def last_c stream_chunks_def filter_map_same)
      also have "\<dots> = ds @ [merged_chunk txt now c]"
      proof -
        have "c \<in> set ?cs" unfolding snoc by simp
        then have "of_stream p st c" by (simp add: stream_chunks_def)
        with idx old show ?thesis unfolding snoc by (auto intro!: map_idI)
      qed
      finally show ?thesis
        using chain merged_in_place [OF _ assms(2)] unfolding snoc by (simp add: chained_snoc)
    qed
  qed
  then show "chained 0 [] (stream_chunks p st (store_text p st txt now t))"
    "stream_text (stream_chunks p st (store_text p st txt now t)) = stream_text ?cs @ txt" by simp_all
qed

lemma store_text_other:
  assumes "(q, su) \<noteq> (p, st)"
  shows "stream_chunks q su (store_text p st tx now t) = stream_chunks q su t"
proof -
  have "of_stream q su x \<Longrightarrow> \<not> of_stream p st x" for x using assms by (auto simp: of_stream_def)
  then have "stream_chunks q su (map (\<lambda>x. if of_stream p st x \<and> P x then merged_chunk tx now x else x) t) =
      stream_chunks q su t" for P
    by (induction t) (auto simp: stream_chunks_def)
  moreover have "\<not> of_stream q su (next_chunk p st tx now prev)" for prev using assms by auto
  ultimately show ?thesis
    by (simp add: store_text_def stream_chunks_def split: option.split)
qed

lemma store_text_ok: "chunks_ok t \<Longrightarrow> tx \<noteq> [] \<Longrightarrow> chunks_ok (store_text p st tx now t)"
  using store_text_stream(1) store_text_other unfolding chunks_ok_def by (metis prod.inject)

text \<open>One row is added, or one row grows: byte totals grow by what was appended.\<close>

lemma store_text_cases:
  assumes "chunks_ok t" and "tx \<noteq> []"
  obtains prev where "store_text p st tx now t = t @ [next_chunk p st tx now prev]"
  | xs c ys where "t = xs @ c # ys" "of_stream p st c" "oc_byteEnd c = oc_byteStart c + length (oc_text c)"
      "store_text p st tx now t = xs @ merged_chunk tx now c # ys"
proof (cases "stream_chunks p st t" rule: rev_cases)
  case Nil
  then show ?thesis using that(1) by (simp add: store_text_def last_chunk_eq [OF assms(1)])
next
  case (snoc ds c)
  have last_c: "last_chunk p st t = Some c" by (simp add: last_chunk_eq [OF assms(1)] snoc)
  show ?thesis
  proof (cases "ends_line (oc_text c)")
    case True
    then show ?thesis using that(1) by (simp add: store_text_def last_c)
  next
    case False
    have chain: "chained 0 [] (stream_chunks p st t)" using assms(1) by (simp add: chunks_ok_def)
    have "c \<in> set (stream_chunks p st t)" unfolding snoc by simp
    then have "c \<in> set t" and c: "of_stream p st c" by (auto simp: stream_chunks_def)
    then obtain xs ys where t: "t = xs @ c # ys" by (meson split_list)
    have "distinct (map oc_index (stream_chunks p st t))" by (simp add: chained_indices [OF chain])
    then have "\<not> (of_stream p st x \<and> oc_index x = oc_index c)" if "x \<in> set xs \<union> set ys" for x
      using that c by (auto simp: t stream_chunks_def image_iff)
    then have "store_text p st tx now t = xs @ merged_chunk tx now c # ys"
      using False c by (auto simp: store_text_def last_c [unfolded t] t intro!: map_idI)
    moreover have "in_place (length ds) (stream_text ds) c" using chain unfolding snoc chained_snoc by simp
    ultimately show ?thesis using that(2) [OF t c] by (simp add: in_place_def)
  qed
qed

lemma store_text_total:
  assumes "chunks_ok t" and "tx \<noteq> []"
    and same: "\<And>x y. oc_processId x = oc_processId y \<Longrightarrow> P x = P y"
  shows "sum_list (map chunk_bytes (filter P (store_text p st tx now t))) =
    sum_list (map chunk_bytes (filter P t)) + (if P (next_chunk p st tx now None) then int (length tx) else 0)"
  using assms(1,2)
proof (cases rule: store_text_cases [of t tx p st now])
  case (1 prev)
  have "P (next_chunk p st tx now prev) = P (next_chunk p st tx now None)"
    by (rule same) (simp add: next_chunk_def Let_def)
  with 1 show ?thesis by (simp add: chunk_bytes_def next_chunk_def Let_def)
next
  case (2 xs c ys)
  have "P (merged_chunk tx now c) = P c" "P (next_chunk p st tx now None) = P c"
    using 2(2) by (auto intro!: same simp: merged_chunk_def next_chunk_def Let_def of_stream_def)
  with 2 show ?thesis by (simp add: chunk_bytes_def merged_chunk_def Let_def)
qed

lemma totals_after:
  assumes "chunks_ok t" and "tx \<noteq> []"
  shows "threadOutputBytes (store_text p st tx now t) = threadOutputBytes t + int (length tx)"
    and "processOutputBytes q (store_text p st tx now t) =
      processOutputBytes q t + (if q = p then int (length tx) else 0)"
  using store_text_total [OF assms, of "\<lambda>_. True" p st now]
    store_text_total [OF assms, of "\<lambda>c. oc_processId c = q" p st now]
  by (auto simp: threadOutputBytes_def processOutputBytes_def next_chunk_def Let_def)

section \<open>What is kept\<close>

text \<open>A history of appends: process, stream, text and time, in order.\<close>

type_synonym append_call = "string \<times> out_stream \<times> string \<times> int"

definition append_all :: "output_limits \<Rightarrow> append_call list \<Rightarrow> output_store \<Rightarrow> output_store" where
  "append_all lim calls s = fold (\<lambda>(p, st, tx, now). appendOutput lim p st tx now) calls s"

definition empty_output :: output_store where
  "empty_output = \<lparr>os_chunks = [], os_truncated = []\<rparr>"

text \<open>The text given for a stream of a process.\<close>

definition given_text :: "string \<Rightarrow> out_stream \<Rightarrow> append_call list \<Rightarrow> string" where
  "given_text p st calls = concat (map (\<lambda>(q, su, tx, now). if q = p \<and> su = st then tx else []) calls)"

definition output_ok :: "output_limits \<Rightarrow> append_call list \<Rightarrow> output_store \<Rightarrow> bool" where
  "output_ok lim calls s =
     (chunks_ok (os_chunks s) \<and>
      threadOutputBytes (os_chunks s) \<le> max 0 (ol_maxThreadOutputBytes lim + 2) \<and>
      (\<forall>p. processOutputBytes p (os_chunks s) \<le> max 0 (ol_maxProcessOutputBytes lim + 2)) \<and>
      (\<forall>p st. p \<notin> set (os_truncated s) \<longrightarrow> stream_text (stream_chunks p st (os_chunks s)) = given_text p st calls))"

lemma append_kept:
  assumes "output_ok lim calls s" and "kept \<noteq> []"
    and "int (length kept) \<le> ol_maxProcessOutputBytes lim - processOutputBytes p (os_chunks s) + 2"
    and "int (length kept) \<le> ol_maxThreadOutputBytes lim - threadOutputBytes (os_chunks s) + 2"
    and "truncated \<or> kept = tx"
    and "s' = (if truncated then markProcessTruncated p (s\<lparr>os_chunks := store_text p st kept now (os_chunks s)\<rparr>)
               else s\<lparr>os_chunks := store_text p st kept now (os_chunks s)\<rparr>)"
  shows "output_ok lim (calls @ [(p, st, tx, now)]) s'"
proof -
  have ok: "chunks_ok (os_chunks s)" using assms(1) by (simp add: output_ok_def)
  have chunks: "os_chunks s' = store_text p st kept now (os_chunks s)"
    using assms(6) by (simp add: markProcessTruncated_def)
  have "stream_text (stream_chunks q su (os_chunks s')) = given_text q su (calls @ [(p, st, tx, now)])"
    if q: "q \<notin> set (os_truncated s')" for q su
  proof -
    have old: "stream_text (stream_chunks q su (os_chunks s)) = given_text q su calls"
      using q assms(1,6) by (auto simp: output_ok_def markProcessTruncated_def split: if_splits)
    show ?thesis
    proof (cases "(q, su) = (p, st)")
      case True
      with q assms(5,6) have "kept = tx" by (auto simp: markProcessTruncated_def)
      with True old store_text_stream(2) [OF ok assms(2), of p st now] show ?thesis
        by (simp add: chunks given_text_def)
    next
      case False
      with old store_text_other [OF False, of kept now "os_chunks s"] show ?thesis
        by (auto simp: chunks given_text_def)
    qed
  qed
  then show ?thesis
    using assms(1,3,4) store_text_ok [OF ok assms(2)]
    by (auto simp: output_ok_def chunks totals_after [OF ok assms(2)])
qed

lemma append_ok:
  assumes "output_ok lim calls s" and "valid_utf8 tx"
  shows "output_ok lim (calls @ [(p, st, tx, now)]) (appendOutput lim p st tx now s)"
proof -
  let ?left = "min (ol_maxProcessOutputBytes lim - processOutputBytes p (os_chunks s))
    (ol_maxThreadOutputBytes lim - threadOutputBytes (os_chunks s))"
  have marked: "output_ok lim (calls @ [(p, st, tx, now)]) (markProcessTruncated p s)"
    using assms(1) by (auto simp: output_ok_def markProcessTruncated_def given_text_def)
  show ?thesis
  proof (cases "tx = [] \<or> ?left \<le> 0")
    case True
    with marked assms(1) show ?thesis
      by (auto simp: appendOutput_def Let_def output_ok_def given_text_def)
  next
    case False
    let ?cut = "int (length tx) > ?left"
    let ?kept = "if ?cut then trimUtf8 tx (nat ?left) else tx"
    have "int (length ?kept) \<le> ?left + 2"
      using decode_take_length [OF assms(2), of "nat ?left"] False by (auto simp: trimUtf8_def)
    then have fits: "int (length ?kept) \<le> ol_maxProcessOutputBytes lim - processOutputBytes p (os_chunks s) + 2"
      "int (length ?kept) \<le> ol_maxThreadOutputBytes lim - threadOutputBytes (os_chunks s) + 2" by auto
    show ?thesis
    proof (cases "?kept = []")
      case True
      with marked False show ?thesis by (simp add: appendOutput_def Let_def)
    next
      case kept: False
      show ?thesis
        by (rule append_kept [OF assms(1) kept fits, of ?cut])
          (use False kept in \<open>auto simp: appendOutput_def Let_def\<close>)
    qed
  qed
qed

lemma append_all_ok:
  assumes "\<forall>(p, st, tx, now) \<in> set calls. valid_utf8 tx"
  shows "output_ok lim calls (append_all lim calls empty_output)"
  using assms
proof (induction calls rule: rev_induct)
  case Nil
  then show ?case
    by (simp add: append_all_def empty_output_def output_ok_def chunks_ok_def stream_chunks_def
        threadOutputBytes_def processOutputBytes_def given_text_def)
next
  case (snoc call calls)
  obtain p st tx now where call: "call = (p, st, tx, now)" by (cases call)
  from snoc have "output_ok lim calls (append_all lim calls empty_output)" and "valid_utf8 tx"
    by (auto simp: call)
  from append_ok [OF this, of p st now] show ?case by (simp add: call append_all_def)
qed

lemma output_ok_chained:
  "\<forall>(p, st, tx, now) \<in> set calls. valid_utf8 tx \<Longrightarrow>
     chained 0 [] (listOutputChunks p (Some st) (os_chunks (append_all lim calls empty_output)))"
  using append_all_ok [of calls lim] list_stream by (simp add: output_ok_def chunks_ok_def)

text \<open>C36: retention is exact and bounded. After any appends of any processes, every stream's chunks are
  numbered from 0, cover its stored bytes and lines without gap or overlap, and break only at line
  ends; the stored bytes exceed the process and thread budgets by at most the two bytes that replacing
  a cut character costs; and a process not marked truncated has every byte it was given.\<close>

theorem output_retention:
  assumes "\<forall>(p, st, tx, now) \<in> set calls. valid_utf8 tx" and "s = append_all lim calls empty_output"
  shows "chained 0 [] (listOutputChunks p (Some st) (os_chunks s)) \<and>
    threadOutputBytes (os_chunks s) \<le> max 0 (ol_maxThreadOutputBytes lim + 2) \<and>
    processOutputBytes p (os_chunks s) \<le> max 0 (ol_maxProcessOutputBytes lim + 2) \<and>
    (p \<notin> set (os_truncated s) \<longrightarrow>
       stream_text (listOutputChunks p (Some st) (os_chunks s)) = given_text p st calls)"
  using append_all_ok [OF assms(1), of lim] assms(2)
  by (auto simp: output_ok_def list_stream) (simp add: chunks_ok_def)

theorem output_retention_witness:
  "threadOutputBytes (os_chunks (append_all \<lparr>ol_maxProcessOutputBytes = 2, ol_maxThreadOutputBytes = 2\<rparr>
     [(''p'', Stdout, ''abc'', 1)] empty_output)) \<le> 4"
proof -
  have "\<forall>(p, st, tx, now) \<in> set [(''p'', Stdout, ''abc'', 1 :: int)]. valid_utf8 tx"
    by (auto simp: byte_def intro!: valid_utf8_ascii)
  from output_retention [OF this refl, of _ _ "\<lparr>ol_maxProcessOutputBytes = 2, ol_maxThreadOutputBytes = 2\<rparr>"]
  show ?thesis by simp
qed

end
