(* ===== verification/Watchers.thy ===== *)
theory Watchers
  imports Prelude
begin

text \<open>
  \<open>src/src/compute/watchers.ts\<close>: the registry of watched compute processes, as pure decisions.
  A watcher is polled until its process exits or its absolute cap passes; the thread's single
  alarm is armed at the earliest of every horizon.
\<close>

section \<open>Data and constants\<close>

record watcher_row =
  w_processId :: string
  w_deadlineAt :: int
  w_pollIntervalMs :: int
  w_nextPollAt :: int
  w_label :: "string option"
  w_createdAt :: int

datatype process_status = PsRunning | PsExited | PsFailed | PsStopped

datatype watcher_classification = WatchExited | WatchTimeout | WatchRenew | WatchPending

definition MAX_WATCHERS_PER_THREAD :: int where
  "MAX_WATCHERS_PER_THREAD = 8"

definition DEFAULT_MONITOR_POLL_INTERVAL_MS :: int where
  "DEFAULT_MONITOR_POLL_INTERVAL_MS = 60000"

definition WATCH_ABSOLUTE_TIMEOUT_MS :: int where
  "WATCH_ABSOLUTE_TIMEOUT_MS = 3600000"

section \<open>Decisions\<close>

definition isTerminalStatus :: "process_status \<Rightarrow> bool" where
  "isTerminalStatus status = (status \<noteq> PsRunning)"

definition classifyWatcher ::
    "watcher_row \<Rightarrow> process_status \<Rightarrow> int \<Rightarrow> watcher_classification" where
  "classifyWatcher watcher processStatus now =
     (if isTerminalStatus processStatus then WatchExited
      else if now \<ge> w_createdAt watcher + WATCH_ABSOLUTE_TIMEOUT_MS then WatchTimeout
      else if now \<ge> w_deadlineAt watcher then WatchRenew
      else WatchPending)"

definition nextWakeAt ::
    "watcher_row list \<Rightarrow> int option \<Rightarrow> int option \<Rightarrow> int option" where
  "nextWakeAt watchers evictAt workHorizon =
     (let m = (case workHorizon of None \<Rightarrow> evictAt | Some h \<Rightarrow> Some (minNullable evictAt h))
      in foldl (\<lambda>m w. Some (minNullable m (w_nextPollAt w))) m watchers)"

definition canAddWatcher :: "int \<Rightarrow> bool" where
  "canAddWatcher currentCount = (currentCount < MAX_WATCHERS_PER_THREAD)"

section \<open>Lemmas\<close>

lemma nextWakeAt_least:
  "nextWakeAt ws ev wh =
     least_time (set_option ev \<union> set_option wh \<union> w_nextPollAt ` set ws)"
proof -
  have "(case wh of None \<Rightarrow> ev | Some h \<Rightarrow> Some (minNullable ev h)) =
      least_time (set_option ev \<union> set_option wh)"
    by (cases ev; cases wh) (simp_all add: least_time_def)
  then show ?thesis
    by (simp add: nextWakeAt_def Let_def foldl_minNullable)
qed

lemma classifyWatcher_exited_iff:
  "classifyWatcher w st now = WatchExited \<longleftrightarrow> st \<noteq> PsRunning"
  by (simp add: classifyWatcher_def isTerminalStatus_def)

lemma classifyWatcher_renew:
  "classifyWatcher w st now = WatchRenew \<Longrightarrow>
     st = PsRunning \<and> w_deadlineAt w \<le> now \<and> now < w_createdAt w + WATCH_ABSOLUTE_TIMEOUT_MS"
  by (auto simp: classifyWatcher_def isTerminalStatus_def split: if_splits)


text \<open>The thread's single alarm is the true minimum of the eviction time, the work horizon and
  every watcher's next poll, and is unarmed only when there is none of them.\<close>

theorem nextWakeAt_is_minimum:
  "nextWakeAt watchers evictAt workHorizon =
     (let times = set_option evictAt \<union> set_option workHorizon \<union> w_nextPollAt ` set watchers
      in if times = {} then None else Some (Min times))"
  by (simp only: nextWakeAt_least least_time_def Let_def)

end
