(* ===== verification/Work_Ledger.thy ===== *)
theory Work_Ledger
  imports Watchers
begin

text \<open>
  \<open>src/src/agent/work-ledger.ts\<close>: one row per unit of background work (a watched process or a
  subagent run) and the pure classification the reaper acts on.
\<close>

section \<open>Constants\<close>

definition PROCESS_STALE_AFTER_MS :: int where
  "PROCESS_STALE_AFTER_MS = DEFAULT_MONITOR_POLL_INTERVAL_MS * 3"

definition SUBAGENT_STALE_AFTER_MS :: int where
  "SUBAGENT_STALE_AFTER_MS = 180000"

definition SUBAGENT_DEADLINE_MS :: int where
  "SUBAGENT_DEADLINE_MS = 45 * 60000"

definition WORK_ROW_RETENTION_MS :: int where
  "WORK_ROW_RETENTION_MS = 24 * 60 * 60000"

definition WORK_DELIVERY_RETRY_MS :: int where
  "WORK_DELIVERY_RETRY_MS = 60000"

definition UNKNOWN_GENERATION :: string where
  "UNKNOWN_GENERATION = ''unknown''"

section \<open>Rows\<close>

datatype work_kind = KProcess | KSubagent

datatype work_outcome = OExited | OStopped | OTimeout | OFault

datatype work_reason =
    RProcessExit | RProcessStopped | RWatchTimeout | RSandboxReset | RNoLiveness

datatype work_stop_actor = ByUser | ByAgent | BySystem

definition REAPER_WORK_REASONS :: "work_reason list" where
  "REAPER_WORK_REASONS = [RSandboxReset, RNoLiveness, RWatchTimeout]"

record work_terminal =
  t_outcome :: work_outcome
  t_reason :: work_reason
  t_at :: int
  t_detail :: string
  t_actor :: "work_stop_actor option"
  t_exitCode :: "int option"

record work_progress =
  p_message :: "string option"
  p_phase :: "string option"
  p_at :: int

record work_row =
  wr_id :: string
  wr_kind :: work_kind
  wr_startedAt :: int
  wr_lastAliveAt :: int
  wr_staleAfterMs :: int
  wr_deadlineAt :: int
  wr_generation :: string
  wr_terminal :: "work_terminal option"
  wr_deliveredAt :: "int option"
  wr_clearedAt :: "int option"
  wr_progress :: "work_progress option"

datatype work_classification = WcAlive | WcFault | WcExpired | WcStale

text \<open>The \<open>outcome\<close> and \<open>reason\<close> each arm of the union carries (none for \<open>alive\<close>).\<close>

fun wc_verdict :: "work_classification \<Rightarrow> (work_outcome \<times> work_reason) option" where
  "wc_verdict WcAlive = None"
| "wc_verdict WcFault = Some (OFault, RSandboxReset)"
| "wc_verdict WcExpired = Some (OTimeout, RWatchTimeout)"
| "wc_verdict WcStale = Some (OFault, RNoLiveness)"

datatype current_generation = GenUnknown | GenKnown string | GenAbsent int

section \<open>Classification\<close>

fun isReset :: "work_row \<Rightarrow> current_generation \<Rightarrow> bool" where
  "isReset row GenUnknown = False"
| "isReset row (GenKnown nonce) =
     (if wr_generation row = UNKNOWN_GENERATION then False else nonce \<noteq> wr_generation row)"
| "isReset row (GenAbsent observedAt) = (wr_startedAt row < observedAt)"

definition classifyWork :: "work_row \<Rightarrow> current_generation \<Rightarrow> int \<Rightarrow> work_classification" where
  "classifyWork row currentGeneration now =
     (if wr_terminal row \<noteq> None then WcAlive
      else if isReset row currentGeneration then WcFault
      else if now > wr_deadlineAt row then WcExpired
      else if now - wr_lastAliveAt row > wr_staleAfterMs row then WcStale
      else WcAlive)"

definition nextSweepAt :: "work_row list \<Rightarrow> int option" where
  "nextSweepAt rows =
     foldl (\<lambda>m row. if wr_terminal row \<noteq> None then m
        else let horizon = min (wr_deadlineAt row) (wr_lastAliveAt row + wr_staleAfterMs row)
             in Some (minNullable m horizon)) None rows"

text \<open>UTF-8 bytes of the em dash the reset sentence contains.\<close>

definition em_dash :: string where
  "em_dash = [CHR 0xE2, CHR 0x80, CHR 0x94]"

definition buildFaultMessage ::
    "work_reason \<Rightarrow> work_kind \<Rightarrow> string \<Rightarrow> string \<Rightarrow> int \<Rightarrow> string" where
  "buildFaultMessage reason kind rid label silentMs =
     (let subject = (if kind = KSubagent then ''Subagent '' @ label
                     else ''Background process '' @ label)
      in case reason of
        RSandboxReset \<Rightarrow> subject @ '' ('' @ rid @ '') is gone: the sandbox was reset. Every file it wrote and all of its output are lost, and the filesystem is now empty. Any work that depended on that state must be redone '' @ em_dash @ '' consider a smaller batch or lower concurrency, since a reset is usually the container running out of memory.''
      | RNoLiveness \<Rightarrow> subject @ '' ('' @ rid @ '') showed no liveness signal for '' @ int_string (round_div silentMs 1000) @ ''s and has been torn down. Its output may be incomplete.''
      | RWatchTimeout \<Rightarrow>
          (if kind = KSubagent
           then subject @ '' ('' @ rid @ '') hit its '' @ int_string (round_div SUBAGENT_DEADLINE_MS 60000) @ ''-minute time budget and was stopped before it finished. It did not run to completion, so any result it had not already reported is lost. If you still need this work, re-run it as a narrower task.''
           else subject @ '' ('' @ rid @ '') is still running past the watch timeout; it is no longer being watched.'')
      | RProcessStopped \<Rightarrow> subject @ '' ('' @ rid @ '') was stopped before it finished. It did not run to completion, so its output is partial.''
      | RProcessExit \<Rightarrow> subject @ '' ('' @ rid @ '') exited.'')"

section \<open>Lemmas\<close>

definition wr_open :: "work_row \<Rightarrow> bool" where
  "wr_open row \<longleftrightarrow> wr_terminal row = None"

definition row_horizon :: "work_row \<Rightarrow> int" where
  "row_horizon row = min (wr_deadlineAt row) (wr_lastAliveAt row + wr_staleAfterMs row)"

lemma nextSweepAt_least:
  "nextSweepAt rows = least_time (row_horizon ` {r \<in> set rows. wr_open r})"
proof -
  have "foldl (\<lambda>m row. if wr_terminal row \<noteq> None then m
        else let horizon = min (wr_deadlineAt row) (wr_lastAliveAt row + wr_staleAfterMs row)
             in Some (minNullable m horizon)) m rows =
      foldl (\<lambda>m x. Some (minNullable m (row_horizon x))) m (filter wr_open rows)" for m
    by (induction rows arbitrary: m) (simp_all add: wr_open_def row_horizon_def)
  then show ?thesis
    using foldl_minNullable [of "{}" row_horizon "filter wr_open rows"]
    by (simp add: nextSweepAt_def)
qed

lemma classifyWork_alive_iff:
  "classifyWork row g now = WcAlive \<longleftrightarrow>
     wr_terminal row \<noteq> None \<or> (\<not> isReset row g \<and> now \<le> row_horizon row)"
  by (auto simp: classifyWork_def row_horizon_def)

lemma classifyWork_not_alive_open: "classifyWork row g now \<noteq> WcAlive \<Longrightarrow> wr_open row"
  by (auto simp: classifyWork_def wr_open_def split: if_splits)

lemma wc_verdict_reaper:
  "wc_verdict c = Some (oc, re) \<Longrightarrow> re \<in> set REAPER_WORK_REASONS"
  by (cases c) (auto simp: REAPER_WORK_REASONS_def)

lemma wc_verdict_None [simp]: "wc_verdict c = None \<longleftrightarrow> c = WcAlive"
  by (cases c) auto



end
