(* ===== verification/Compute_State.thy ===== *)
theory Compute_State
  imports Effects Process_Output Work_Ledger
begin

text \<open>
  The rest of \<open>ThreadComputeStore\<close> (\<open>src/compute/thread-store.ts\<close>): the row that says which
  container a thread has, its processes, watchers and auto-watch marks, and the migration from the
  older sandbox tables. A column holding JSON is modelled by the value it holds: every row is written
  by \<open>writeState\<close>, \<open>createProcess\<close> and \<open>updateProcess\<close>, which refuse an invalid reference, so
  reading it back gives that value. A column added by \<open>ALTER TABLE\<close> is \<open>NULL\<close> on older rows, which is
  what a record of such a row holds.
\<close>

section \<open>Rows\<close>

datatype compute_status = Acquiring | Active | Releasing | Recovering | Discarding | Absent | Failed

datatype resource_profile = Small | Medium

text \<open>\<open>ProviderConfig\<close> of \<open>src/compute/types.ts\<close>.\<close>

record environment_source =
  es_kind :: string
  es_value :: string

datatype provider_config =
    DaytonaConfig string "string option" "string option" "(resource_profile \<times> environment_source option) list"
  | CloudflareConfig
  | SpritesConfig string
  | MockConfig

text \<open>The status \<open>recoverable\<close> is \<open>Recovering\<close>, \<open>error\<close> is \<open>Failed\<close>. The allowed hosts are
  \<open>undefined\<close> (\<open>None\<close>), \<open>null\<close> (\<open>Some None\<close>) or a list.\<close>

record compute_state =
  cs_id :: string
  cs_status :: compute_status
  cs_provider :: "string option"
  cs_providerConfig :: "provider_config option"
  cs_acquiredAllowedHosts :: "string list option option"
  cs_runtimeRef :: "backend_reference option"
  cs_recoveryRef :: "backend_reference option"
  cs_resourceProfile :: resource_profile
  cs_createdAt :: int
  cs_lastUsedAt :: int
  cs_releaseAt :: "int option"
  cs_recoveredAt :: "int option"
  cs_recoveryExpiresAt :: "int option"
  cs_errorCode :: "string option"
  cs_errorDetail :: "string option"
  cs_releaseReason :: "string option"
  cs_generation :: "string option"
  cs_generationAbsentAt :: "int option"

record compute_process =
  cp_id :: string
  cp_backendProcessRef :: "backend_reference option"
  cp_command :: string
  cp_cwd :: "string option"
  cp_status :: process_status
  cp_exitCode :: "int option"
  cp_startedAt :: int
  cp_finishedAt :: "int option"
  cp_stdoutBytes :: int
  cp_stderrBytes :: int
  cp_stdoutLines :: int
  cp_stderrLines :: int
  cp_outputTruncated :: bool
  cp_label :: "string option"

record process_row = compute_process +
  pr_sessionId :: "string option"
  pr_commandId :: "string option"

record legacy_state_row =
  ls_id :: string
  ls_provider :: string
  ls_sandboxId :: "string option"
  ls_status :: string
  ls_createdAt :: int
  ls_lastUsedAt :: int
  ls_evictAt :: "int option"
  ls_error :: "string option"
  ls_pendingPackage :: "string option"
  ls_activePackage :: "string option"
  ls_suspendedAt :: "int option"
  ls_suspendExpiresAt :: "int option"
  ls_suspendReason :: "string option"

text \<open>\<open>None\<close> for a table that does not exist.\<close>

record compute_db =
  cd_state :: "compute_state list"
  cd_processes :: "process_row list option"
  cd_chunks :: "output_chunk list"
  cd_watchers :: "watcher_row list"
  cd_autoWatched :: "(string \<times> int) list"
  cd_legacyState :: "legacy_state_row list option"
  cd_version :: "int option"

definition process_rows :: "compute_db \<Rightarrow> process_row list" where
  "process_rows db = (case cd_processes db of None \<Rightarrow> [] | Some t \<Rightarrow> t)"

section \<open>The state row\<close>

text \<open>\<open>backendReferenceSchema\<close>.\<close>

definition valid_reference :: "backend_reference \<Rightarrow> bool" where
  "valid_reference r \<longleftrightarrow> br_provider r \<noteq> [] \<and> br_version r = 1"

definition serializable :: "backend_reference option \<Rightarrow> bool" where
  "serializable ref \<longleftrightarrow> (case ref of None \<Rightarrow> True | Some r \<Rightarrow> valid_reference r)"

definition schema_error :: compute_error where
  "schema_error = OtherError ''ZodError''"

definition latest_state :: "compute_state list \<Rightarrow> compute_state option" where
  "latest_state t = (case sort_key (\<lambda>r. - cs_createdAt r) t of [] \<Rightarrow> None | r # _ \<Rightarrow> Some r)"

definition getComputeState :: "compute_db \<Rightarrow> compute_state option" where
  "getComputeState db = latest_state (cd_state db)"

definition put_state :: "compute_state \<Rightarrow> compute_db \<Rightarrow> compute_db" where
  "put_state s db = db\<lparr>cd_state := sql_upsert cs_id s (\<lambda>_. s) (cd_state db)\<rparr>"

definition writeState :: "compute_state \<Rightarrow> (compute_db, unit) act" where
  "writeState s =
     (if serializable (cs_runtimeRef s) \<and> serializable (cs_recoveryRef s)
      then changing (put_state s) else raise schema_error)"

definition fresh_state :: "int \<Rightarrow> compute_state" where
  "fresh_state now = \<lparr>cs_id = ''thread'', cs_status = Absent, cs_provider = None,
     cs_providerConfig = None, cs_acquiredAllowedHosts = None, cs_runtimeRef = None,
     cs_recoveryRef = None, cs_resourceProfile = Small, cs_createdAt = now, cs_lastUsedAt = now,
     cs_releaseAt = None, cs_recoveredAt = None, cs_recoveryExpiresAt = None, cs_errorCode = None,
     cs_errorDetail = None, cs_releaseReason = None, cs_generation = None,
     cs_generationAbsentAt = None\<rparr>"

definition baseState :: "compute_state option \<Rightarrow> int \<Rightarrow> compute_state" where
  "baseState current now = (case current of Some s \<Rightarrow> s | None \<Rightarrow> fresh_state now)"

text \<open>\<open>a ?? b\<close>.\<close>

definition orElse :: "'a option \<Rightarrow> 'a option \<Rightarrow> 'a option" where
  "orElse a b = (case a of None \<Rightarrow> b | Some x \<Rightarrow> Some x)"

record acquiring_input =
  aq_provider :: string
  aq_providerConfig :: "provider_config option"
  aq_allowedHosts :: "string list option option"
  aq_resourceProfile :: resource_profile
  aq_recoveryRef :: "backend_reference option"

definition acquiring_state :: "acquiring_input \<Rightarrow> int \<Rightarrow> compute_state \<Rightarrow> compute_state" where
  "acquiring_state x now s = s\<lparr>cs_status := Acquiring, cs_provider := Some (aq_provider x),
     cs_providerConfig := orElse (aq_providerConfig x) (cs_providerConfig s),
     cs_acquiredAllowedHosts := aq_allowedHosts x, cs_runtimeRef := None,
     cs_recoveryRef := orElse (aq_recoveryRef x) (cs_recoveryRef s),
     cs_resourceProfile := aq_resourceProfile x, cs_errorCode := None, cs_errorDetail := None,
     cs_generation := None, cs_generationAbsentAt := None\<rparr>"

definition markAcquiring :: "acquiring_input \<Rightarrow> int \<Rightarrow> (compute_db, unit) act" where
  "markAcquiring x now = reading getComputeState (\<lambda>current.
     writeState (acquiring_state x now (baseState current now)))"

definition active_state :: "backend_reference \<Rightarrow> int \<Rightarrow> compute_state \<Rightarrow> compute_state" where
  "active_state r now s = s\<lparr>cs_status := Active, cs_provider := Some (br_provider r),
     cs_runtimeRef := Some r, cs_recoveryRef := None,
     cs_recoveredAt := (if cs_recoveryRef s \<noteq> None then Some now else cs_recoveredAt s),
     cs_recoveryExpiresAt := None, cs_errorCode := None, cs_errorDetail := None\<rparr>"

definition markActive :: "backend_reference \<Rightarrow> int \<Rightarrow> (compute_db, unit) act" where
  "markActive r now = reading getComputeState (\<lambda>current.
     writeState (active_state r now (baseState current now)))"

definition markReleasing :: "int \<Rightarrow> (compute_db, unit) act" where
  "markReleasing now = reading getComputeState (\<lambda>current. case current of
       None \<Rightarrow> ret ()
     | Some s \<Rightarrow> writeState (s\<lparr>cs_status := Releasing, cs_releaseAt := Some now,
         cs_errorCode := None, cs_errorDetail := None\<rparr>))"

definition recoverable_state :: "backend_reference \<Rightarrow> int \<Rightarrow> compute_state \<Rightarrow> compute_state" where
  "recoverable_state r expires s = s\<lparr>cs_status := Recovering, cs_provider := Some (br_provider r),
     cs_runtimeRef := None, cs_recoveryRef := Some r, cs_recoveryExpiresAt := Some expires,
     cs_errorCode := None, cs_errorDetail := None\<rparr>"

definition markRecoverable :: "backend_reference \<Rightarrow> int \<Rightarrow> int \<Rightarrow> (compute_db, unit) act" where
  "markRecoverable r now expires = reading getComputeState (\<lambda>current.
     writeState (recoverable_state r expires (baseState current now)))"

definition markDiscarding :: "int \<Rightarrow> (compute_db, unit) act" where
  "markDiscarding now = reading getComputeState (\<lambda>current. case current of
       None \<Rightarrow> ret ()
     | Some s \<Rightarrow> writeState (s\<lparr>cs_status := Discarding, cs_releaseAt := Some now,
         cs_acquiredAllowedHosts := None, cs_generation := None, cs_generationAbsentAt := None\<rparr>))"

definition absent_state :: "compute_state \<Rightarrow> compute_state" where
  "absent_state s = s\<lparr>cs_status := Absent, cs_provider := None, cs_providerConfig := None,
     cs_acquiredAllowedHosts := None, cs_runtimeRef := None, cs_recoveryRef := None,
     cs_recoveryExpiresAt := None, cs_errorCode := None, cs_errorDetail := None,
     cs_generation := None, cs_generationAbsentAt := None\<rparr>"

definition markAbsent :: "int \<Rightarrow> (compute_db, unit) act" where
  "markAbsent now = reading getComputeState (\<lambda>current.
     writeState (absent_state (baseState current now)))"

definition touchLastUsed :: "int \<Rightarrow> (compute_db, unit) act" where
  "touchLastUsed now = changing (\<lambda>db.
     db\<lparr>cd_state := sql_update (\<lambda>_. True) (\<lambda>r. r\<lparr>cs_lastUsedAt := now\<rparr>) (cd_state db)\<rparr>)"

definition setResourceProfile :: "resource_profile \<Rightarrow> int \<Rightarrow> (compute_db, unit) act" where
  "setResourceProfile profile now = reading getComputeState (\<lambda>current.
     writeState ((baseState current now)\<lparr>cs_resourceProfile := profile\<rparr>))"

definition markError :: "string \<Rightarrow> string \<Rightarrow> int \<Rightarrow> (compute_db, unit) act" where
  "markError code detail now = reading getComputeState (\<lambda>current.
     writeState ((baseState current now)\<lparr>cs_status := Failed, cs_errorCode := Some code,
       cs_errorDetail := Some detail\<rparr>))"

definition generation_state :: "current_generation \<Rightarrow> compute_state \<Rightarrow> compute_state" where
  "generation_state g s = s\<lparr>
     cs_generation := (case g of GenKnown nonce \<Rightarrow> Some nonce | _ \<Rightarrow> None),
     cs_generationAbsentAt := (case g of
         GenAbsent observedAt \<Rightarrow> orElse (cs_generationAbsentAt s) (Some observedAt)
       | GenKnown _ \<Rightarrow> None
       | GenUnknown \<Rightarrow> cs_generationAbsentAt s)\<rparr>"

definition setGeneration :: "current_generation \<Rightarrow> int \<Rightarrow> (compute_db, unit) act" where
  "setGeneration g now = reading getComputeState (\<lambda>current.
     writeState (generation_state g (baseState current now)))"

section \<open>Processes, output, watchers\<close>

definition rowToComputeProcess :: "process_row \<Rightarrow> compute_process" where
  "rowToComputeProcess r = compute_process.truncate r"

definition getProcess :: "string \<Rightarrow> compute_db \<Rightarrow> compute_process option" where
  "getProcess i db = (case cd_processes db of None \<Rightarrow> None
     | Some t \<Rightarrow> map_option rowToComputeProcess (sql_row cp_id i t))"

definition on_processes :: "(process_row list \<Rightarrow> process_row list) \<Rightarrow> compute_db \<Rightarrow> compute_db" where
  "on_processes f db = db\<lparr>cd_processes := map_option f (cd_processes db)\<rparr>"

definition createProcess :: "compute_process \<Rightarrow> (compute_db, unit) act" where
  "createProcess p =
     (if \<not> serializable (cp_backendProcessRef p) then raise schema_error
      else reading (\<lambda>db. cp_id p \<in> cp_id ` set (process_rows db)) (\<lambda>exists.
        if exists then raise (OtherError ''UNIQUE constraint failed: sandbox_processes.id'')
        else changing (on_processes (\<lambda>t. t @
          [compute_process.extend p (process_row.fields None None)]))))"

text \<open>\<open>Partial<ComputeProcessRecord>\<close>: \<open>None\<close> for a key that is absent or undefined.\<close>

record process_patch =
  pp_backendProcessRef :: "backend_reference option option"
  pp_command :: "string option"
  pp_cwd :: "string option option"
  pp_status :: "process_status option"
  pp_exitCode :: "int option option"
  pp_startedAt :: "int option"
  pp_finishedAt :: "int option option"
  pp_stdoutBytes :: "int option"
  pp_stderrBytes :: "int option"
  pp_stdoutLines :: "int option"
  pp_stderrLines :: "int option"
  pp_outputTruncated :: "bool option"
  pp_label :: "string option option"

definition no_patch :: process_patch where
  "no_patch = \<lparr>pp_backendProcessRef = None, pp_command = None, pp_cwd = None, pp_status = None,
     pp_exitCode = None, pp_startedAt = None, pp_finishedAt = None, pp_stdoutBytes = None,
     pp_stderrBytes = None, pp_stdoutLines = None, pp_stderrLines = None, pp_outputTruncated = None,
     pp_label = None\<rparr>"

definition set_if :: "'v option \<Rightarrow> (('v \<Rightarrow> 'v) \<Rightarrow> 'r \<Rightarrow> 'r) \<Rightarrow> 'r \<Rightarrow> 'r" where
  "set_if v upd r = (case v of None \<Rightarrow> r | Some x \<Rightarrow> upd (\<lambda>_. x) r)"

definition apply_patch :: "process_patch \<Rightarrow> process_row \<Rightarrow> process_row" where
  "apply_patch p r =
     set_if (pp_label p) cp_label_update
     (set_if (pp_outputTruncated p) cp_outputTruncated_update
     (set_if (pp_stderrLines p) cp_stderrLines_update
     (set_if (pp_stdoutLines p) cp_stdoutLines_update
     (set_if (pp_stderrBytes p) cp_stderrBytes_update
     (set_if (pp_stdoutBytes p) cp_stdoutBytes_update
     (set_if (pp_finishedAt p) cp_finishedAt_update
     (set_if (pp_startedAt p) cp_startedAt_update
     (set_if (pp_exitCode p) cp_exitCode_update
     (set_if (pp_status p) cp_status_update
     (set_if (pp_cwd p) cp_cwd_update
     (set_if (pp_command p) cp_command_update
     (set_if (pp_backendProcessRef p) cp_backendProcessRef_update r))))))))))))"

definition updateProcess :: "string \<Rightarrow> process_patch \<Rightarrow> (compute_db, unit) act" where
  "updateProcess i p =
     (if (case pp_backendProcessRef p of None \<Rightarrow> False | Some ref \<Rightarrow> \<not> serializable ref)
      then raise schema_error
      else changing (on_processes (sql_update (\<lambda>r. cp_id r = i) (apply_patch p))))"

definition listProcesses :: "nat \<Rightarrow> compute_db \<Rightarrow> compute_process list" where
  "listProcesses limit db =
     map rowToComputeProcess (take limit (sort_key (\<lambda>r. - cp_startedAt r) (process_rows db)))"

text \<open>\<open>appendOutput\<close> on the chunks and the \<open>output_truncated\<close> column.\<close>

definition output_view :: "compute_db \<Rightarrow> output_store" where
  "output_view db = \<lparr>os_chunks = cd_chunks db,
     os_truncated = map cp_id (filter cp_outputTruncated (process_rows db))\<rparr>"

definition db_appendOutput ::
    "output_limits \<Rightarrow> string \<Rightarrow> out_stream \<Rightarrow> string \<Rightarrow> int \<Rightarrow> compute_db \<Rightarrow> compute_db" where
  "db_appendOutput limits i stream t now db =
     (let o' = appendOutput limits i stream t now (output_view db)
      in on_processes (sql_update (\<lambda>r. cp_id r = i \<and> i \<in> set (os_truncated o'))
           (\<lambda>r. r\<lparr>cp_outputTruncated := True\<rparr>)) (db\<lparr>cd_chunks := os_chunks o'\<rparr>))"

definition upsertWatcher :: "watcher_row \<Rightarrow> compute_db \<Rightarrow> compute_db" where
  "upsertWatcher w db =
     db\<lparr>cd_watchers := sql_upsert w_processId w (\<lambda>_. w) (cd_watchers db)\<rparr>"

definition deleteWatcher :: "string \<Rightarrow> compute_db \<Rightarrow> compute_db" where
  "deleteWatcher i db = db\<lparr>cd_watchers := sql_delete (\<lambda>w. w_processId w = i) (cd_watchers db)\<rparr>"

definition listWatchers :: "compute_db \<Rightarrow> watcher_row list" where
  "listWatchers db = cd_watchers db"

definition countWatchers :: "compute_db \<Rightarrow> nat" where
  "countWatchers db = length (cd_watchers db)"

definition markProcessAutoWatched :: "string \<Rightarrow> int \<Rightarrow> compute_db \<Rightarrow> compute_db" where
  "markProcessAutoWatched i now db =
     db\<lparr>cd_autoWatched := sql_upsert fst (i, now) (\<lambda>r. r) (cd_autoWatched db)\<rparr>"

definition wasProcessAutoWatched :: "string \<Rightarrow> compute_db \<Rightarrow> bool" where
  "wasProcessAutoWatched i db \<longleftrightarrow> sql_select (\<lambda>r. fst r = i) (cd_autoWatched db) \<noteq> []"

section \<open>Migration\<close>

definition THREAD_COMPUTE_STORE_SCHEMA_VERSION :: int where
  "THREAD_COMPUTE_STORE_SCHEMA_VERSION = 2"

definition legacyStateStatus :: "string \<Rightarrow> compute_status" where
  "legacyStateStatus status =
     (if status = ''creating'' then Acquiring
      else if status = ''ready'' then Active
      else if status = ''suspended'' then Recovering
      else if status = ''evicted'' \<or> status = ''deleted'' then Absent
      else if status = ''error'' then Failed
      else Absent)"

definition validateComputeResourceProfile :: "string \<Rightarrow> compute_error + resource_profile" where
  "validateComputeResourceProfile v =
     (if v = ''small'' then Inr Small else if v = ''medium'' then Inr Medium
      else Inl (OtherError ''invalid_compute_resource_profile''))"

definition legacyResourceProfile :: "legacy_state_row \<Rightarrow> compute_error + resource_profile" where
  "legacyResourceProfile row =
     (case orElse (ls_activePackage row) (ls_pendingPackage row) of
        None \<Rightarrow> Inr Small
      | Some v \<Rightarrow> if v = [] then Inr Small else validateComputeResourceProfile v)"

definition legacyReference :: "string \<Rightarrow> legacy_state_row \<Rightarrow> string \<Rightarrow> backend_reference" where
  "legacyReference kind row i = \<lparr>br_provider = ls_provider row, br_version = 1,
     br_payload = [(''kind'', kind), (''sandboxId'', i)]\<rparr>"

definition legacyRuntimeReference :: "legacy_state_row \<Rightarrow> backend_reference option" where
  "legacyRuntimeReference row =
     (if ls_status row \<noteq> ''ready'' then None
      else map_option (legacyReference ''runtime'' row) (ls_sandboxId row))"

definition legacyRecoveryReference :: "legacy_state_row \<Rightarrow> backend_reference option" where
  "legacyRecoveryReference row =
     (if ls_status row \<noteq> ''suspended'' then None
      else map_option (legacyReference ''recovery'' row) (ls_sandboxId row))"

definition legacyProcessReference :: "process_row \<Rightarrow> string option \<Rightarrow> backend_reference option" where
  "legacyProcessReference row sandboxId =
     (case (sandboxId, pr_sessionId row, pr_commandId row) of
        (Some i, Some session, Some command) \<Rightarrow>
          Some \<lparr>br_provider = ''daytona'', br_version = 1,
            br_payload = [(''kind'', ''process''), (''sandboxId'', i), (''sessionId'', session),
              (''commandId'', command)]\<rparr>
      | _ \<Rightarrow> None)"

definition legacy_state :: "legacy_state_row \<Rightarrow> resource_profile \<Rightarrow> compute_state" where
  "legacy_state row profile =
     (let status = legacyStateStatus (ls_status row)
      in \<lparr>cs_id = ls_id row, cs_status = status, cs_provider = Some (ls_provider row),
          cs_providerConfig = None, cs_acquiredAllowedHosts = None,
          cs_runtimeRef = (if status = Active then legacyRuntimeReference row else None),
          cs_recoveryRef = (if status = Recovering then legacyRecoveryReference row else None),
          cs_resourceProfile = profile, cs_createdAt = ls_createdAt row,
          cs_lastUsedAt = ls_lastUsedAt row, cs_releaseAt = ls_evictAt row,
          cs_recoveredAt = ls_suspendedAt row, cs_recoveryExpiresAt = ls_suspendExpiresAt row,
          cs_errorCode = (if ls_error row = None then None else Some ''legacy_error''),
          cs_errorDetail = ls_error row, cs_releaseReason = ls_suspendReason row,
          cs_generation = None, cs_generationAbsentAt = None\<rparr>)"

definition backfillLegacyState :: "legacy_state_row list \<Rightarrow> (compute_db, unit) act" where
  "backfillLegacyState rows = forEach (\<lambda>row.
     case legacyResourceProfile row of
       Inl e \<Rightarrow> raise e
     | Inr profile \<Rightarrow> writeState (legacy_state row profile)) rows"

definition legacySandboxId :: "compute_db \<Rightarrow> string option" where
  "legacySandboxId db =
     (case cd_legacyState db of None \<Rightarrow> None
      | Some t \<Rightarrow> (case sort_key (\<lambda>r. - ls_createdAt r) t of
          [] \<Rightarrow> None | r # _ \<Rightarrow> ls_sandboxId r))"

definition backfillLegacyProcesses :: "(compute_db, unit) act" where
  "backfillLegacyProcesses = reading legacySandboxId (\<lambda>sandboxId.
     changing (on_processes (map (\<lambda>row.
       row\<lparr>cp_backendProcessRef := legacyProcessReference row sandboxId\<rparr>))))"

text \<open>One transaction: an error leaves the database as it was.\<close>

definition transaction :: "('s, 'a) act \<Rightarrow> ('s, 'a) act" where
  "transaction m s = (case m s of (t, Inl e) \<Rightarrow> (s, Inl e) | (t, Inr a) \<Rightarrow> (t, Inr a))"

lemma wp_transaction [wp_simps]:
  "wp (transaction m) Q E = (\<lambda>s. wp m Q (\<lambda>e _. E e s) s)"
  by (simp add: fun_eq_iff wp_def transaction_def split: prod.split sum.split)

definition migrateStore :: "(compute_db, unit) act" where
  "migrateStore = transaction (reading (\<lambda>db. cd_processes db \<noteq> None) (\<lambda>hasLegacyProcesses.
     andThen (changing (\<lambda>db. db\<lparr>cd_processes := Some (process_rows db)\<rparr>)) (\<lambda>_.
     reading cd_version (\<lambda>version.
       if version = Some THREAD_COMPUTE_STORE_SCHEMA_VERSION then ret ()
       else andThen (reading cd_legacyState (\<lambda>rows.
              case rows of None \<Rightarrow> ret () | Some t \<Rightarrow> backfillLegacyState t)) (\<lambda>_.
            andThen (if hasLegacyProcesses then backfillLegacyProcesses else ret ()) (\<lambda>_.
            changing (\<lambda>db. db\<lparr>cd_version := Some THREAD_COMPUTE_STORE_SCHEMA_VERSION\<rparr>)))))))"

section \<open>The row is one row\<close>

lemma sort_key_map_same:
  assumes "\<And>x. f (g x) = f x"
  shows "sort_key f (map g xs) = map g (sort_key f xs)"
proof (induction xs)
  case (Cons x xs)
  have "insort_key f (g x) (map g ys) = map g (insort_key f x ys)" for ys
    by (induction ys) (simp_all add: assms)
  with Cons show ?case by simp
qed simp

lemma latest_state_map:
  assumes "\<And>x. cs_createdAt (g x) = cs_createdAt x"
  shows "latest_state (map g t) = map_option g (latest_state t)"
proof -
  have "sort_key (\<lambda>r. - cs_createdAt r) (map g t) = map g (sort_key (\<lambda>r. - cs_createdAt r) t)"
    by (rule sort_key_map_same) (simp add: assms)
  then show ?thesis by (simp add: latest_state_def split: list.split)
qed

lemma latest_state_in: "latest_state t = Some s \<Longrightarrow> s \<in> set t"
  unfolding latest_state_def
  by (metis list.case(1) list.exhaust list.simps(5) list.set_intros(1) option.distinct(1)
      option.inject set_sort)

lemma latest_state_None [simp]: "latest_state t = None \<longleftrightarrow> t = []"
  unfolding latest_state_def
  by (metis list.case(1) list.exhaust list.simps(5) option.distinct(1) set_empty set_sort)

text \<open>Writing a state that came from the current one replaces the current one.\<close>

lemma get_put_state:
  assumes "sql_keyed cs_id (cd_state db)"
    and "cs_id s = cs_id (baseState (getComputeState db) now)"
    and "cs_createdAt s = cs_createdAt (baseState (getComputeState db) now)"
  shows "getComputeState (put_state s db) = Some s"
proof (cases "getComputeState db")
  case None
  then have "cd_state db = []" by (simp add: getComputeState_def)
  then show ?thesis by (simp add: getComputeState_def put_state_def sql_upsert_def latest_state_def)
next
  case (Some c)
  then have c: "c \<in> set (cd_state db)" by (simp add: getComputeState_def latest_state_in)
  have eq: "cs_id s = cs_id c" "cs_createdAt s = cs_createdAt c"
    using assms(2,3) Some by (simp_all add: baseState_def)
  have unique: "x = c" if "x \<in> set (cd_state db)" "cs_id x = cs_id c" for x
    using that c inj_onD [of cs_id "set (cd_state db)" x c] assms(1)
    by (simp add: sql_keyed_def distinct_map)
  define g where "g x = (if cs_id x = cs_id s \<and> cs_createdAt x = cs_createdAt s then s else x)" for x
  have "(if cs_id x = cs_id s then s else x) = g x" if "x \<in> set (cd_state db)" for x
  proof (cases "cs_id x = cs_id s")
    case True
    with eq have "cs_id x = cs_id c" by metis
    then have "x = c" by (rule unique [OF that])
    with eq show ?thesis by (simp add: g_def)
  qed (simp add: g_def)
  then have "sql_update (\<lambda>x. cs_id x = cs_id s) (\<lambda>_. s) (cd_state db) = map g (cd_state db)"
    unfolding sql_update_def by (rule map_cong [OF refl])
  moreover have "\<exists>x \<in> set (cd_state db). cs_id x = cs_id s" using c eq by metis
  ultimately have "sql_upsert cs_id s (\<lambda>_. s) (cd_state db) = map g (cd_state db)"
    by (simp add: sql_upsert_def)
  moreover have "latest_state (map g (cd_state db)) = map_option g (Some c)"
    using Some by (subst latest_state_map) (auto simp: g_def getComputeState_def)
  ultimately show ?thesis by (simp add: getComputeState_def put_state_def g_def eq)
qed

lemma put_state_keyed: "sql_keyed cs_id (cd_state db) \<Longrightarrow> sql_keyed cs_id (cd_state (put_state s db))"
  by (simp add: put_state_def sql_keyed_upsert)

lemma put_state_in: "r \<in> set (cd_state (put_state s db)) \<Longrightarrow> r = s \<or> r \<in> set (cd_state db)"
  by (auto simp: put_state_def sql_upsert_def sql_update_def split: if_splits)

end
