(* ===== verification/Store_Machine.thy ===== *)
theory Store_Machine
  imports Compute_State
begin

text \<open>
  The state row of the thread compute store as a machine: the operations the compute service calls
  on it (\<open>StoreLifecycle\<close> of \<open>src/compute/thread-service.ts\<close>), the shapes a row can take, and what
  the two generation columns mean together (\<open>getGenerationView\<close>).
\<close>

section \<open>Operations\<close>

datatype store_op =
    OpAcquiring acquiring_input int
  | OpActive backend_reference int
  | OpReleasing int
  | OpRecoverable backend_reference int int
  | OpDiscarding int
  | OpAbsent int
  | OpTouch int
  | OpProfile resource_profile int
  | OpError string string int
  | OpGeneration current_generation int

fun store_exec :: "store_op \<Rightarrow> (compute_db, unit) act" where
  "store_exec (OpAcquiring x now) = markAcquiring x now"
| "store_exec (OpActive r now) = markActive r now"
| "store_exec (OpReleasing now) = markReleasing now"
| "store_exec (OpRecoverable r now expires) = markRecoverable r now expires"
| "store_exec (OpDiscarding now) = markDiscarding now"
| "store_exec (OpAbsent now) = markAbsent now"
| "store_exec (OpTouch now) = touchLastUsed now"
| "store_exec (OpProfile p now) = setResourceProfile p now"
| "store_exec (OpError code detail now) = markError code detail now"
| "store_exec (OpGeneration g now) = setGeneration g now"

text \<open>Whatever throws, the next operation runs: the operations that took effect, and the result.\<close>

fun store_run :: "store_op list \<Rightarrow> compute_db \<Rightarrow> store_op list \<times> compute_db" where
  "store_run [] db = ([], db)"
| "store_run (x # xs) db =
     (let (db1, r) = store_exec x db; (took, db2) = store_run xs db1
      in ((if isl r then took else x # took), db2))"

lemmas store_op_defs = markAcquiring_def markActive_def markReleasing_def markRecoverable_def
  markDiscarding_def markAbsent_def touchLastUsed_def setResourceProfile_def markError_def
  setGeneration_def

text \<open>Every operation either touches the time of last use or writes one state made from the current one.\<close>

fun op_update :: "store_op \<Rightarrow> compute_state \<Rightarrow> compute_state" where
  "op_update (OpAcquiring x now) s = acquiring_state x now s"
| "op_update (OpActive r now) s = active_state r now s"
| "op_update (OpReleasing now) s = s\<lparr>cs_status := Releasing, cs_releaseAt := Some now,
     cs_errorCode := None, cs_errorDetail := None\<rparr>"
| "op_update (OpRecoverable r now expires) s = recoverable_state r expires s"
| "op_update (OpDiscarding now) s = s\<lparr>cs_status := Discarding, cs_releaseAt := Some now,
     cs_acquiredAllowedHosts := None, cs_generation := None, cs_generationAbsentAt := None\<rparr>"
| "op_update (OpAbsent now) s = absent_state s"
| "op_update (OpTouch now) s = s\<lparr>cs_lastUsedAt := now\<rparr>"
| "op_update (OpProfile p now) s = s\<lparr>cs_resourceProfile := p\<rparr>"
| "op_update (OpError code detail now) s = s\<lparr>cs_status := Failed, cs_errorCode := Some code,
     cs_errorDetail := Some detail\<rparr>"
| "op_update (OpGeneration g now) s = generation_state g s"

fun needs_row :: "store_op \<Rightarrow> bool" where
  "needs_row (OpReleasing now) = True"
| "needs_row (OpDiscarding now) = True"
| "needs_row (OpTouch now) = True"
| "needs_row _ = False"

fun op_time :: "store_op \<Rightarrow> int" where
  "op_time (OpAcquiring x now) = now"
| "op_time (OpActive r now) = now"
| "op_time (OpReleasing now) = now"
| "op_time (OpRecoverable r now expires) = now"
| "op_time (OpDiscarding now) = now"
| "op_time (OpAbsent now) = now"
| "op_time (OpTouch now) = now"
| "op_time (OpProfile p now) = now"
| "op_time (OpError code detail now) = now"
| "op_time (OpGeneration g now) = now"

definition next_state :: "store_op \<Rightarrow> compute_state option \<Rightarrow> compute_state option" where
  "next_state x c = (if needs_row x then map_option (op_update x) c
                     else Some (op_update x (baseState c (op_time x))))"

lemmas state_defs = acquiring_state_def active_state_def recoverable_state_def absent_state_def
  generation_state_def

lemma next_state_update:
  "next_state x c = Some s \<Longrightarrow> s = op_update x (baseState c (op_time x))"
  by (cases c) (auto simp: next_state_def baseState_def split: if_splits)

lemma op_update_key [simp]:
  "cs_id (op_update x s) = cs_id s" "cs_createdAt (op_update x s) = cs_createdAt s"
  by (cases x; simp add: state_defs)+

lemma next_state_key:
  "next_state x c = Some s \<Longrightarrow>
     cs_id s = cs_id (baseState c (op_time x)) \<and> cs_createdAt s = cs_createdAt (baseState c (op_time x))"
  by (auto dest: next_state_update)

lemma touch_eq: "touchLastUsed now db =
    (db\<lparr>cd_state := map (cs_lastUsedAt_update (\<lambda>_. now)) (cd_state db)\<rparr>, Inr ())"
  by (simp add: touchLastUsed_def changing_def sql_update_def)

lemma store_exec_cases:
  "(\<exists>now. x = OpTouch now) \<or>
   (next_state x (getComputeState db) = None \<and> getComputeState db = None \<and> store_exec x db = (db, Inr ())) \<or>
   (\<exists>s. next_state x (getComputeState db) = Some s \<and> store_exec x db = writeState s db)"
  by (cases x; cases "getComputeState db")
     (simp_all add: store_op_defs reading_def ret_def next_state_def baseState_def)

lemma writeState_cases:
  "writeState s db = (db, Inl schema_error) \<or>
   writeState s db = (put_state s db, Inr ()) \<and> serializable (cs_runtimeRef s) \<and>
     serializable (cs_recoveryRef s)"
  by (simp add: writeState_def raise_def changing_def)

text \<open>One operation on the current state: it throws and changes nothing, or installs \<open>next_state\<close>.\<close>

lemma store_exec_get:
  assumes "sql_keyed cs_id (cd_state db)"
  shows "store_exec x db = (db, Inl schema_error) \<or>
     snd (store_exec x db) = Inr () \<and>
     getComputeState (fst (store_exec x db)) = next_state x (getComputeState db)"
  using store_exec_cases [of x db]
proof (elim disjE exE conjE)
  fix now assume "x = OpTouch now"
  then show ?thesis
    by (simp add: touch_eq getComputeState_def latest_state_map next_state_def)
       (metis op_update.simps(7) map_option_cong)
next
  assume "next_state x (getComputeState db) = None" "getComputeState db = None"
    "store_exec x db = (db, Inr ())"
  then show ?thesis by simp
next
  fix s assume s: "next_state x (getComputeState db) = Some s" and eq: "store_exec x db = writeState s db"
  then show ?thesis
    using writeState_cases [of s db] get_put_state [OF assms] next_state_key [OF s] by auto
qed

lemma store_exec_keyed:
  assumes "sql_keyed cs_id (cd_state db)"
  shows "sql_keyed cs_id (cd_state (fst (store_exec x db)))"
  using store_exec_cases [of x db]
proof (elim disjE exE conjE)
  fix now assume "x = OpTouch now"
  then show ?thesis using assms by (simp add: touch_eq sql_keyed_def comp_def)
next
  assume "store_exec x db = (db, Inr ())"
  then show ?thesis using assms by simp
next
  fix s assume "store_exec x db = writeState s db"
  then show ?thesis
    using assms writeState_cases [of s db] put_state_keyed by auto
qed

section \<open>The shapes of a row\<close>

text \<open>Which references a status carries, and that at most one generation column is set.\<close>

definition state_ok :: "compute_state \<Rightarrow> bool" where
  "state_ok s \<longleftrightarrow>
     serializable (cs_runtimeRef s) \<and> serializable (cs_recoveryRef s) \<and>
     (cs_generation s = None \<or> cs_generationAbsentAt s = None) \<and>
     (cs_status s = Active \<longrightarrow> cs_recoveryRef s = None) \<and>
     (cs_status s = Recovering \<or> cs_status s = Acquiring \<longrightarrow> cs_runtimeRef s = None) \<and>
     (cs_status s = Absent \<longrightarrow> cs_runtimeRef s = None \<and> cs_recoveryRef s = None)"

definition store_ok :: "compute_db \<Rightarrow> bool" where
  "store_ok db \<longleftrightarrow> sql_keyed cs_id (cd_state db) \<and> (\<forall>s \<in> set (cd_state db). state_ok s)"

lemma state_ok_base: "(\<And>s. c = Some s \<Longrightarrow> state_ok s) \<Longrightarrow> state_ok (baseState c now)"
  by (cases c) (simp_all add: baseState_def state_ok_def fresh_state_def serializable_def)

lemma state_ok_update:
  assumes "state_ok s" and "serializable (cs_runtimeRef (op_update x s))"
    and "serializable (cs_recoveryRef (op_update x s))"
  shows "state_ok (op_update x s)"
proof (cases x)
  case (OpGeneration g now)
  with assms show ?thesis by (cases g) (simp_all add: state_ok_def generation_state_def)
qed (use assms in \<open>simp_all add: state_ok_def state_defs\<close>)

lemma store_ok_current: "store_ok db \<Longrightarrow> getComputeState db = Some s \<Longrightarrow> state_ok s"
  by (auto simp: store_ok_def getComputeState_def dest: latest_state_in)

lemma store_ok_put: "store_ok db \<Longrightarrow> state_ok s \<Longrightarrow> store_ok (put_state s db)"
  by (auto simp: store_ok_def put_state_keyed dest: put_state_in)

lemma store_ok_exec:
  assumes "store_ok db"
  shows "store_ok (fst (store_exec x db))"
  using store_exec_cases [of x db]
proof (elim disjE exE conjE)
  fix now assume "x = OpTouch now"
  then show ?thesis
    using assms by (auto simp: touch_eq store_ok_def sql_keyed_def comp_def state_ok_def)
next
  assume "store_exec x db = (db, Inr ())"
  then show ?thesis using assms by simp
next
  fix s assume s: "next_state x (getComputeState db) = Some s" and eq: "store_exec x db = writeState s db"
  from writeState_cases [of s db] show ?thesis
  proof (elim disjE conjE)
    assume "writeState s db = (db, Inl schema_error)"
    then show ?thesis using assms by (simp add: eq)
  next
    assume w: "writeState s db = (put_state s db, Inr ())"
      and "serializable (cs_runtimeRef s)" "serializable (cs_recoveryRef s)"
    then have "state_ok s"
      using state_ok_update [OF state_ok_base, OF store_ok_current [OF assms]] next_state_update [OF s]
      by simp
    then show ?thesis using store_ok_put [OF assms] by (simp add: eq w)
  qed
qed

lemma store_ok_run: "store_ok db \<Longrightarrow> store_ok (snd (store_run ops db))"
proof (induction ops arbitrary: db)
  case (Cons x xs)
  have "store_ok (fst (store_exec x db))" using Cons.prems by (rule store_ok_exec)
  then show ?case using Cons.IH [of "fst (store_exec x db)"] by (auto split: prod.splits)
qed simp

lemma legacy_state_ok:
  "serializable (cs_runtimeRef (legacy_state row p)) \<Longrightarrow>
   serializable (cs_recoveryRef (legacy_state row p)) \<Longrightarrow> state_ok (legacy_state row p)"
  by (simp add: state_ok_def legacy_state_def Let_def)

lemma store_ok_write_legacy:
  "store_ok db \<Longrightarrow> wp (writeState (legacy_state row p)) (\<lambda>_. store_ok) (\<lambda>_. store_ok) db"
  using writeState_cases [of "legacy_state row p" db]
  by (auto simp: wp_def store_ok_put legacy_state_ok)

lemma store_ok_state: "cd_state db' = cd_state db \<Longrightarrow> store_ok db' = store_ok db"
  by (simp add: store_ok_def)

lemma store_ok_backfill:
  "store_ok db \<Longrightarrow> wp (backfillLegacyState rows) (\<lambda>_. store_ok) (\<lambda>_. store_ok) db"
  unfolding backfillLegacyState_def
  by (rule wp_forEach) (auto simp: wp_simps store_ok_write_legacy split: sum.split)

lemma store_ok_migrate:
  assumes "store_ok db"
  shows "wp migrateStore (\<lambda>_. store_ok) (\<lambda>_. store_ok) db"
proof -
  define db1 where "db1 = db\<lparr>cd_processes := Some (process_rows db)\<rparr>"
  have ok1: "store_ok db1" using assms by (simp add: db1_def store_ok_def)
  have tail: "wp (andThen (if old then backfillLegacyProcesses else ret ())
        (\<lambda>_. changing (\<lambda>db. db\<lparr>cd_version := Some THREAD_COMPUTE_STORE_SCHEMA_VERSION\<rparr>)))
      (\<lambda>_. store_ok) (\<lambda>_ _. store_ok db) t" if "store_ok t" for old t
    using that
    by (simp add: wp_simps backfillLegacyProcesses_def on_processes_def store_ok_def)
  have rows: "wp (case rows of None \<Rightarrow> ret () | Some t \<Rightarrow> backfillLegacyState t)
      (\<lambda>_. store_ok) (\<lambda>_ _. store_ok db) db1" for rows
  proof (cases rows)
    case (Some t)
    show ?thesis unfolding Some option.case
      by (rule wp_conseq [OF store_ok_backfill [OF ok1]]) (use assms in auto)
  qed (simp add: wp_simps ok1)
  have both: "wp (andThen (reading cd_legacyState (\<lambda>rows.
        case rows of None \<Rightarrow> ret () | Some t \<Rightarrow> backfillLegacyState t)) (\<lambda>_.
        andThen (if old then backfillLegacyProcesses else ret ())
        (\<lambda>_. changing (\<lambda>db. db\<lparr>cd_version := Some THREAD_COMPUTE_STORE_SCHEMA_VERSION\<rparr>))))
      (\<lambda>_. store_ok) (\<lambda>_ _. store_ok db) db1" for old
    unfolding wp_andThen wp_reading
    by (rule wp_conseq [OF rows]) (use tail [unfolded wp_andThen] in auto)
  show ?thesis
    unfolding migrateStore_def wp_transaction wp_reading
    using both ok1 assms by (simp add: wp_andThen wp_changing wp_reading wp_ret flip: db1_def)
qed

section \<open>The generation on record\<close>

definition view_of :: "compute_state \<Rightarrow> current_generation" where
  "view_of s = (case cs_generation s of Some nonce \<Rightarrow> GenKnown nonce
     | None \<Rightarrow> (case cs_generationAbsentAt s of Some t \<Rightarrow> GenAbsent t | None \<Rightarrow> GenUnknown))"

definition getGenerationView :: "compute_db \<Rightarrow> current_generation" where
  "getGenerationView db = (case getComputeState db of None \<Rightarrow> GenUnknown | Some s \<Rightarrow> view_of s)"

definition getGeneration :: "compute_db \<Rightarrow> string option" where
  "getGeneration db = (case getComputeState db of None \<Rightarrow> None | Some s \<Rightarrow> cs_generation s)"

text \<open>
  The abstract value the two columns stand for: an absence is positive evidence, so only a known
  nonce or a new container overrides it, and the first one seen is the one that counts.
\<close>

fun observe :: "current_generation \<Rightarrow> current_generation \<Rightarrow> current_generation" where
  "observe (GenKnown nonce) v = GenKnown nonce"
| "observe (GenAbsent t) v = (case v of GenAbsent u \<Rightarrow> GenAbsent u | _ \<Rightarrow> GenAbsent t)"
| "observe GenUnknown v = (case v of GenAbsent u \<Rightarrow> GenAbsent u | _ \<Rightarrow> GenUnknown)"

fun view_step :: "store_op \<Rightarrow> current_generation \<Rightarrow> current_generation" where
  "view_step (OpAcquiring x now) v = GenUnknown"
| "view_step (OpDiscarding now) v = GenUnknown"
| "view_step (OpAbsent now) v = GenUnknown"
| "view_step (OpGeneration g now) v = observe g v"
| "view_step _ v = v"

lemma view_of_update: "state_ok s \<Longrightarrow> view_of (op_update x s) = view_step x (view_of s)"
proof (cases x)
  case (OpGeneration g now)
  assume "state_ok s"
  with OpGeneration show ?thesis
    by (cases g) (auto simp: view_of_def generation_state_def state_ok_def orElse_def split: option.splits)
qed (simp_all add: view_of_def state_defs split: option.splits)

lemma view_of_fresh [simp]: "view_of (fresh_state now) = GenUnknown"
  by (simp add: view_of_def fresh_state_def)

lemma view_next:
  assumes "store_ok db" and "getComputeState db' = next_state x (getComputeState db)"
  shows "getGenerationView db' = view_step x (getGenerationView db)"
proof (cases "getComputeState db")
  case None
  have "state_ok (fresh_state now)" for now
    using state_ok_base [of None now] by (simp add: baseState_def)
  then show ?thesis
    using assms(2) None
    by (cases x) (simp_all add: getGenerationView_def next_state_def baseState_def view_of_update
        flip: op_update.simps)
next
  case (Some s)
  with store_ok_current [OF assms(1)] have "state_ok s" by blast
  with Some assms(2) show ?thesis
    by (simp add: getGenerationView_def next_state_def baseState_def view_of_update)
qed

lemma store_run_induct_step:
  assumes "store_ok db"
  obtains (throws) "store_exec x db = (db, Inl schema_error)"
  | (effect) db1 where "store_exec x db = (db1, Inr ())" and "store_ok db1"
    and "getGenerationView db1 = view_step x (getGenerationView db)"
  using store_exec_get [of db x] store_ok_exec [OF assms, of x] view_next [OF assms, of _ x] assms
  by (cases "store_exec x db") (auto simp: store_ok_def)

lemma view_run:
  assumes "store_ok db" and "store_run ops db = (took, db')"
  shows "getGenerationView db' = fold view_step took (getGenerationView db)"
  using assms
proof (induction ops arbitrary: db took)
  case (Cons x xs)
  obtain took1 db2 where rest: "store_run xs (fst (store_exec x db)) = (took1, db2)" by fastforce
  show ?case
  proof (rule store_run_induct_step [OF Cons.prems(1), of x])
    assume "store_exec x db = (db, Inl schema_error)"
    with Cons.prems(2) rest Cons.IH [OF Cons.prems(1), of took1] show ?thesis by simp
  next
    fix db1
    assume "store_exec x db = (db1, Inr ())" and ok: "store_ok db1"
      and v: "getGenerationView db1 = view_step x (getGenerationView db)"
    with Cons.prems(2) rest Cons.IH [OF ok, of took1] show ?thesis by (auto simp: v)
  qed
qed simp

section \<open>No reset without evidence\<close>

lemma isReset_step:
  "isReset row (view_step x v) \<Longrightarrow> isReset row v \<or> (\<exists>g now. x = OpGeneration g now \<and> isReset row g)"
proof (cases x)
  case (OpGeneration g now)
  assume "isReset row (view_step x v)"
  with OpGeneration show ?thesis by (cases g; cases v) auto
qed auto

lemma isReset_fold:
  "isReset row (fold view_step ops v) \<Longrightarrow>
     isReset row v \<or> (\<exists>g now. OpGeneration g now \<in> set ops \<and> isReset row g)"
proof (induction ops arbitrary: v)
  case (Cons x xs)
  then show ?case using isReset_step [of row x v] by fastforce
qed simp

section \<open>A store from scratch\<close>

definition empty_store :: compute_db where
  "empty_store = \<lparr>cd_state = [], cd_processes = None, cd_chunks = [], cd_watchers = [],
     cd_autoWatched = [], cd_legacyState = None, cd_version = None\<rparr>"

lemma store_ok_empty: "store_ok empty_store"
  by (simp add: store_ok_def empty_store_def)

definition demo_acquire :: acquiring_input where
  "demo_acquire = \<lparr>aq_provider = ''fake'', aq_providerConfig = Some MockConfig,
     aq_allowedHosts = Some None, aq_resourceProfile = Small, aq_recoveryRef = None\<rparr>"

definition demo_runtime :: backend_reference where
  "demo_runtime = \<lparr>br_provider = ''fake'', br_version = 1,
     br_payload = [(''kind'', ''runtime''), (''runtimeId'', ''r1'')]\<rparr>"

definition demo_bad_ref :: backend_reference where
  "demo_bad_ref = \<lparr>br_provider = [], br_version = 1, br_payload = []\<rparr>"

definition demo_start :: "store_op list" where
  "demo_start = [OpAcquiring demo_acquire 10, OpActive demo_bad_ref 11, OpActive demo_runtime 12,
     OpGeneration (GenKnown ''n1'') 13]"

definition demo_probes :: "store_op list" where
  "demo_probes = [OpTouch 40, OpGeneration (GenAbsent 50) 50, OpGeneration GenUnknown 60,
     OpGeneration (GenAbsent 90) 90]"

definition demo_store :: compute_db where
  "demo_store = snd (store_run demo_start empty_store)"

lemma demo_store_ok: "store_ok demo_store"
  unfolding demo_store_def by (rule store_ok_run [OF store_ok_empty])

definition demo_row :: work_row where
  "demo_row = \<lparr>wr_id = ''p1'', wr_kind = KProcess, wr_startedAt = 20, wr_lastAliveAt = 20,
     wr_staleAfterMs = 180000, wr_deadlineAt = 3600020, wr_generation = ''n1'', wr_terminal = None,
     wr_deliveredAt = None, wr_clearedAt = None, wr_progress = None\<rparr>"

lemma demo_probes_run: "fst (store_run demo_probes demo_store) = demo_probes"
  by code_simp

text \<open>C16: The two generation columns implement one value: whatever sequence of lifecycle writes and
  probe results a thread's store goes through, and whichever of the writes throw, the generation the
  reaper reads is the abstract value obtained from the writes that took effect.
\<close>

theorem generation_view_refines:
  assumes "store_ok db" and "store_run ops db = (took, db')"
  shows "getGenerationView db' = fold view_step took (getGenerationView db)"
  using assms by (rule view_run)

lemma generation_view_refines_witness:
  "fst (store_run demo_start empty_store) = [OpAcquiring demo_acquire 10, OpActive demo_runtime 12,
      OpGeneration (GenKnown ''n1'') 13] \<and>
   getGenerationView (snd (store_run demo_probes demo_store)) = GenAbsent 50"
proof
  show "fst (store_run demo_start empty_store) = [OpAcquiring demo_acquire 10, OpActive demo_runtime 12,
      OpGeneration (GenKnown ''n1'') 13]" by code_simp
  have "store_run demo_probes demo_store = (demo_probes, snd (store_run demo_probes demo_store))"
    using demo_probes_run by (metis prod.collapse)
  from generation_view_refines [OF demo_store_ok this]
  have "getGenerationView (snd (store_run demo_probes demo_store)) =
      fold view_step demo_probes (getGenerationView demo_store)" .
  moreover have "getGenerationView demo_store = GenKnown ''n1''" by code_simp
  ultimately show "getGenerationView (snd (store_run demo_probes demo_store)) = GenAbsent 50"
    by (simp add: demo_probes_def)
qed

text \<open>C17: Work is never reported lost to a sandbox reset without evidence: if the generation on record
  makes the reaper classify a row as reset and did not before, then one of the writes in between
  recorded a probe result that by itself shows the reset, a different nonce or an absence seen after
  the row started. In particular no \<open>unknown\<close> probe, release, recovery, error or new acquisition can.
\<close>

theorem reset_needs_evidence:
  assumes "store_ok db" and "store_run ops db = (took, db')"
    and "\<not> isReset row (getGenerationView db)" and "isReset row (getGenerationView db')"
  shows "\<exists>g now. OpGeneration g now \<in> set took \<and> isReset row g"
  using isReset_fold [of row took "getGenerationView db"] assms(3,4)
    view_run [OF assms(1,2)]
  by auto

lemma reset_needs_evidence_witness:
  "\<exists>g now. OpGeneration g now \<in> set demo_probes \<and> isReset demo_row g"
proof (rule reset_needs_evidence [OF demo_store_ok, of demo_probes])
  show "store_run demo_probes demo_store = (demo_probes, snd (store_run demo_probes demo_store))"
    using demo_probes_run by (metis prod.collapse)
  show "\<not> isReset demo_row (getGenerationView demo_store)" by code_simp
  show "isReset demo_row (getGenerationView (snd (store_run demo_probes demo_store)))" by code_simp
qed

text \<open>C25: Every row the store ever holds is well formed, from any well-formed store, through the
  migration and any sequence of operations, failed writes included: its references pass the schema,
  an active row carries no recovery reference, an acquiring or recoverable one no runtime, an absent
  one neither, and at most one of the two generation columns is set.
\<close>

theorem store_well_typed:
  assumes "store_ok db"
  shows "store_ok (snd (store_run ops (fst (migrateStore db))))"
  using store_ok_migrate [OF assms] by (auto simp: wp_final intro!: store_ok_run)

lemma store_well_typed_witness:
  "store_ok (snd (store_run (demo_start @ demo_probes) (fst (migrateStore (empty_store
     \<lparr>cd_legacyState := Some [\<lparr>ls_id = ''sandbox'', ls_provider = ''daytona'',
        ls_sandboxId = Some ''s1'', ls_status = ''suspended'', ls_createdAt = 1, ls_lastUsedAt = 2,
        ls_evictAt = None, ls_error = None, ls_pendingPackage = None,
        ls_activePackage = Some ''medium'', ls_suspendedAt = Some 3, ls_suspendExpiresAt = Some 4,
        ls_suspendReason = None\<rparr>]\<rparr>)))))"
  by (rule store_well_typed) (simp add: store_ok_def empty_store_def)

end
