(* ===== verification/Work_Ledger_Store.thy ===== *)
theory Work_Ledger_Store
  imports Work_Ledger
begin

text \<open>
  \<open>src/src/agent/work-ledger-store.ts\<close>: durable storage of the work ledger in the table
  \<open>background_work\<close>. The six \<open>terminal_*\<close> columns are only ever written together, by the
  \<open>INSERT\<close> of \<open>register\<close> and the \<open>UPDATE\<close> of \<open>terminalize\<close>, so a row holds them as one
  option, \<open>None\<close> where \<open>terminal_outcome IS NULL\<close>; the same for the three \<open>progress_*\<close>
  columns, whose presence test is \<open>progress_at\<close>.
\<close>

section \<open>Rows\<close>

record terminal_columns =
  tc_outcome :: work_outcome
  tc_reason :: work_reason
  tc_at :: int
  tc_detail :: "string option"
  tc_exit_code :: "int option"
  tc_actor :: "work_stop_actor option"

record ledger_row =
  lr_id :: string
  lr_kind :: work_kind
  lr_started_at :: int
  lr_last_alive_at :: int
  lr_stale_after_ms :: int
  lr_deadline_at :: int
  lr_generation :: string
  lr_terminal :: "terminal_columns option"
  lr_delivered_at :: "int option"
  lr_cleared_at :: "int option"
  lr_progress :: "work_progress option"

type_synonym ledger = "ledger_row list"

definition toWorkRow :: "ledger_row \<Rightarrow> work_row" where
  "toWorkRow r = \<lparr>wr_id = lr_id r, wr_kind = lr_kind r, wr_startedAt = lr_started_at r,
     wr_lastAliveAt = lr_last_alive_at r, wr_staleAfterMs = lr_stale_after_ms r,
     wr_deadlineAt = lr_deadline_at r, wr_generation = lr_generation r,
     wr_terminal = (case lr_terminal r of None \<Rightarrow> None
       | Some c \<Rightarrow> Some \<lparr>t_outcome = tc_outcome c, t_reason = tc_reason c, t_at = tc_at c,
            t_detail = (case tc_detail c of None \<Rightarrow> [] | Some d \<Rightarrow> d),
            t_actor = tc_actor c, t_exitCode = tc_exit_code c\<rparr>),
     wr_deliveredAt = lr_delivered_at r, wr_clearedAt = lr_cleared_at r,
     wr_progress = lr_progress r\<rparr>"

section \<open>Migration\<close>

text \<open>
  The schema the migration finds: the columns of \<open>background_work\<close> (\<open>None\<close> when there is no
  such table), its rows, and the version row. A column that is not there reads as \<open>None\<close>.
\<close>

record ledger_db =
  db_columns :: "string list option"
  db_rows :: ledger
  db_version :: "int option"

definition WORK_LEDGER_SCHEMA_VERSION :: int where
  "WORK_LEDGER_SCHEMA_VERSION = 5"

definition base_columns :: "string list" where
  "base_columns = [''id'', ''kind'', ''started_at'', ''last_alive_at'', ''stale_after_ms'',
     ''deadline_at'', ''generation'', ''terminal_outcome'', ''terminal_reason'', ''terminal_at'',
     ''terminal_detail'', ''delivered_at'']"

definition migrateLedger :: "ledger_db \<Rightarrow> ledger_db" where
  "migrateLedger db =
     (let columns = (case db_columns db of None \<Rightarrow> base_columns | Some cs \<Rightarrow> cs);
          rows = (case db_columns db of None \<Rightarrow> [] | Some _ \<Rightarrow> db_rows db);
          (cols1, rows1) =
            (if ''delivered_at'' \<notin> set columns
             then (columns @ [''delivered_at''],
                   sql_update (\<lambda>r. lr_terminal r \<noteq> None \<and> lr_delivered_at r = None)
                     (\<lambda>r. r\<lparr>lr_delivered_at := map_option tc_at (lr_terminal r)\<rparr>) rows)
             else (columns, rows));
          cols2 = (if ''terminal_exit_code'' \<notin> set columns
                   then cols1 @ [''terminal_exit_code''] else cols1);
          cols3 = (if ''cleared_at'' \<notin> set columns then cols2 @ [''cleared_at''] else cols2);
          cols4 = (if ''terminal_actor'' \<notin> set columns
                   then cols3 @ [''terminal_actor''] else cols3);
          cols5 = (if ''progress_at'' \<notin> set columns
                   then cols4 @ [''progress_message'', ''progress_phase'', ''progress_at'']
                   else cols4)
      in \<lparr>db_columns = Some cols5, db_rows = rows1,
          db_version = Some WORK_LEDGER_SCHEMA_VERSION\<rparr>)"

section \<open>Writes\<close>

definition insert_columns :: "work_row \<Rightarrow> ledger_row" where
  "insert_columns row = \<lparr>lr_id = wr_id row, lr_kind = wr_kind row,
     lr_started_at = wr_startedAt row, lr_last_alive_at = wr_lastAliveAt row,
     lr_stale_after_ms = wr_staleAfterMs row, lr_deadline_at = wr_deadlineAt row,
     lr_generation = wr_generation row,
     lr_terminal = map_option (\<lambda>t. \<lparr>tc_outcome = t_outcome t, tc_reason = t_reason t,
       tc_at = t_at t, tc_detail = Some (t_detail t), tc_exit_code = t_exitCode t,
       tc_actor = None\<rparr>) (wr_terminal row),
     lr_delivered_at = None, lr_cleared_at = None, lr_progress = None\<rparr>"

definition register :: "work_row \<Rightarrow> ledger \<Rightarrow> ledger" where
  "register row t = sql_upsert lr_id (insert_columns row)
     (\<lambda>r. r\<lparr>lr_last_alive_at := max (lr_last_alive_at r) (wr_lastAliveAt row),
            lr_stale_after_ms := wr_staleAfterMs row,
            lr_deadline_at := wr_deadlineAt row,
            lr_generation := wr_generation row\<rparr>) t"

definition stampAlive :: "string \<Rightarrow> int \<Rightarrow> ledger \<Rightarrow> ledger" where
  "stampAlive i at t = sql_update (\<lambda>r. lr_id r = i \<and> lr_terminal r = None)
     (\<lambda>r. r\<lparr>lr_last_alive_at := max (lr_last_alive_at r) at\<rparr>) t"

definition stampProgress :: "string \<Rightarrow> work_progress \<Rightarrow> ledger \<Rightarrow> ledger" where
  "stampProgress i progress t = sql_update
     (\<lambda>r. lr_id r = i \<and> lr_terminal r = None \<and>
          (case lr_progress r of None \<Rightarrow> True | Some p \<Rightarrow> p_at p \<le> p_at progress))
     (\<lambda>r. r\<lparr>lr_progress := Some progress\<rparr>) t"

definition terminalize :: "string \<Rightarrow> work_terminal \<Rightarrow> ledger \<Rightarrow> ledger \<times> bool" where
  "terminalize i terminal t =
     (let P = (\<lambda>r. lr_id r = i \<and> lr_terminal r = None)
      in (sql_update P (\<lambda>r. r\<lparr>lr_terminal := Some \<lparr>tc_outcome = t_outcome terminal,
            tc_reason = t_reason terminal, tc_at = t_at terminal,
            tc_detail = Some (t_detail terminal), tc_exit_code = t_exitCode terminal,
            tc_actor = t_actor terminal\<rparr>\<rparr>) t,
          sql_changes P t = 1))"

definition markDelivered :: "string \<Rightarrow> int \<Rightarrow> ledger \<Rightarrow> ledger \<times> bool" where
  "markDelivered i at t =
     (let P = (\<lambda>r. lr_id r = i \<and> lr_terminal r \<noteq> None \<and> lr_delivered_at r = None)
      in (sql_update P (\<lambda>r. r\<lparr>lr_delivered_at := Some at\<rparr>) t, sql_changes P t = 1))"

definition clearFinished :: "int \<Rightarrow> ledger \<Rightarrow> ledger \<times> nat" where
  "clearFinished now t =
     (let P = (\<lambda>r. lr_terminal r \<noteq> None \<and> lr_delivered_at r \<noteq> None \<and> lr_cleared_at r = None)
      in (sql_update P (\<lambda>r. r\<lparr>lr_cleared_at := Some now\<rparr>) t, sql_changes P t))"

definition deleteRow :: "string \<Rightarrow> ledger \<Rightarrow> ledger" where
  "deleteRow i t = sql_delete (\<lambda>r. lr_id r = i) t"

definition prune :: "int \<Rightarrow> ledger \<Rightarrow> ledger" where
  "prune before t = sql_delete
     (\<lambda>r. case lr_terminal r of None \<Rightarrow> False
       | Some c \<Rightarrow> lr_delivered_at r \<noteq> None \<and> tc_at c < before) t"

section \<open>Reads\<close>

definition get_row :: "string \<Rightarrow> ledger \<Rightarrow> work_row option" where
  "get_row i t = map_option toWorkRow (sql_row lr_id i t)"

definition listOpen :: "ledger \<Rightarrow> work_row list" where
  "listOpen t = map toWorkRow (sql_select (\<lambda>r. lr_terminal r = None) t)"

definition listAll :: "ledger \<Rightarrow> work_row list" where
  "listAll t = map toWorkRow t"

definition listRecent :: "int \<Rightarrow> int \<Rightarrow> ledger \<Rightarrow> work_row list" where
  "listRecent now within t = map toWorkRow (sort_key (\<lambda>r. - lr_started_at r)
     (sql_select (\<lambda>r. lr_cleared_at r = None \<and>
        (lr_terminal r = None \<or>
         (case lr_delivered_at r of None \<Rightarrow> True | Some d \<Rightarrow> d \<ge> now - within))) t))"

definition listUndelivered :: "ledger \<Rightarrow> work_row list" where
  "listUndelivered t =
     map toWorkRow (sql_select (\<lambda>r. lr_terminal r \<noteq> None \<and> lr_delivered_at r = None) t)"

definition countUndelivered :: "ledger \<Rightarrow> nat" where
  "countUndelivered t = length (sql_select (\<lambda>r. lr_terminal r \<noteq> None \<and> lr_delivered_at r = None) t)"

definition isDelivered :: "string \<Rightarrow> ledger \<Rightarrow> bool" where
  "isDelivered i t = (0 < length (sql_select (\<lambda>r. lr_id r = i \<and> lr_delivered_at r \<noteq> None) t))"

section \<open>What the compute layer is promised\<close>

text \<open>
  \<open>WorkLedgerSink\<close>, the interface the compute layer is handed: its operations over any state
  with a view of the rows, and the laws its callers rely on. \<open>term\<close> and \<open>dlv\<close> return the
  exactly-once gates.
\<close>

definition registered :: "work_row \<Rightarrow> work_row option \<Rightarrow> work_row" where
  "registered row old = (case old of
       None \<Rightarrow> row\<lparr>wr_terminal := map_option (t_actor_update (\<lambda>_. None)) (wr_terminal row),
                 wr_deliveredAt := None, wr_clearedAt := None, wr_progress := None\<rparr>
     | Some r \<Rightarrow> r\<lparr>wr_lastAliveAt := max (wr_lastAliveAt r) (wr_lastAliveAt row),
                   wr_staleAfterMs := wr_staleAfterMs row, wr_deadlineAt := wr_deadlineAt row,
                   wr_generation := wr_generation row\<rparr>)"

locale work_ledger_sink =
  fixes reg :: "work_row \<Rightarrow> 's \<Rightarrow> 's"
    and alive :: "string \<Rightarrow> int \<Rightarrow> 's \<Rightarrow> 's"
    and trm :: "string \<Rightarrow> work_terminal \<Rightarrow> 's \<Rightarrow> 's \<times> bool"
    and dlv :: "string \<Rightarrow> int \<Rightarrow> 's \<Rightarrow> 's \<times> bool"
    and told :: "string \<Rightarrow> 's \<Rightarrow> bool"
    and del :: "string \<Rightarrow> 's \<Rightarrow> 's"
    and view :: "string \<Rightarrow> 's \<Rightarrow> work_row option"
    and inv :: "'s \<Rightarrow> bool"
  assumes inv_reg: "inv s \<Longrightarrow> inv (reg row s)"
    and inv_alive: "inv s \<Longrightarrow> inv (alive i at s)"
    and inv_trm: "inv s \<Longrightarrow> inv (fst (trm i t s))"
    and inv_dlv: "inv s \<Longrightarrow> inv (fst (dlv i at s))"
    and inv_del: "inv s \<Longrightarrow> inv (del i s)"
    and view_reg: "inv s \<Longrightarrow> view j (reg row s) =
      (if j = wr_id row then Some (registered row (view j s)) else view j s)"
    and view_alive: "inv s \<Longrightarrow> view j (alive i at s) = map_option
      (\<lambda>r. if j = i \<and> wr_open r then r\<lparr>wr_lastAliveAt := max (wr_lastAliveAt r) at\<rparr> else r)
      (view j s)"
    and view_trm: "inv s \<Longrightarrow> view j (fst (trm i t s)) = map_option
      (\<lambda>r. if j = i \<and> wr_open r then r\<lparr>wr_terminal := Some t\<rparr> else r) (view j s)"
    and gate_trm: "inv s \<Longrightarrow> snd (trm i t s) \<longleftrightarrow> (\<exists>r. view i s = Some r \<and> wr_open r)"
    and view_dlv: "inv s \<Longrightarrow> view j (fst (dlv i at s)) = map_option
      (\<lambda>r. if j = i \<and> \<not> wr_open r \<and> wr_deliveredAt r = None
           then r\<lparr>wr_deliveredAt := Some at\<rparr> else r) (view j s)"
    and gate_dlv: "inv s \<Longrightarrow> snd (dlv i at s) \<longleftrightarrow>
      (\<exists>r. view i s = Some r \<and> \<not> wr_open r \<and> wr_deliveredAt r = None)"
    and told_iff: "inv s \<Longrightarrow>
      told i s \<longleftrightarrow> (\<exists>r. view i s = Some r \<and> wr_deliveredAt r \<noteq> None)"
    and view_del: "inv s \<Longrightarrow> view j (del i s) = (if j = i then None else view j s)"
begin

lemma trm_idem: "inv s \<Longrightarrow> \<not> snd (trm i t' (fst (trm i t s)))"
  by (auto simp: inv_trm gate_trm view_trm wr_open_def split: if_splits)

lemma dlv_idem: "inv s \<Longrightarrow> \<not> snd (dlv i at' (fst (dlv i at s)))"
  by (auto simp: inv_dlv gate_dlv view_dlv split: if_splits)

lemma dlv_told: "inv s \<Longrightarrow> snd (dlv i at s) \<Longrightarrow> \<not> told i s \<and> told i (fst (dlv i at s))"
proof -
  assume "inv s" and "snd (dlv i at s)"
  moreover from this obtain r where "view i s = Some r" "\<not> wr_open r" "wr_deliveredAt r = None"
    by (auto simp: gate_dlv)
  ultimately show ?thesis by (simp add: inv_dlv view_dlv told_iff)
qed

lemma open_not_delivered: "inv s \<Longrightarrow> view i s = Some r \<Longrightarrow> wr_open r \<Longrightarrow> \<not> snd (dlv i at s)"
  by (auto simp: gate_dlv)

lemma terminal_kept:
  assumes "inv s" and "view i s = Some r" and "wr_terminal r = Some t"
  shows "\<exists>r'. view i (reg row s) = Some r' \<and> wr_terminal r' = Some t"
    and "\<exists>r'. view i (alive j at s) = Some r' \<and> wr_terminal r' = Some t"
    and "\<exists>r'. view i (fst (trm j u s)) = Some r' \<and> wr_terminal r' = Some t"
    and "\<exists>r'. view i (fst (dlv j at s)) = Some r' \<and> wr_terminal r' = Some t"
  using assms by (auto simp: view_reg view_alive view_trm view_dlv registered_def wr_open_def)

end

section \<open>The store keeps its promises\<close>

lemmas ledger_defs = register_def stampAlive_def stampProgress_def terminalize_def
  markDelivered_def clearFinished_def deleteRow_def prune_def

definition ledger_inv :: "ledger \<Rightarrow> bool" where
  "ledger_inv t \<longleftrightarrow> sql_keyed lr_id t \<and> (\<forall>r \<in> set t. lr_delivered_at r \<noteq> None \<longrightarrow> lr_terminal r \<noteq> None)"

lemma toWorkRow_simps [simp]:
  "wr_id (toWorkRow r) = lr_id r"
  "wr_kind (toWorkRow r) = lr_kind r"
  "wr_startedAt (toWorkRow r) = lr_started_at r"
  "wr_lastAliveAt (toWorkRow r) = lr_last_alive_at r"
  "wr_staleAfterMs (toWorkRow r) = lr_stale_after_ms r"
  "wr_deadlineAt (toWorkRow r) = lr_deadline_at r"
  "wr_generation (toWorkRow r) = lr_generation r"
  "wr_terminal (toWorkRow r) = None \<longleftrightarrow> lr_terminal r = None"
  "wr_deliveredAt (toWorkRow r) = lr_delivered_at r"
  "wr_clearedAt (toWorkRow r) = lr_cleared_at r"
  "wr_progress (toWorkRow r) = lr_progress r"
  by (simp_all add: toWorkRow_def split: option.splits)

lemma toWorkRow_open [simp]: "wr_open (toWorkRow r) \<longleftrightarrow> lr_terminal r = None"
  by (simp add: wr_open_def)

lemma ledger_inv_empty [simp]: "ledger_inv []"
  by (simp add: ledger_inv_def)

lemma ledger_inv_keyed: "ledger_inv t \<Longrightarrow> sql_keyed lr_id t"
  by (simp add: ledger_inv_def)

lemma sql_upsert_cases: "x \<in> set (sql_upsert key r f t) \<Longrightarrow> x = r \<or> x \<in> set t \<or> (\<exists>y \<in> set t. x = f y)"
  by (auto simp: sql_upsert_def sql_update_def split: if_splits)

lemma ledger_inv_register: "ledger_inv t \<Longrightarrow> ledger_inv (register row t)"
  by (auto simp: ledger_inv_def register_def insert_columns_def
      intro!: sql_keyed_upsert dest!: sql_upsert_cases)

lemma ledger_inv_stampAlive: "ledger_inv t \<Longrightarrow> ledger_inv (stampAlive i at t)"
  by (auto simp: ledger_inv_def stampAlive_def set_sql_update intro!: sql_keyed_update)

lemma ledger_inv_stampProgress: "ledger_inv t \<Longrightarrow> ledger_inv (stampProgress i p t)"
  by (auto simp: ledger_inv_def stampProgress_def set_sql_update intro!: sql_keyed_update)

lemma ledger_inv_terminalize: "ledger_inv t \<Longrightarrow> ledger_inv (fst (terminalize i u t))"
  by (auto simp: ledger_inv_def terminalize_def Let_def set_sql_update intro!: sql_keyed_update)

lemma ledger_inv_markDelivered: "ledger_inv t \<Longrightarrow> ledger_inv (fst (markDelivered i at t))"
  by (auto simp: ledger_inv_def markDelivered_def Let_def set_sql_update intro!: sql_keyed_update)

lemma ledger_inv_clearFinished: "ledger_inv t \<Longrightarrow> ledger_inv (fst (clearFinished now t))"
  by (auto simp: ledger_inv_def clearFinished_def Let_def set_sql_update intro!: sql_keyed_update)

lemma ledger_inv_deleteRow: "ledger_inv t \<Longrightarrow> ledger_inv (deleteRow i t)"
  by (auto simp: ledger_inv_def deleteRow_def sql_simps intro!: sql_keyed_delete)

lemma ledger_inv_prune: "ledger_inv t \<Longrightarrow> ledger_inv (prune before t)"
  by (auto simp: ledger_inv_def prune_def sql_simps intro!: sql_keyed_delete)

lemmas ledger_inv_ops = ledger_inv_register ledger_inv_stampAlive ledger_inv_stampProgress
  ledger_inv_terminalize ledger_inv_markDelivered ledger_inv_clearFinished
  ledger_inv_deleteRow ledger_inv_prune


text \<open>How each statement moves the row a reader sees.\<close>

lemma lr_id_insert_columns [simp]: "lr_id (insert_columns row) = wr_id row"
  by (simp add: insert_columns_def)

lemma get_register:
  assumes "ledger_inv t"
  shows "get_row j (register row t) =
    (if j = wr_id row then Some (registered row (get_row j t)) else get_row j t)"
proof -
  have "sql_row lr_id j (register row t) =
      (if j = wr_id row
       then Some (case sql_row lr_id j t of None \<Rightarrow> insert_columns row
         | Some r \<Rightarrow> r\<lparr>lr_last_alive_at := max (lr_last_alive_at r) (wr_lastAliveAt row),
             lr_stale_after_ms := wr_staleAfterMs row, lr_deadline_at := wr_deadlineAt row,
             lr_generation := wr_generation row\<rparr>)
       else sql_row lr_id j t)"
    by (simp add: register_def sql_row_upsert)
  then show ?thesis
    by (auto simp: get_row_def registered_def insert_columns_def toWorkRow_def split: option.splits)
qed

lemma get_stampAlive:
  "get_row j (stampAlive i at t) = map_option
     (\<lambda>r. if j = i \<and> wr_open r then r\<lparr>wr_lastAliveAt := max (wr_lastAliveAt r) at\<rparr> else r)
     (get_row j t)"
  by (cases "sql_row lr_id j t")
    (auto simp: get_row_def stampAlive_def sql_row_update toWorkRow_def wr_open_def
      dest: sql_row_Some_in split: option.splits)

lemma get_terminalize:
  "get_row j (fst (terminalize i u t)) = map_option
     (\<lambda>r. if j = i \<and> wr_open r then r\<lparr>wr_terminal := Some u\<rparr> else r) (get_row j t)"
  by (cases "sql_row lr_id j t")
    (auto simp: get_row_def terminalize_def sql_row_update toWorkRow_def wr_open_def Let_def
      dest: sql_row_Some_in split: option.splits)

lemma get_markDelivered:
  "get_row j (fst (markDelivered i at t)) = map_option
     (\<lambda>r. if j = i \<and> \<not> wr_open r \<and> wr_deliveredAt r = None
          then r\<lparr>wr_deliveredAt := Some at\<rparr> else r) (get_row j t)"
  by (cases "sql_row lr_id j t")
    (auto simp: get_row_def markDelivered_def sql_row_update toWorkRow_def wr_open_def Let_def
      dest: sql_row_Some_in split: option.splits)

lemma get_deleteRow:
  "ledger_inv t \<Longrightarrow> get_row j (deleteRow i t) = (if j = i then None else get_row j t)"
  by (auto simp: get_row_def deleteRow_def sql_row_delete ledger_inv_keyed
      dest: sql_row_Some_in split: option.splits)

lemma gate_terminalize:
  "ledger_inv t \<Longrightarrow> snd (terminalize i u t) \<longleftrightarrow> (\<exists>r. get_row i t = Some r \<and> wr_open r)"
  by (auto simp: terminalize_def Let_def sql_changes_keyed ledger_inv_keyed get_row_def
      split: option.splits if_splits)

lemma gate_markDelivered:
  "ledger_inv t \<Longrightarrow> snd (markDelivered i at t) \<longleftrightarrow>
     (\<exists>r. get_row i t = Some r \<and> \<not> wr_open r \<and> wr_deliveredAt r = None)"
  by (auto simp: markDelivered_def Let_def sql_changes_keyed ledger_inv_keyed get_row_def
      split: option.splits if_splits)

lemma isDelivered_iff:
  "ledger_inv t \<Longrightarrow>
     isDelivered i t \<longleftrightarrow> (\<exists>r. get_row i t = Some r \<and> wr_deliveredAt r \<noteq> None)"
  using sql_changes_keyed [of lr_id t i "\<lambda>r. lr_delivered_at r \<noteq> None"]
  by (auto simp: isDelivered_def sql_select_def sql_changes_def get_row_def ledger_inv_keyed
      split: option.splits if_splits)

interpretation ledger: work_ledger_sink register stampAlive terminalize markDelivered isDelivered
  deleteRow get_row ledger_inv
  by unfold_locales
    (simp_all add: ledger_inv_ops get_register get_stampAlive get_terminalize get_markDelivered
      get_deleteRow gate_terminalize gate_markDelivered isDelivered_iff)


section \<open>Runs of the store\<close>

text \<open>
  Every write of the store as a step; the flag is the operation's return value for the two
  exactly-once gates.
\<close>

datatype ledger_op =
    OpRegister work_row
  | OpStampAlive string int
  | OpStampProgress string work_progress
  | OpTerminalize string work_terminal
  | OpMarkDelivered string int
  | OpClearFinished int
  | OpDeleteRow string
  | OpPrune int

fun ledger_exec :: "ledger_op \<Rightarrow> ledger \<Rightarrow> ledger \<times> bool" where
  "ledger_exec (OpRegister row) t = (register row t, False)"
| "ledger_exec (OpStampAlive i at) t = (stampAlive i at t, False)"
| "ledger_exec (OpStampProgress i p) t = (stampProgress i p t, False)"
| "ledger_exec (OpTerminalize i u) t = terminalize i u t"
| "ledger_exec (OpMarkDelivered i at) t = markDelivered i at t"
| "ledger_exec (OpClearFinished now) t = (fst (clearFinished now t), False)"
| "ledger_exec (OpDeleteRow i) t = (deleteRow i t, False)"
| "ledger_exec (OpPrune before) t = (prune before t, False)"

fun ledger_run :: "ledger_op list \<Rightarrow> ledger \<Rightarrow> (ledger_op \<times> bool) list \<times> ledger" where
  "ledger_run [] t = ([], t)"
| "ledger_run (x # xs) t =
     (let (t', b) = ledger_exec x t; (bs, t'') = ledger_run xs t' in ((x, b) # bs, t''))"

fun op_terminalizes :: "string \<Rightarrow> ledger_op \<Rightarrow> bool" where
  "op_terminalizes i (OpTerminalize j _) = (j = i)"
| "op_terminalizes i _ = False"

fun op_delivers :: "string \<Rightarrow> ledger_op \<Rightarrow> bool" where
  "op_delivers i (OpMarkDelivered j _) = (j = i)"
| "op_delivers i _ = False"

fun op_drops :: "string \<Rightarrow> ledger_op \<Rightarrow> bool" where
  "op_drops i (OpDeleteRow j) = (j = i)"
| "op_drops i (OpPrune _) = True"
| "op_drops i _ = False"

definition gates_won :: "(ledger_op \<Rightarrow> bool) \<Rightarrow> (ledger_op \<times> bool) list \<Rightarrow> nat" where
  "gates_won P log = length (filter (\<lambda>(x, b). P x \<and> b) log)"

lemma ledger_exec_inv: "ledger_inv t \<Longrightarrow> ledger_inv (fst (ledger_exec x t))"
  by (cases x) (simp_all add: ledger_inv_ops)

lemma ledger_run_inv: "ledger_inv t \<Longrightarrow> ledger_inv (snd (ledger_run xs t))"
proof (induction xs arbitrary: t)
  case (Cons x xs)
  then have "ledger_inv (fst (ledger_exec x t))" by (simp add: ledger_exec_inv)
  then show ?case using Cons.IH by (simp add: Let_def split: prod.splits) (metis fst_conv snd_conv)
qed simp

lemma get_stampProgress:
  "get_row j (stampProgress i p t) = map_option
     (\<lambda>r. if j = i \<and> wr_open r \<and> (case wr_progress r of None \<Rightarrow> True | Some q \<Rightarrow> p_at q \<le> p_at p)
          then r\<lparr>wr_progress := Some p\<rparr> else r) (get_row j t)"
  by (cases "sql_row lr_id j t")
    (auto simp: get_row_def stampProgress_def sql_row_update toWorkRow_def wr_open_def
      dest: sql_row_Some_in split: option.splits)

lemma get_clearFinished:
  "get_row j (fst (clearFinished now t)) = map_option
     (\<lambda>r. if \<not> wr_open r \<and> wr_deliveredAt r \<noteq> None \<and> wr_clearedAt r = None
          then r\<lparr>wr_clearedAt := Some now\<rparr> else r) (get_row j t)"
  by (cases "sql_row lr_id j t")
    (auto simp: get_row_def clearFinished_def sql_row_update toWorkRow_def wr_open_def Let_def
      split: option.splits)

lemma get_prune:
  "ledger_inv t \<Longrightarrow> get_row j (prune before t) =
     (case get_row j t of None \<Rightarrow> None
      | Some r \<Rightarrow> (case wr_terminal r of None \<Rightarrow> Some r
          | Some u \<Rightarrow> if wr_deliveredAt r \<noteq> None \<and> t_at u < before then None else Some r))"
  by (cases "sql_row lr_id j t")
    (auto simp: get_row_def prune_def sql_row_delete ledger_inv_keyed toWorkRow_def
      split: option.splits)

lemmas get_ops = get_register get_stampAlive get_stampProgress get_terminalize
  get_markDelivered get_clearFinished get_deleteRow get_prune

text \<open>A closed row stays closed with its terminal, a delivered row stays delivered.\<close>

definition row_closed :: "string \<Rightarrow> work_terminal \<Rightarrow> ledger \<Rightarrow> bool" where
  "row_closed i u t = (case get_row i t of None \<Rightarrow> False | Some r \<Rightarrow> wr_terminal r = Some u)"

definition row_told :: "string \<Rightarrow> int \<Rightarrow> ledger \<Rightarrow> bool" where
  "row_told i at t = (case get_row i t of None \<Rightarrow> False | Some r \<Rightarrow> wr_deliveredAt r = Some at)"

lemma row_closed_exec:
  assumes "ledger_inv t" and "row_closed i u t" and "\<not> op_drops i x"
  shows "row_closed i u (fst (ledger_exec x t))"
  using assms
  by (cases x; cases "get_row i t") (auto simp: row_closed_def get_ops registered_def wr_open_def)

lemma row_told_exec:
  assumes "ledger_inv t" and "row_told i at t" and "\<not> op_drops i x"
  shows "row_told i at (fst (ledger_exec x t))"
  using assms by (cases x; cases "get_row i t") (auto simp: row_told_def get_ops registered_def split: option.splits)

lemma terminalize_wins:
  assumes "ledger_inv t" and "op_terminalizes i x" and "snd (ledger_exec x t)"
  shows "\<exists>u. row_closed i u (fst (ledger_exec x t))"
  using assms by (cases x; cases "get_row i t") (auto simp: gate_terminalize row_closed_def get_terminalize)

lemma terminalize_loses:
  assumes "ledger_inv t" and "row_closed i u t" and "op_terminalizes i x"
  shows "\<not> snd (ledger_exec x t)"
  using assms by (cases x; cases "get_row i t") (auto simp: gate_terminalize row_closed_def wr_open_def)

lemma markDelivered_wins:
  assumes "ledger_inv t" and "op_delivers i x" and "snd (ledger_exec x t)"
  shows "\<exists>at. row_told i at (fst (ledger_exec x t))"
  using assms by (cases x; cases "get_row i t") (auto simp: gate_markDelivered row_told_def get_markDelivered)

lemma markDelivered_loses:
  assumes "ledger_inv t" and "row_told i at t" and "op_delivers i x"
  shows "\<not> snd (ledger_exec x t)"
  using assms by (cases x; cases "get_row i t") (auto simp: gate_markDelivered row_told_def)

text \<open>The two gates have one shape: a predicate that the win establishes, that every step keeps
  and that makes every later try lose.\<close>

lemma gate_closed:
  assumes step: "\<And>x t. ledger_inv t \<Longrightarrow> Q t \<Longrightarrow> \<not> op_drops i x \<Longrightarrow> Q (fst (ledger_exec x t))"
    and lose: "\<And>x t. ledger_inv t \<Longrightarrow> Q t \<Longrightarrow> P x \<Longrightarrow> \<not> snd (ledger_exec x t)"
    and "ledger_inv t" and "Q t" and "\<forall>x \<in> set xs. \<not> op_drops i x"
  shows "gates_won P (fst (ledger_run xs t)) = 0"
  using assms(3-)
proof (induction xs arbitrary: t)
  case (Cons x xs)
  let ?t = "fst (ledger_exec x t)"
  have "ledger_inv ?t" "Q ?t" using Cons.prems step by (simp_all add: ledger_exec_inv)
  then have "gates_won P (fst (ledger_run xs ?t)) = 0" using Cons by simp
  moreover have "\<not> (P x \<and> snd (ledger_exec x t))" using Cons.prems lose by blast
  ultimately show ?case by (auto simp: gates_won_def Let_def split: prod.splits)
qed (simp add: gates_won_def)

lemma gate_once:
  assumes win: "\<And>x t. ledger_inv t \<Longrightarrow> P x \<Longrightarrow> snd (ledger_exec x t) \<Longrightarrow> Q (fst (ledger_exec x t))"
    and step: "\<And>x t. ledger_inv t \<Longrightarrow> Q t \<Longrightarrow> \<not> op_drops i x \<Longrightarrow> Q (fst (ledger_exec x t))"
    and lose: "\<And>x t. ledger_inv t \<Longrightarrow> Q t \<Longrightarrow> P x \<Longrightarrow> \<not> snd (ledger_exec x t)"
    and "ledger_inv t" and "\<forall>x \<in> set xs. \<not> op_drops i x"
  shows "gates_won P (fst (ledger_run xs t)) \<le> 1"
  using assms(4-)
proof (induction xs arbitrary: t)
  case (Cons x xs)
  let ?t = "fst (ledger_exec x t)"
  have inv: "ledger_inv ?t" using Cons.prems by (simp add: ledger_exec_inv)
  show ?case
  proof (cases "P x \<and> snd (ledger_exec x t)")
    case True
    then have "Q ?t" using win Cons.prems by blast
    then have "gates_won P (fst (ledger_run xs ?t)) = 0"
      using gate_closed [of Q i P, OF step lose inv] Cons.prems by auto
    with True show ?thesis by (auto simp: gates_won_def Let_def split: prod.splits)
  next
    case False
    have "gates_won P (fst (ledger_run xs ?t)) \<le> 1" using Cons inv by simp
    with False show ?thesis by (auto simp: gates_won_def Let_def split: prod.splits)
  qed
qed (simp add: gates_won_def)


section \<open>The store's guarantees\<close>

lemma closed_in_run:
  assumes "ledger_inv t" and "row_closed i u t" and "\<forall>x \<in> set xs. \<not> op_drops i x"
  shows "row_closed i u (snd (ledger_run xs t))"
  using assms
proof (induction xs arbitrary: t)
  case (Cons x xs)
  have "ledger_inv (fst (ledger_exec x t))" "row_closed i u (fst (ledger_exec x t))"
    using Cons.prems by (simp_all add: ledger_exec_inv row_closed_exec)
  with Cons.IH Cons.prems(3) have "row_closed i u (snd (ledger_run xs (fst (ledger_exec x t))))"
    by simp
  then show ?case by (simp add: Let_def case_prod_beta)
qed simp

lemma winner_is_final:
  assumes "ledger_inv t" and "(OpTerminalize i u, True) \<in> set (fst (ledger_run xs t))"
    and "\<forall>x \<in> set xs. \<not> op_drops i x"
  shows "row_closed i u (snd (ledger_run xs t))"
  using assms
proof (induction xs arbitrary: t)
  case (Cons x xs)
  let ?t = "fst (ledger_exec x t)"
  have inv: "ledger_inv ?t" using Cons.prems(1) by (rule ledger_exec_inv)
  have final: "snd (ledger_run (x # xs) t) = snd (ledger_run xs ?t)"
    by (simp add: Let_def split: prod.splits)
  from Cons.prems(2) consider (now) "x = OpTerminalize i u" "snd (ledger_exec x t)"
    | (later) "(OpTerminalize i u, True) \<in> set (fst (ledger_run xs ?t))"
    by (auto simp: Let_def split: prod.splits)
  then show ?case
  proof cases
    case now
    then have "row_closed i u ?t"
      using Cons.prems(1) by (auto simp: row_closed_def gate_terminalize get_terminalize)
    from closed_in_run [OF inv this] Cons.prems(3) show ?thesis unfolding final by simp
  next
    case later
    with Cons.IH [OF inv] Cons.prems(3) show ?thesis unfolding final by simp
  qed
qed simp


text \<open>Over any run in which the row is not dropped, at most one \<open>markDelivered\<close> of an id
  returns true: a notification obligation is discharged once.\<close>

theorem markDelivered_exactly_once:
  assumes "ledger_inv t" and "\<forall>x \<in> set xs. \<not> op_drops i x"
  shows "gates_won (op_delivers i) (fst (ledger_run xs t)) \<le> 1"
proof (rule gate_once [where Q = "\<lambda>s. \<exists>at. row_told i at s" and i = i])
  show "\<exists>at. row_told i at (fst (ledger_exec x s))"
    if "ledger_inv s" "op_delivers i x" "snd (ledger_exec x s)" for x s
    using that by (rule markDelivered_wins)
  show "\<exists>at. row_told i at (fst (ledger_exec x s))"
    if "ledger_inv s" "\<exists>at. row_told i at s" "\<not> op_drops i x" for x s
    using that row_told_exec by blast
  show "\<not> snd (ledger_exec x s)"
    if "ledger_inv s" "\<exists>at. row_told i at s" "op_delivers i x" for x s
    using that markDelivered_loses by blast
qed (use assms in auto)

definition demo_work :: work_row where
  "demo_work = \<lparr>wr_id = ''w'', wr_kind = KProcess, wr_startedAt = 0, wr_lastAliveAt = 0,
     wr_staleAfterMs = 180000, wr_deadlineAt = 3600000, wr_generation = UNKNOWN_GENERATION,
     wr_terminal = None, wr_deliveredAt = None, wr_clearedAt = None, wr_progress = None\<rparr>"

definition demo_end :: "work_outcome \<Rightarrow> work_terminal" where
  "demo_end oc = \<lparr>t_outcome = oc, t_reason = RProcessExit, t_at = 5, t_detail = [],
     t_actor = None, t_exitCode = Some 0\<rparr>"

definition demo_ops :: "ledger_op list" where
  "demo_ops = [OpRegister demo_work, OpMarkDelivered ''w'' 1, OpTerminalize ''w'' (demo_end OExited),
     OpTerminalize ''w'' (demo_end OFault), OpMarkDelivered ''w'' 6,
     OpMarkDelivered ''w'' 7]"

lemma demo_ops_run:
  "fst (ledger_run demo_ops []) = [(OpRegister demo_work, False), (OpMarkDelivered ''w'' 1, False),
     (OpTerminalize ''w'' (demo_end OExited), True), (OpTerminalize ''w'' (demo_end OFault), False),
     (OpMarkDelivered ''w'' 6, True), (OpMarkDelivered ''w'' 7, False)]"
  by code_simp


theorem markDelivered_exactly_once_witness:
  "gates_won (op_delivers ''w'') (fst (ledger_run demo_ops [])) = 1"
proof -
  have "\<forall>x \<in> set demo_ops. \<not> op_drops ''w'' x" by (simp add: demo_ops_def)
  from markDelivered_exactly_once [OF ledger_inv_empty this] show ?thesis
    by (simp add: demo_ops_run gates_won_def)
qed

lemma set_migrated_columns:
  "\<exists>cs. db_columns (migrateLedger db) = Some cs \<and>
     {''delivered_at'', ''terminal_exit_code'', ''cleared_at'', ''terminal_actor'', ''progress_at''}
       \<subseteq> set cs"
  by (auto simp: migrateLedger_def Let_def split: prod.splits)

lemma migrateLedger_migrated:
  assumes "db_columns db = Some cs"
    and "{''delivered_at'', ''terminal_exit_code'', ''cleared_at'', ''terminal_actor'',
          ''progress_at''} \<subseteq> set cs"
  shows "migrateLedger db = db\<lparr>db_version := Some WORK_LEDGER_SCHEMA_VERSION\<rparr>"
  using assms by (simp add: migrateLedger_def Let_def)

text \<open>The migration, which runs on every start, acts once: a second run changes nothing, so a
  delivery still owed when the object restarts is never stamped as made; and a table that already
  has the delivery column keeps every row as it is.\<close>

theorem migrateLedger_once:
  "migrateLedger (migrateLedger db) = migrateLedger db \<and>
   ((\<exists>cs. db_columns db = Some cs \<and> ''delivered_at'' \<in> set cs) \<longrightarrow>
      db_rows (migrateLedger db) = db_rows db)"
proof -
  obtain cs where cs: "db_columns (migrateLedger db) = Some cs"
    "{''delivered_at'', ''terminal_exit_code'', ''cleared_at'', ''terminal_actor'', ''progress_at''}
       \<subseteq> set cs"
    using set_migrated_columns by blast
  have "db_version (migrateLedger db) = Some WORK_LEDGER_SCHEMA_VERSION"
    by (simp add: migrateLedger_def Let_def split: prod.splits)
  then have "migrateLedger (migrateLedger db) = migrateLedger db"
    using migrateLedger_migrated [OF cs] by simp
  moreover have "db_rows (migrateLedger db) = db_rows db"
    if "db_columns db = Some cs'" "''delivered_at'' \<in> set cs'" for cs'
    using that by (simp add: migrateLedger_def Let_def)
  ultimately show ?thesis by blast
qed

theorem migrateLedger_once_witness:
  "db_rows (migrateLedger \<lparr>db_columns = Some base_columns, db_rows = [insert_columns demo_work],
     db_version = Some 2\<rparr>) = [insert_columns demo_work]"
  using migrateLedger_once [of "\<lparr>db_columns = Some base_columns,
     db_rows = [insert_columns demo_work], db_version = Some 2\<rparr>"]
  by (simp add: base_columns_def)

end
