(* ===== verification/Fake_Backend.thy ===== *)
theory Fake_Backend
  imports Compute_Backend "HOL-Library.AList"
begin

text \<open>
  \<open>src/src/compute/backends/fake.ts\<close>: the in-memory backend the test suite runs against, with its
  call logs, its injectable failures and its clock-free runtimes and processes. A \<open>Map\<close> is an
  association list in insertion order (\<open>set\<close> keeps the place of a key it replaces), a \<open>Set\<close> the
  list of its members in insertion order. Not modelled: the legacy overloads, which only forward.
\<close>

section \<open>State\<close>

datatype fake_status = FkReady | FkSuspended

record fake_runtime =
  fr_status :: fake_status
  fr_directories :: "string list"
  fr_files :: "(string \<times> string) list"
  fr_fileMimes :: "(string \<times> string) list"
  fr_symlinks :: "(string \<times> string) list"

datatype fake_process_status = FpRunning | FpExited | FpFailed | FpStopped

record fake_process =
  fp_runtimeId :: string
  fp_status :: fake_process_status
  fp_exitCode :: "int option"
  fp_stdout :: string
  fp_stderr :: string

record fake_process_result =
  nr_status :: fake_process_status
  nr_exitCode :: "int option"
  nr_stdout :: "string option"
  nr_stderr :: "string option"

record fake =
  fk_acquireCalls :: "(compute_spec \<times> backend_reference option \<times> backend_reference) list"
  fk_releaseCalls :: "(backend_reference \<times> release_disposition \<times> backend_reference option) list"
  fk_destroyCalls :: "backend_reference list"
  fk_startProcessCalls :: "(string \<times> string option \<times> string option) list"
  fk_runCommandCalls :: "(string \<times> string option \<times> string option) list"
  fk_writeFileCalls :: "string list"
  fk_movePathCalls :: "(string \<times> string) list"
  fk_deletePathCalls :: "string list"
  fk_nextWriteFileError :: "compute_error option"
  fk_nextMovePathError :: "compute_error option"
  fk_nextDeletePathError :: "compute_error option"
  fk_nextPathExistsError :: "compute_error option"
  fk_nextReleaseError :: "compute_error option"
  fk_nextAcquireError :: "compute_error option"
  fk_nextProcessResult :: "fake_process_result option"
  fk_runtimeSeq :: nat
  fk_processSeq :: nat
  fk_runtimes :: "(string \<times> fake_runtime) list"
  fk_processes :: "(string \<times> fake_process) list"
  fk_blindInspectPaths :: "string list"
  fk_lastDomainAllowlist :: "string list option"
  fk_lastEnv :: "(string \<times> string) list option"

definition set_add :: "'a \<Rightarrow> 'a list \<Rightarrow> 'a list" where
  "set_add x xs = (if x \<in> set xs then xs else xs @ [x])"

definition fake_id :: string where "fake_id = ''fake''"

section \<open>References\<close>

definition runtimeReference :: "string \<Rightarrow> backend_reference" where
  "runtimeReference runtimeId = \<lparr>br_provider = fake_id, br_version = 1,
     br_payload = [(''kind'', ''runtime''), (''runtimeId'', runtimeId)]\<rparr>"

definition recoveryReference :: "string \<Rightarrow> backend_reference" where
  "recoveryReference runtimeId = \<lparr>br_provider = fake_id, br_version = 1,
     br_payload = [(''kind'', ''recovery''), (''runtimeId'', runtimeId)]\<rparr>"

definition processReference :: "string \<Rightarrow> string \<Rightarrow> backend_reference" where
  "processReference runtimeId processId = \<lparr>br_provider = fake_id, br_version = 1,
     br_payload = [(''kind'', ''process''), (''runtimeId'', runtimeId), (''processId'', processId)]\<rparr>"

definition payload :: "backend_reference \<Rightarrow> compute_error + backend_payload" where
  "payload r =
     (if br_provider r \<noteq> fake_id \<or> br_version r \<noteq> 1
      then Inl (ComputeError CeRuntimeMissing ''fake_runtime_reference_invalid'')
      else case (map_of (br_payload r) ''kind'', map_of (br_payload r) ''runtimeId'') of
        (Some kind, Some i) \<Rightarrow> Inr \<lparr>bp_kind = kind, bp_runtimeId = i,
          bp_processId = map_of (br_payload r) ''processId''\<rparr>
      | _ \<Rightarrow> Inl (ComputeError CeRuntimeMissing ''fake_runtime_reference_invalid''))"

definition runtimeId :: "backend_reference \<Rightarrow> string \<Rightarrow> compute_error + string" where
  "runtimeId r kind =
     (case payload r of Inl e \<Rightarrow> Inl e
      | Inr p \<Rightarrow> if bp_kind p \<noteq> kind
          then Inl (ComputeError CeRuntimeMissing ''fake_runtime_reference_invalid'')
          else Inr (bp_runtimeId p))"

definition referenceRuntimeId :: "backend_reference \<Rightarrow> compute_error + string" where
  "referenceRuntimeId r =
     (case payload r of Inl e \<Rightarrow> Inl e
      | Inr p \<Rightarrow> if bp_kind p \<noteq> ''runtime'' \<and> bp_kind p \<noteq> ''recovery''
          then Inl (ComputeError CeRuntimeMissing ''fake_runtime_reference_invalid'')
          else Inr (bp_runtimeId p))"

definition processId :: "backend_reference \<Rightarrow> compute_error + string" where
  "processId r =
     (case payload r of Inl e \<Rightarrow> Inl e
      | Inr p \<Rightarrow>
          (case bp_processId p of
             None \<Rightarrow> Inl (ComputeError CeProcessMissing ''fake_process_reference_invalid'')
           | Some i \<Rightarrow> if bp_kind p \<noteq> ''process''
               then Inl (ComputeError CeProcessMissing ''fake_process_reference_invalid'')
               else Inr i))"

definition activeRuntimeId :: "backend_reference \<Rightarrow> fake \<Rightarrow> compute_error + string" where
  "activeRuntimeId r s =
     (case runtimeId r ''runtime'' of Inl e \<Rightarrow> Inl e
      | Inr i \<Rightarrow>
          (case map_of (fk_runtimes s) i of
             None \<Rightarrow> Inl (ComputeError CeRuntimeMissing ''fake_runtime_not_found'')
           | Some rt \<Rightarrow> if fr_status rt \<noteq> FkReady
               then Inl (ComputeError CeRuntimeMissing ''fake_sandbox_suspended'')
               else Inr i))"

text \<open>\<open>this.runtime(this.activeRuntimeId(runtime))\<close>.\<close>

definition activeRuntime :: "backend_reference \<Rightarrow> fake \<Rightarrow> compute_error + string \<times> fake_runtime" where
  "activeRuntime r s =
     (case activeRuntimeId r s of Inl e \<Rightarrow> Inl e
      | Inr i \<Rightarrow>
          (case map_of (fk_runtimes s) i of
             None \<Rightarrow> Inl (ComputeError CeRuntimeMissing ''fake_runtime_not_found'')
           | Some rt \<Rightarrow> Inr (i, rt)))"

definition set_runtime :: "string \<Rightarrow> fake_runtime \<Rightarrow> fake \<Rightarrow> fake" where
  "set_runtime i rt s = s\<lparr>fk_runtimes := AList.update i rt (fk_runtimes s)\<rparr>"

definition removeRuntime :: "string \<Rightarrow> fake \<Rightarrow> fake" where
  "removeRuntime i s = s\<lparr>fk_runtimes := AList.delete i (fk_runtimes s),
     fk_processes := filter (\<lambda>(_, p). fp_runtimeId p \<noteq> i) (fk_processes s)\<rparr>"

section \<open>Lifecycle\<close>

definition fresh_runtime :: "string \<Rightarrow> fake_runtime" where
  "fresh_runtime workspaceRoot = \<lparr>fr_status = FkReady,
     fr_directories = set_add workspaceRoot (set_add ''/tmp'' (set_add ''/'' [])),
     fr_files = [], fr_fileMimes = [], fr_symlinks = []\<rparr>"

definition fake_runtime_id :: "nat \<Rightarrow> string \<Rightarrow> string" where
  "fake_runtime_id n env = ''fake_runtime_'' @ nat_digits n @ ''_'' @ env"

definition acquire ::
    "compute_spec \<Rightarrow> backend_reference option \<Rightarrow> fake \<Rightarrow> fake \<times> (compute_error + backend_reference)" where
  "acquire spec recovery s =
     (case fk_nextAcquireError s of
        Some e \<Rightarrow> (s\<lparr>fk_nextAcquireError := None\<rparr>, Inl e)
      | None \<Rightarrow>
          (let s1 = s\<lparr>fk_lastEnv := Some (cs_env spec),
                      fk_lastDomainAllowlist := cs_allowedHosts spec\<rparr>
           in case recovery of
                Some rec \<Rightarrow>
                  (case runtimeId rec ''recovery'' of
                     Inl e \<Rightarrow> (s1, Inl e)
                   | Inr i \<Rightarrow>
                       (case map_of (fk_runtimes s1) i of
                          None \<Rightarrow> (s1, Inl (ComputeError CeRecoveryFailed ''fake_recovery_not_found''))
                        | Some rt \<Rightarrow>
                            if fr_status rt \<noteq> FkSuspended
                            then (s1, Inl (ComputeError CeRecoveryFailed ''fake_recovery_not_found''))
                            else ((set_runtime i (rt\<lparr>fr_status := FkReady\<rparr>) s1)
                                    \<lparr>fk_acquireCalls := fk_acquireCalls s1
                                       @ [(spec, recovery, runtimeReference i)]\<rparr>,
                                  Inr (runtimeReference i))))
              | None \<Rightarrow>
                  (let n = fk_runtimeSeq s1 + 1;
                       i = fake_runtime_id n (cs_environmentId spec)
                   in ((set_runtime i (fresh_runtime (cs_workspaceRoot spec)) s1)
                         \<lparr>fk_runtimeSeq := n,
                          fk_acquireCalls := fk_acquireCalls s1
                            @ [(spec, None, runtimeReference i)]\<rparr>,
                       Inr (runtimeReference i)))))"

definition release_runtime ::
    "backend_reference \<Rightarrow> release_disposition \<Rightarrow> fake \<Rightarrow>
     fake \<times> (compute_error + backend_reference option)" where
  "release_runtime r disposition s =
     (case fk_nextReleaseError s of
        Some e \<Rightarrow> (s\<lparr>fk_nextReleaseError := None\<rparr>, Inl e)
      | None \<Rightarrow>
          (case activeRuntime r s of
             Inl e \<Rightarrow> (s, Inl e)
           | Inr (i, rt) \<Rightarrow>
               if disposition = Discard
               then ((removeRuntime i s)\<lparr>fk_releaseCalls := fk_releaseCalls s @ [(r, disposition, None)]\<rparr>,
                     Inr None)
               else ((set_runtime i (rt\<lparr>fr_status := FkSuspended\<rparr>) s)
                       \<lparr>fk_releaseCalls := fk_releaseCalls s
                          @ [(r, disposition, Some (recoveryReference i))]\<rparr>,
                     Inr (Some (recoveryReference i)))))"

definition destroy :: "backend_reference \<Rightarrow> fake \<Rightarrow> fake \<times> (compute_error + unit)" where
  "destroy r s =
     (let s1 = s\<lparr>fk_destroyCalls := fk_destroyCalls s @ [r]\<rparr> in
      case referenceRuntimeId r of
        Inl e \<Rightarrow> (s1, Inl e)
      | Inr i \<Rightarrow>
          if map_of (fk_runtimes s1) i = None
          then (s1, Inl (ComputeError CeRuntimeMissing ''fake_runtime_not_found''))
          else (removeRuntime i s1, Inr ()))"

section \<open>Processes\<close>

definition word_char :: "char \<Rightarrow> bool" where
  "word_char c \<longleftrightarrow> (byte c \<in> {48..57} \<or> byte c \<in> {65..90} \<or> byte c \<in> {97..122} \<or> byte c = 95)"

text \<open>\<open>/^\s*sleep\b/\<close>.\<close>

definition isSleep :: "string \<Rightarrow> bool" where
  "isSleep command =
     (let t = trimStart command in
      startsWith t ''sleep'' \<and> (case drop 5 t of [] \<Rightarrow> True | c # _ \<Rightarrow> \<not> word_char c))"

definition isEcho :: "string \<Rightarrow> bool" where
  "isEcho command = startsWith command ''echo ''"

definition echo_output :: "string \<Rightarrow> string" where
  "echo_output command = (if isEcho command then drop 5 command @ [LF] else [])"

record start_process_input =
  sp_command :: string
  sp_cwd :: "string option"
  sp_stdin :: "string option"
  sp_completionCallback :: "string option"

definition or_else :: "'a option \<Rightarrow> 'a \<Rightarrow> 'a" where
  "or_else x d = (case x of None \<Rightarrow> d | Some y \<Rightarrow> y)"

definition configured_process :: "fake_process_result option \<Rightarrow> string \<Rightarrow> start_process_input \<Rightarrow> fake_process" where
  "configured_process configured i input =
     \<lparr>fp_runtimeId = i,
      fp_status = (case configured of Some c \<Rightarrow> nr_status c
        | None \<Rightarrow> if isSleep (sp_command input) then FpRunning else FpExited),
      fp_exitCode = (case Option.bind configured nr_exitCode of Some c \<Rightarrow> Some c
        | None \<Rightarrow> if isSleep (sp_command input) then None else Some 0),
      fp_stdout = or_else (Option.bind configured nr_stdout) (echo_output (sp_command input)) @
        or_else (sp_stdin input) [],
      fp_stderr = or_else (Option.bind configured nr_stderr) []\<rparr>"

definition startProcess ::
    "backend_reference \<Rightarrow> start_process_input \<Rightarrow> fake \<Rightarrow>
     fake \<times> (compute_error + backend_reference \<times> fake_process)" where
  "startProcess r input s =
     (case activeRuntimeId r s of
        Inl e \<Rightarrow> (s, Inl e)
      | Inr i \<Rightarrow>
          (let n = fk_processSeq s + 1;
               pid = ''fake_proc_'' @ nat_digits n;
               p = configured_process (fk_nextProcessResult s) i input
           in (s\<lparr>fk_startProcessCalls := fk_startProcessCalls s
                   @ [(sp_command input, sp_cwd input, sp_completionCallback input)],
                 fk_processSeq := n, fk_nextProcessResult := None,
                 fk_processes := AList.update pid p (fk_processes s)\<rparr>,
               Inr (processReference i pid, p))))"

definition runCommand ::
    "backend_reference \<Rightarrow> string \<Rightarrow> string option \<Rightarrow> string option \<Rightarrow> fake \<Rightarrow>
     fake \<times> (compute_error + run_command_result)" where
  "runCommand r command cwd stdin s =
     (let s1 = s\<lparr>fk_runCommandCalls := fk_runCommandCalls s @ [(command, cwd, stdin)]\<rparr> in
      case activeRuntimeId r s1 of
        Inl e \<Rightarrow> (s1, Inl e)
      | Inr _ \<Rightarrow>
          (let configured = fk_nextProcessResult s1
           in (s1\<lparr>fk_nextProcessResult := None\<rparr>,
               Inr \<lparr>rc_exited = (or_else (Option.bind configured nr_exitCode) 0 = 0),
                    rc_exitCode = or_else (Option.bind configured nr_exitCode) 0,
                    rc_stdout = or_else (Option.bind configured nr_stdout) (echo_output command),
                    rc_stderr = or_else (Option.bind configured nr_stderr) [],
                    rc_stdoutTruncated = False\<rparr>)))"

definition requireProcess ::
    "string \<Rightarrow> backend_reference \<Rightarrow> fake \<Rightarrow> compute_error + string \<times> fake_process" where
  "requireProcess i proc s =
     (case processId proc of Inl e \<Rightarrow> Inl e
      | Inr pid \<Rightarrow>
          if pid = [] then Inl (ComputeError CeProcessMissing ''fake_process_handle_invalid'')
          else (case map_of (fk_processes s) pid of
             None \<Rightarrow> Inl (ComputeError CeProcessMissing ''fake_process_not_found'')
           | Some p \<Rightarrow> if fp_runtimeId p \<noteq> i
               then Inl (ComputeError CeProcessMissing ''fake_process_not_found'')
               else Inr (pid, p)))"

definition getProcessStatus ::
    "backend_reference \<Rightarrow> backend_reference \<Rightarrow> fake \<Rightarrow>
     compute_error + fake_process_status \<times> int option" where
  "getProcessStatus r proc s =
     (case activeRuntimeId r s of Inl e \<Rightarrow> Inl e
      | Inr i \<Rightarrow> (case requireProcess i proc s of Inl e \<Rightarrow> Inl e
          | Inr (_, p) \<Rightarrow> Inr (fp_status p, fp_exitCode p)))"

definition readProcessOutput ::
    "backend_reference \<Rightarrow> backend_reference \<Rightarrow> fake \<Rightarrow> compute_error + string \<times> string" where
  "readProcessOutput r proc s =
     (case activeRuntimeId r s of Inl e \<Rightarrow> Inl e
      | Inr i \<Rightarrow> (case requireProcess i proc s of Inl e \<Rightarrow> Inl e
          | Inr (_, p) \<Rightarrow> Inr (fp_stdout p, fp_stderr p)))"

definition stopProcess ::
    "backend_reference \<Rightarrow> backend_reference \<Rightarrow> fake \<Rightarrow>
     fake \<times> (compute_error + fake_process_status \<times> int option)" where
  "stopProcess r proc s =
     (case activeRuntimeId r s of Inl e \<Rightarrow> (s, Inl e)
      | Inr i \<Rightarrow> (case requireProcess i proc s of Inl e \<Rightarrow> (s, Inl e)
          | Inr (pid, p) \<Rightarrow>
              (let p' = (if fp_status p = FpRunning
                         then p\<lparr>fp_status := FpStopped, fp_exitCode := Some 130\<rparr> else p)
               in (s\<lparr>fk_processes := AList.update pid p' (fk_processes s)\<rparr>,
                   Inr (fp_status p', fp_exitCode p')))))"

definition finishProcess ::
    "backend_reference \<Rightarrow> fake_process_status \<Rightarrow> int \<Rightarrow> fake \<Rightarrow> fake \<times> (compute_error + unit)" where
  "finishProcess proc status exitCode s =
     (case processId proc of Inl e \<Rightarrow> (s, Inl e)
      | Inr pid \<Rightarrow>
          if pid = [] then (s, Inl (ComputeError CeProcessMissing ''fake_process_handle_invalid''))
          else (case map_of (fk_processes s) pid of
             None \<Rightarrow> (s, Inl (ComputeError CeProcessMissing ''fake_process_not_found''))
           | Some p \<Rightarrow>
               (s\<lparr>fk_processes := AList.update pid (p\<lparr>fp_status := status,
                    fp_exitCode := Some exitCode\<rparr>) (fk_processes s)\<rparr>, Inr ())))"

section \<open>Files\<close>

text \<open>\<open>lastIndexOf("/")\<close> cuts a path into what precedes its last slash and what follows.\<close>

definition before_last_slash :: "string \<Rightarrow> string option" where
  "before_last_slash path =
     (if CHR ''/'' \<in> set path
      then Some (rev (tl (dropWhile (\<lambda>c. c \<noteq> CHR ''/'') (rev path)))) else None)"

definition parentPath :: "string \<Rightarrow> string" where
  "parentPath path = (case before_last_slash path of None \<Rightarrow> ''/''
     | Some p \<Rightarrow> if p = [] then ''/'' else p)"

definition baseName :: "string \<Rightarrow> string" where
  "baseName path = rev (takeWhile (\<lambda>c. c \<noteq> CHR ''/'') (rev path))"

text \<open>
  The loop of \<open>createParents\<close> walks up to the first existing directory. It stops because "/" is one;
  the fuel, one step more than the path has characters, is enough to reach it
  (\<open>missingParents_enough\<close>). Without a "/" directory the code would not return.
\<close>

fun missingParents :: "nat \<Rightarrow> string list \<Rightarrow> string \<Rightarrow> string list" where
  "missingParents 0 directories path = []"
| "missingParents (Suc n) directories path =
     (if path \<in> set directories then []
      else path # missingParents n directories (parentPath path))"

definition createParents :: "string \<Rightarrow> string list \<Rightarrow> string list" where
  "createParents path directories =
     fold set_add (rev (missingParents (length path + 1) directories path)) directories"

definition inspectPath :: "backend_reference \<Rightarrow> string \<Rightarrow> fake \<Rightarrow> compute_error + path_info option" where
  "inspectPath r path s =
     (case activeRuntime r s of Inl e \<Rightarrow> Inl e
      | Inr (i, rt) \<Rightarrow>
          if i @ [NUL] @ path \<in> set (fk_blindInspectPaths s) then Inr None
          else (case map_of (fr_symlinks rt) path of
             Some target \<Rightarrow>
               if target \<noteq> []
               then Inr (Some \<lparr>pi_type = SymlinkT, pi_size = 0, pi_resolvedPath = target\<rparr>)
               else (case map_of (fr_files rt) path of
                  Some f \<Rightarrow> Inr (Some \<lparr>pi_type = FileT, pi_size = length f, pi_resolvedPath = path\<rparr>)
                | None \<Rightarrow> Inr (if path \<in> set (fr_directories rt)
                    then Some \<lparr>pi_type = DirectoryT, pi_size = 0, pi_resolvedPath = path\<rparr> else None))
           | None \<Rightarrow>
               (case map_of (fr_files rt) path of
                  Some f \<Rightarrow> Inr (Some \<lparr>pi_type = FileT, pi_size = length f, pi_resolvedPath = path\<rparr>)
                | None \<Rightarrow> Inr (if path \<in> set (fr_directories rt)
                    then Some \<lparr>pi_type = DirectoryT, pi_size = 0, pi_resolvedPath = path\<rparr> else None))))"

definition pathExists :: "backend_reference \<Rightarrow> string \<Rightarrow> fake \<Rightarrow> fake \<times> (compute_error + bool)" where
  "pathExists r path s =
     (case fk_nextPathExistsError s of
        Some e \<Rightarrow> (s\<lparr>fk_nextPathExistsError := None\<rparr>, Inl e)
      | None \<Rightarrow> (s, (case activeRuntime r s of Inl e \<Rightarrow> Inl e
          | Inr (i, rt) \<Rightarrow> Inr (map_of (fr_files rt) path \<noteq> None \<or> path \<in> set (fr_directories rt) \<or>
              map_of (fr_symlinks rt) path \<noteq> None))))"

definition listDirectory :: "backend_reference \<Rightarrow> string \<Rightarrow> fake \<Rightarrow> compute_error + dir_entry list" where
  "listDirectory r path s =
     (case activeRuntime r s of Inl e \<Rightarrow> Inl e
      | Inr (i, rt) \<Rightarrow>
          if path \<notin> set (fr_directories rt)
          then Inl (ComputeError CeProviderTransient ''fake_directory_not_found'')
          else Inr (
            map (\<lambda>p. \<lparr>de_name = baseName p, de_type = PathT FileT\<rparr>)
              (filter (\<lambda>p. parentPath p = path) (map fst (fr_files rt))) @
            map (\<lambda>p. \<lparr>de_name = baseName p, de_type = PathT DirectoryT\<rparr>)
              (filter (\<lambda>p. p \<noteq> path \<and> parentPath p = path) (fr_directories rt)) @
            map (\<lambda>p. \<lparr>de_name = baseName p, de_type = PathT SymlinkT\<rparr>)
              (filter (\<lambda>p. parentPath p = path) (map fst (fr_symlinks rt)))))"

definition readFile_mime ::
    "backend_reference \<Rightarrow> string \<Rightarrow> nat \<Rightarrow> fake \<Rightarrow> compute_error + string \<times> string option" where
  "readFile_mime r path maxBytes s =
     (case activeRuntime r s of Inl e \<Rightarrow> Inl e
      | Inr (i, rt) \<Rightarrow>
          (case map_of (fr_files rt) path of
             None \<Rightarrow> Inl (ComputeError CeProviderTransient ''fake_file_not_found'')
           | Some f \<Rightarrow>
               if length f > maxBytes then Inl (ComputeError CeFileTooLarge ''sandbox_file_too_large'')
               else Inr (f, case map_of (fr_fileMimes rt) path of None \<Rightarrow> None
                      | Some m \<Rightarrow> if m = [] then None else Some m)))"

definition readFile :: "backend_reference \<Rightarrow> string \<Rightarrow> nat \<Rightarrow> fake \<Rightarrow> compute_error + string" where
  "readFile r path maxBytes s = map_sum id fst (readFile_mime r path maxBytes s)"

definition writeFile ::
    "backend_reference \<Rightarrow> string \<Rightarrow> string \<Rightarrow> bool \<Rightarrow> bool \<Rightarrow> fake \<Rightarrow> fake \<times> (compute_error + unit)" where
  "writeFile r path bytes parents overwrite s =
     (let s1 = s\<lparr>fk_writeFileCalls := fk_writeFileCalls s @ [path]\<rparr> in
      case fk_nextWriteFileError s1 of
        Some e \<Rightarrow> (s1\<lparr>fk_nextWriteFileError := None\<rparr>, Inl e)
      | None \<Rightarrow>
          (case activeRuntime r s1 of
             Inl e \<Rightarrow> (s1, Inl e)
           | Inr (i, rt) \<Rightarrow>
               (let parent = parentPath path;
                    rt1 = (if parents
                           then rt\<lparr>fr_directories := createParents parent (fr_directories rt)\<rparr> else rt)
                in if parent \<notin> set (fr_directories rt1)
                   then (set_runtime i rt1 s1,
                         Inl (ComputeError CeProviderTransient ''fake_parent_directory_missing''))
                   else if \<not> overwrite \<and> map_of (fr_files rt1) path \<noteq> None
                   then (set_runtime i rt1 s1,
                         Inl (ComputeError CeProviderTransient ''fake_file_already_exists''))
                   else (set_runtime i
                           (rt1\<lparr>fr_files := AList.update path bytes (fr_files rt1)\<rparr>) s1,
                         Inr ()))))"

definition createDirectory :: "backend_reference \<Rightarrow> string \<Rightarrow> fake \<Rightarrow> fake \<times> (compute_error + unit)" where
  "createDirectory r path s =
     (case activeRuntime r s of
        Inl e \<Rightarrow> (s, Inl e)
      | Inr (i, rt) \<Rightarrow>
          (set_runtime i (rt\<lparr>fr_directories :=
             set_add path (createParents (parentPath path) (fr_directories rt))\<rparr>) s, Inr ()))"

definition remove_within :: "string \<Rightarrow> fake_runtime \<Rightarrow> fake_runtime" where
  "remove_within path rt =
     rt\<lparr>fr_files := filter (\<lambda>(f, _). \<not> within path f) (fr_files rt),
        fr_directories := filter (\<lambda>d. \<not> within path d) (fr_directories rt)\<rparr>"

definition deletePath :: "backend_reference \<Rightarrow> string \<Rightarrow> fake \<Rightarrow> fake \<times> (compute_error + unit)" where
  "deletePath r path s =
     (let s1 = s\<lparr>fk_deletePathCalls := fk_deletePathCalls s @ [path]\<rparr> in
      case fk_nextDeletePathError s1 of
        Some e \<Rightarrow> (s1\<lparr>fk_nextDeletePathError := None\<rparr>, Inl e)
      | None \<Rightarrow>
          (case activeRuntime r s1 of
             Inl e \<Rightarrow> (s1, Inl e)
           | Inr (i, rt) \<Rightarrow> (set_runtime i (remove_within path rt) s1, Inr ())))"

text \<open>Moving a directory renames every path within it.\<close>

definition move_directory :: "string \<Rightarrow> string \<Rightarrow> fake_runtime \<Rightarrow> fake_runtime" where
  "move_directory src dst rt =
     (let directories = filter (within src) (fr_directories rt);
          files = filter (\<lambda>(f, _). below src f) (fr_files rt);
          rename = (\<lambda>p. dst @ drop (length src) p)
      in rt\<lparr>fr_directories := fold (\<lambda>d. set_add (rename d)) directories
              (filter (\<lambda>d. \<not> within src d) (fr_directories rt)),
            fr_files := fold (\<lambda>(f, c). AList.update (rename f) c) files
              (filter (\<lambda>(f, _). \<not> below src f) (fr_files rt))\<rparr>)"

definition movePath ::
    "backend_reference \<Rightarrow> string \<Rightarrow> string \<Rightarrow> bool \<Rightarrow> fake \<Rightarrow> fake \<times> (compute_error + unit)" where
  "movePath r src dst overwrite s =
     (let s1 = s\<lparr>fk_movePathCalls := fk_movePathCalls s @ [(src, dst)]\<rparr> in
      case fk_nextMovePathError s1 of
        Some e \<Rightarrow> (s1\<lparr>fk_nextMovePathError := None\<rparr>, Inl e)
      | None \<Rightarrow>
          (case activeRuntime r s1 of
             Inl e \<Rightarrow> (s1, Inl e)
           | Inr (i, rt) \<Rightarrow>
               (let sourceFile = map_of (fr_files rt) src;
                    sourceDirectory = (src \<in> set (fr_directories rt))
                in if sourceFile = None \<and> \<not> sourceDirectory
                   then (s1, Inl (ComputeError CeProviderTransient ''fake_move_source_not_found''))
                   else if \<not> overwrite \<and>
                     (map_of (fr_files rt) dst \<noteq> None \<or> dst \<in> set (fr_directories rt))
                   then (s1, Inl (ComputeError CeProviderTransient ''fake_move_destination_exists''))
                   else case deletePath r dst s1 of
                     (s2, Inl e) \<Rightarrow> (s2, Inl e)
                   | (s2, Inr _) \<Rightarrow>
                       (let rt1 = remove_within dst rt;
                            rt2 = rt1\<lparr>fr_directories := createParents (parentPath dst) (fr_directories rt1)\<rparr>
                        in (set_runtime i
                              (case sourceFile of
                                 Some f \<Rightarrow> rt2\<lparr>fr_files := AList.delete src (AList.update dst f (fr_files rt2))\<rparr>
                               | None \<Rightarrow> move_directory src dst rt2) s2,
                            Inr ())))))"

section \<open>The loop over parents\<close>

lemma length_before_last_slash:
  "before_last_slash path = Some p \<Longrightarrow> length p < length path"
proof -
  assume "before_last_slash path = Some p"
  then have p: "p = rev (tl (dropWhile (\<lambda>c. c \<noteq> CHR ''/'') (rev path)))" and "path \<noteq> []"
    by (auto simp: before_last_slash_def split: if_splits)
  have "length (dropWhile (\<lambda>c. c \<noteq> CHR ''/'') (rev path)) \<le> length path"
    using length_dropWhile_le [of _ "rev path"] by simp
  with p \<open>path \<noteq> []\<close> show "length p < length path" by (cases path) auto
qed

lemma parentPath_shorter: "parentPath path = ''/'' \<or> length (parentPath path) < length path"
  using length_before_last_slash by (auto simp: parentPath_def split: option.splits)

text \<open>More fuel than the path has characters makes no difference.\<close>

lemma missingParents_enough:
  assumes "''/'' \<in> set directories" and "length path < n" and "length path < m"
  shows "missingParents n directories path = missingParents m directories path"
  using assms(2,3)
proof (induction n arbitrary: m path)
  case (Suc n)
  then obtain k where m: "m = Suc k" by (cases m) auto
  show ?case
  proof (cases "parentPath path = ''/''")
    case True
    then have "missingParents j directories (parentPath path) = []" for j
      using assms(1) by (cases j) auto
    then show ?thesis by (simp add: m)
  next
    case False
    then have "length (parentPath path) < length path" using parentPath_shorter by blast
    with Suc.prems m have "length (parentPath path) < n" "length (parentPath path) < k" by linarith+
    then have "missingParents n directories (parentPath path) =
        missingParents k directories (parentPath path)" by (rule Suc.IH)
    then show ?thesis by (simp add: m)
  qed
qed simp

lemma set_fold_set_add: "set (fold set_add xs ys) = set ys \<union> set xs"
  by (induction xs arbitrary: ys) (auto simp: set_add_def)

lemma createParents_keeps: "set directories \<subseteq> set (createParents path directories)"
  by (simp add: createParents_def set_fold_set_add)

lemma createParents_path: "path \<in> set (createParents path directories)"
  by (simp add: createParents_def set_fold_set_add)

section \<open>The fake keeps the contract\<close>

definition fake_view :: "backend_reference \<Rightarrow> fake \<Rightarrow> string \<Rightarrow> string option" where
  "fake_view r s p =
     (case activeRuntime r s of Inl _ \<Rightarrow> None | Inr (_, rt) \<Rightarrow> map_of (fr_files rt) p)"

lemma activeRuntime_cong: "fk_runtimes s = fk_runtimes t \<Longrightarrow> activeRuntime r s = activeRuntime r t"
  by (simp add: activeRuntime_def activeRuntimeId_def split: sum.splits)

lemma activeRuntime_logs [simp]:
  "activeRuntime r (s\<lparr>fk_writeFileCalls := a\<rparr>) = activeRuntime r s"
  "activeRuntime r (s\<lparr>fk_deletePathCalls := a\<rparr>) = activeRuntime r s"
  "activeRuntime r (s\<lparr>fk_movePathCalls := b\<rparr>) = activeRuntime r s"
  "activeRuntime r (s\<lparr>fk_nextWriteFileError := c\<rparr>) = activeRuntime r s"
  "activeRuntime r (s\<lparr>fk_nextDeletePathError := c\<rparr>) = activeRuntime r s"
  "activeRuntime r (s\<lparr>fk_nextMovePathError := c\<rparr>) = activeRuntime r s"
  "activeRuntime r (s\<lparr>fk_nextPathExistsError := c\<rparr>) = activeRuntime r s"
  by (rule activeRuntime_cong; simp)+

lemma fake_view_logs [simp]:
  "fake_view r (s\<lparr>fk_writeFileCalls := a\<rparr>) = fake_view r s"
  "fake_view r (s\<lparr>fk_deletePathCalls := a\<rparr>) = fake_view r s"
  "fake_view r (s\<lparr>fk_movePathCalls := b\<rparr>) = fake_view r s"
  "fake_view r (s\<lparr>fk_nextWriteFileError := c\<rparr>) = fake_view r s"
  "fake_view r (s\<lparr>fk_nextDeletePathError := c\<rparr>) = fake_view r s"
  "fake_view r (s\<lparr>fk_nextMovePathError := c\<rparr>) = fake_view r s"
  "fake_view r (s\<lparr>fk_nextPathExistsError := c\<rparr>) = fake_view r s"
  by (simp_all add: fake_view_def fun_eq_iff)

lemma activeRuntime_Inr:
  "activeRuntime r s = Inr (i, rt) \<longleftrightarrow>
     runtimeId r ''runtime'' = Inr i \<and> map_of (fk_runtimes s) i = Some rt \<and> fr_status rt = FkReady"
  by (auto simp: activeRuntime_def activeRuntimeId_def split: sum.splits option.splits if_splits)

lemma activeRuntime_set:
  assumes "activeRuntime r s = Inr (i, rt)" and "fr_status rt' = fr_status rt"
  shows "activeRuntime r (set_runtime i rt' s) = Inr (i, rt')"
  using assms by (auto simp: activeRuntime_Inr set_runtime_def update_conv')

lemma fake_view_set:
  assumes "activeRuntime r s = Inr (i, rt)" and "fr_status rt' = fr_status rt"
  shows "fake_view r (set_runtime i rt' s) = map_of (fr_files rt')"
  using activeRuntime_set [OF assms] by (simp add: fake_view_def fun_eq_iff)

lemma fake_view_active: "activeRuntime r s = Inr (i, rt) \<Longrightarrow> fake_view r s = map_of (fr_files rt)"
  by (simp add: fake_view_def fun_eq_iff)

lemma map_of_filter_key:
  "map_of (filter (\<lambda>(k, _). P k) xs) q = (if P q then map_of xs q else None)"
  by (induction xs) auto

lemma remove_within_simps [simp]:
  "fr_status (remove_within p rt) = fr_status rt"
  "map_of (fr_files (remove_within p rt)) = (\<lambda>q. if within p q then None else map_of (fr_files rt) q)"
  by (auto simp: remove_within_def map_of_filter_key [where P = "\<lambda>k. \<not> within p k"])

lemma below_irrefl [simp]: "\<not> below p p"
  by (auto simp: below_def dest: prefix_length_le)

lemma within_refl [simp]: "within p p"
  by (simp add: within_def)

lemma writeFile_view:
  assumes "writeFile r p b parents ow s = (s', res)"
  shows "case res of
      Inl _ \<Rightarrow> fake_view r s' = fake_view r s
    | Inr _ \<Rightarrow> fake_view r s' = (fake_view r s)(p \<mapsto> b) \<and> (\<not> ow \<longrightarrow> fake_view r s p = None)"
proof (cases "fk_nextWriteFileError s")
  case (Some e)
  with assms show ?thesis by (auto simp: writeFile_def Let_def)
next
  case None
  let ?s1 = "s\<lparr>fk_writeFileCalls := fk_writeFileCalls s @ [p]\<rparr>"
  show ?thesis
  proof (cases "activeRuntime r s")
    case (Inl e)
    with assms None show ?thesis by (auto simp: writeFile_def Let_def)
  next
    case (Inr a)
    obtain i rt where a: "a = (i, rt)" by (cases a)
    have act: "activeRuntime r ?s1 = Inr (i, rt)" using Inr a by simp
    have v: "fake_view r s = map_of (fr_files rt)" using Inr a by (simp add: fake_view_active)
    show ?thesis
      using assms None
      by (auto simp: writeFile_def Let_def Inr a fake_view_set [OF act] v update_conv'
          split: if_splits)
  qed
qed

lemma deletePath_view:
  assumes "deletePath r p s = (s', res)"
  shows "case res of
      Inl _ \<Rightarrow> fake_view r s' = fake_view r s
    | Inr _ \<Rightarrow> fake_view r s' = (\<lambda>q. if within p q then None else fake_view r s q)"
proof (cases "fk_nextDeletePathError s")
  case (Some e)
  with assms show ?thesis by (auto simp: deletePath_def Let_def)
next
  case None
  let ?s1 = "s\<lparr>fk_deletePathCalls := fk_deletePathCalls s @ [p]\<rparr>"
  show ?thesis
  proof (cases "activeRuntime r s")
    case (Inl e)
    with assms None show ?thesis by (auto simp: deletePath_def Let_def)
  next
    case (Inr a)
    obtain i rt where a: "a = (i, rt)" by (cases a)
    have act: "activeRuntime r ?s1 = Inr (i, rt)" using Inr a by simp
    have v: "fake_view r s = map_of (fr_files rt)" using Inr a by (simp add: fake_view_active)
    show ?thesis
      using assms None by (auto simp: deletePath_def Let_def Inr a fake_view_set [OF act] v fun_eq_iff)
  qed
qed

text \<open>A move, up to the point where the destination has been cleared.\<close>

lemma movePath_cases:
  assumes "movePath r p q ow s = (s', res)" and "activeRuntime r s = Inr (i, rt)"
  shows "(\<exists>e. res = Inl e \<and> fake_view r s' = fake_view r s) \<or>
    (\<exists>s2 ds. res = Inr () \<and> activeRuntime r s2 = Inr (i, remove_within q rt) \<and>
       s' = set_runtime i
         (case map_of (fr_files rt) p of
            Some f \<Rightarrow> (remove_within q rt)\<lparr>fr_directories := ds,
              fr_files := AList.delete p (AList.update q f (fr_files (remove_within q rt)))\<rparr>
          | None \<Rightarrow> move_directory p q ((remove_within q rt)\<lparr>fr_directories := ds\<rparr>)) s2)"
proof -
  let ?s1 = "s\<lparr>fk_movePathCalls := fk_movePathCalls s @ [(p, q)]\<rparr>"
  let ?s2 = "?s1\<lparr>fk_deletePathCalls := fk_deletePathCalls s @ [q]\<rparr>"
  have act: "activeRuntime r ?s1 = Inr (i, rt)" "activeRuntime r ?s2 = Inr (i, rt)"
    using assms(2) by simp_all
  have del: "deletePath r q ?s1 = (case fk_nextDeletePathError s of
      Some e \<Rightarrow> (?s2\<lparr>fk_nextDeletePathError := None\<rparr>, Inl e)
    | None \<Rightarrow> (set_runtime i (remove_within q rt) ?s2, Inr ()))"
    by (simp add: deletePath_def Let_def assms(2) split: option.split)
  have cleared: "activeRuntime r (set_runtime i (remove_within q rt) ?s2) = Inr (i, remove_within q rt)"
    using activeRuntime_set [OF act(2), of "remove_within q rt"] by simp
  show ?thesis
    using assms(1) cleared
    by (auto simp: movePath_def Let_def assms(2) del split: option.splits if_splits)
qed

lemma map_of_fold_update:
  "t \<notin> (\<lambda>(f, c). k f) ` set xs \<Longrightarrow>
     map_of (fold (\<lambda>(f, c). AList.update (k f) c) xs ys) t = map_of ys t"
  by (induction xs arbitrary: ys) (auto simp: update_conv')

lemma move_directory_view:
  assumes "\<not> within p t" and "\<not> within q t"
  shows "map_of (fr_files (move_directory p q rt)) t = map_of (fr_files rt) t"
proof -
  have "q @ drop (length p) f \<noteq> t" if "below p f" for f
    using that assms(2) by (auto simp: below_def within_def prefix_def)
  then have "t \<notin> (\<lambda>(f, c). q @ drop (length p) f) ` set (filter (\<lambda>(f, _). below p f) (fr_files rt))"
    by auto
  from map_of_fold_update [OF this] show ?thesis
    using assms(1)
    by (simp add: move_directory_def Let_def map_of_filter_key [where P = "\<lambda>k. \<not> below p k"] within_def)
qed

lemma move_directory_status [simp]: "fr_status (move_directory p q rt) = fr_status rt"
  by (simp add: move_directory_def Let_def)

interpretation fake_files: compute_files "pathExists r" "readFile r" "writeFile r" "deletePath r"
  "movePath r" "fake_view r" for r
proof unfold_locales
  fix p q t b n s s' e u parents ow res
  show "fake_view r (fst (pathExists r p s)) = fake_view r s"
    by (simp add: pathExists_def split: option.splits)
  show "fake_view r s p = None" if "pathExists r p s = (s', Inr False)"
    using that by (auto simp: pathExists_def fake_view_def split: option.splits sum.splits)
  show "fake_view r s p = Some b \<and> length b \<le> n" if "readFile r p n s = Inr b"
    using that by (auto simp: readFile_def readFile_mime_def fake_view_def
        split: option.splits sum.splits if_splits)
  show "fake_view r s' = (fake_view r s)(p \<mapsto> b) \<and> (\<not> ow \<longrightarrow> fake_view r s p = None)"
    if "writeFile r p b parents ow s = (s', Inr u)"
    using writeFile_view [OF that] by simp
  show "fake_view r s' q = fake_view r s q"
    if "writeFile r p b parents ow s = (s', Inl e)"
    using writeFile_view [OF that] by simp
  show "fake_view r s' = (\<lambda>q. if within p q then None else fake_view r s q)"
    if "deletePath r p s = (s', Inr u)"
    using deletePath_view [OF that] by simp
  show "fake_view r s' q = fake_view r s q" if "deletePath r p s = (s', Inl e)"
    using deletePath_view [OF that] by simp
  show "fake_view r s' = (\<lambda>t. if t = q then Some b
      else if t = p \<or> below q t then None else fake_view r s t)"
    if mv: "movePath r p q ow s = (s', Inr u)" and src: "fake_view r s p = Some b" and "p \<noteq> q"
  proof -
    obtain i rt where act: "activeRuntime r s = Inr (i, rt)"
      using src by (auto simp: fake_view_def split: sum.splits prod.splits)
    have f: "map_of (fr_files rt) p = Some b" using src act by (simp add: fake_view_active)
    obtain s2 ds where "activeRuntime r s2 = Inr (i, remove_within q rt)"
      and "s' = set_runtime i ((remove_within q rt)\<lparr>fr_directories := ds,
        fr_files := AList.delete p (AList.update q b (fr_files (remove_within q rt)))\<rparr>) s2"
      using movePath_cases [OF mv act] f by auto
    then show ?thesis
      using \<open>p \<noteq> q\<close> act
      by (auto simp: fake_view_set fake_view_active delete_conv' update_conv' within_def fun_eq_iff)
  qed
  show "fake_view r s' t = fake_view r s t"
    if mv: "movePath r p q ow s = (s', res)" and out: "\<not> within p t" "\<not> within q t"
  proof (cases "activeRuntime r s")
    case (Inl e')
    with mv show ?thesis by (auto simp: movePath_def Let_def split: option.splits)
  next
    case (Inr a)
    obtain i rt where a: "a = (i, rt)" by (cases a)
    with Inr have act: "activeRuntime r s = Inr (i, rt)" by simp
    from movePath_cases [OF mv act] show ?thesis
    proof (elim disjE exE conjE)
      fix s2 ds
      assume act2: "activeRuntime r s2 = Inr (i, remove_within q rt)"
        and s': "s' = set_runtime i
         (case map_of (fr_files rt) p of
            Some f \<Rightarrow> (remove_within q rt)\<lparr>fr_directories := ds,
              fr_files := AList.delete p (AList.update q f (fr_files (remove_within q rt)))\<rparr>
          | None \<Rightarrow> move_directory p q ((remove_within q rt)\<lparr>fr_directories := ds\<rparr>)) s2"
      have "t \<noteq> p" "t \<noteq> q" using out by auto
      then show ?thesis
        using out
        by (cases "map_of (fr_files rt) p")
          (simp_all add: s' fake_view_set [OF act2] fake_view_active [OF act] delete_conv' update_conv'
            move_directory_view move_directory_status)
    qed simp
  qed
qed

definition fake_backend :: "backend_reference \<Rightarrow> fake file_backend" where
  "fake_backend r = \<lparr>fb_inspect = inspectPath r, fb_exists = pathExists r, fb_read = readFile r,
     fb_write = writeFile r, fb_delete = deletePath r, fb_move = movePath r\<rparr>"

lemma fake_backend_contract: "file_backend (fake_backend r) (fake_view r)"
  unfolding file_backend_def by (simp add: fake_backend_def fake_files.compute_files_axioms)

section \<open>The life of a runtime\<close>

lemma runtimeId_reference [simp]:
  "runtimeId (runtimeReference i) ''runtime'' = Inr i"
  "runtimeId (recoveryReference i) ''recovery'' = Inr i"
  "runtimeId (recoveryReference i) ''runtime'' =
     Inl (ComputeError CeRuntimeMissing ''fake_runtime_reference_invalid'')"
  by (simp_all add: runtimeId_def payload_def runtimeReference_def recoveryReference_def)

definition new_fake :: fake where
  "new_fake = \<lparr>fk_acquireCalls = [], fk_releaseCalls = [], fk_destroyCalls = [],
     fk_startProcessCalls = [], fk_runCommandCalls = [], fk_writeFileCalls = [],
     fk_movePathCalls = [], fk_deletePathCalls = [], fk_nextWriteFileError = None,
     fk_nextMovePathError = None, fk_nextDeletePathError = None, fk_nextPathExistsError = None,
     fk_nextReleaseError = None, fk_nextAcquireError = None, fk_nextProcessResult = None,
     fk_runtimeSeq = 0, fk_processSeq = 0, fk_runtimes = [], fk_processes = [],
     fk_blindInspectPaths = [], fk_lastDomainAllowlist = None, fk_lastEnv = None\<rparr>"

text \<open>Suspending a runtime and acquiring it again from the recovery reference gives back the
  same runtime with every file as it was, and while it is suspended nothing can be read from it;
  discarding it loses it for good.\<close>

theorem suspend_resume_roundtrip:
  assumes "activeRuntime r s = Inr (i, rt)"
    and "release_runtime r Recoverable s = (s1, Inr (Some rec))"
    and "fk_nextAcquireError s = None"
    and "acquire spec (Some rec) s1 = (s2, res)"
  shows "res = Inr (runtimeReference i) \<and> fake_view (runtimeReference i) s2 = fake_view r s \<and>
    (\<forall>p n. readFile r p n s1 = Inl (ComputeError CeRuntimeMissing ''fake_sandbox_suspended'')) \<and>
    (\<forall>s3. release_runtime r Discard s = (s3, Inr None) \<longrightarrow>
       (\<forall>spec'. snd (acquire spec' (Some rec) s3) =
          Inl (ComputeError CeRecoveryFailed ''fake_recovery_not_found'')))"
proof -
  have r: "runtimeId r ''runtime'' = Inr i" "map_of (fk_runtimes s) i = Some rt"
    "fr_status rt = FkReady"
    using assms(1) by (auto simp: activeRuntime_Inr)
  have s1: "s1 = (set_runtime i (rt\<lparr>fr_status := FkSuspended\<rparr>) s)\<lparr>fk_releaseCalls :=
      fk_releaseCalls s @ [(r, Recoverable, Some (recoveryReference i))]\<rparr>"
    and rec: "rec = recoveryReference i"
    using assms(1,2) by (auto simp: release_runtime_def split: option.splits)
  have m1: "map_of (fk_runtimes s1) i = Some (rt\<lparr>fr_status := FkSuspended\<rparr>)"
    and e1: "fk_nextAcquireError s1 = None"
    using assms(3) by (simp_all add: s1 set_runtime_def update_conv')
  have res: "res = Inr (runtimeReference i)"
    and m2: "map_of (fk_runtimes s2) i = Some (rt\<lparr>fr_status := FkReady\<rparr>)"
    using assms(4) rec m1 by (auto simp: acquire_def e1 Let_def set_runtime_def update_conv')
  have "activeRuntime (runtimeReference i) s2 = Inr (i, rt\<lparr>fr_status := FkReady\<rparr>)"
    using m2 by (simp add: activeRuntime_Inr)
  then have view: "fake_view (runtimeReference i) s2 = fake_view r s"
    using fake_view_active [OF assms(1)] fake_view_active [of "runtimeReference i" s2] by simp
  have suspended: "readFile r p n s1 = Inl (ComputeError CeRuntimeMissing ''fake_sandbox_suspended'')"
    for p n
    using r m1 by (simp add: readFile_def readFile_mime_def activeRuntime_def activeRuntimeId_def)
  have "snd (acquire spec' (Some rec) s3) = Inl (ComputeError CeRecoveryFailed ''fake_recovery_not_found'')"
    if "release_runtime r Discard s = (s3, Inr None)" for s3 spec'
  proof -
    have "map_of (fk_runtimes s3) i = None" "fk_nextAcquireError s3 = None"
      using that assms(1,3)
      by (auto simp: release_runtime_def removeRuntime_def delete_conv' split: option.splits)
    then show ?thesis by (simp add: acquire_def rec Let_def)
  qed
  with res view suspended show ?thesis by blast
qed

definition demo_spec :: compute_spec where
  "demo_spec = \<lparr>cs_environmentId = ''e'', cs_profile = ''small'', cs_workspaceRoot = ''/workspace'',
     cs_env = [], cs_maxProcessRuntimeMs = 0, cs_allowedHosts = None\<rparr>"

definition demo_ref :: backend_reference where
  "demo_ref = runtimeReference (fake_runtime_id 1 ''e'')"

definition demo_fake :: fake where
  "demo_fake = fst (writeFile demo_ref ''/workspace/a'' ''hi'' True False
     (fst (acquire demo_spec None new_fake)))"

lemmas fake_simps = demo_fake_def demo_ref_def demo_spec_def new_fake_def acquire_def Let_def
  fake_runtime_id_def set_runtime_def fresh_runtime_def set_add_def writeFile_def activeRuntime_def
  activeRuntimeId_def runtimeId_def payload_def runtimeReference_def recoveryReference_def
  fake_id_def parentPath_def before_last_slash_def createParents_def release_runtime_def
  removeRuntime_def

lemma demo_fake_active: "\<exists>rt. activeRuntime demo_ref demo_fake = Inr (fake_runtime_id 1 ''e'', rt) \<and>
    map_of (fr_files rt) ''/workspace/a'' = Some ''hi''"
  by (simp add: fake_simps)

theorem suspend_resume_roundtrip_witness:
  "\<exists>s1 rec. release_runtime demo_ref Recoverable demo_fake = (s1, Inr (Some rec)) \<and>
     fake_view demo_ref (fst (acquire demo_spec (Some rec) s1)) ''/workspace/a'' = Some ''hi''"
proof -
  obtain rt where act: "activeRuntime demo_ref demo_fake = Inr (fake_runtime_id 1 ''e'', rt)"
    and stored: "map_of (fr_files rt) ''/workspace/a'' = Some ''hi''"
    using demo_fake_active by blast
  have no_errors: "fk_nextAcquireError demo_fake = None" "fk_nextReleaseError demo_fake = None"
    by (simp_all add: fake_simps)
  obtain s1 rec where rel: "release_runtime demo_ref Recoverable demo_fake = (s1, Inr (Some rec))"
    using act no_errors by (auto simp: release_runtime_def)
  from suspend_resume_roundtrip [OF act rel no_errors(1) surjective_pairing]
  have "fake_view demo_ref (fst (acquire demo_spec (Some rec) s1)) = fake_view demo_ref demo_fake"
    by (simp add: demo_ref_def)
  with rel stored fake_view_active [OF act] show ?thesis by auto
qed

end
