(* ===== verification/Sandbox_Probes.thy ===== *)
theory Sandbox_Probes
  imports Fake_Backend
begin

text \<open>
  Two probes of a live sandbox whose wrong answer destroys work: the generation nonce
  (\<open>src/src/compute/generation.ts\<close>) and the cleanliness of the workspace
  (\<open>workspace-cleanliness.ts\<close>). The reason of a failed probe is represented by its cause, not by
  its wording.
\<close>

section \<open>The generation nonce\<close>

definition GENERATION_DIR :: string where "GENERATION_DIR = ''/tmp''"
definition GENERATION_NAME :: string where "GENERATION_NAME = ''.nadi-generation''"

definition GENERATION_PATH :: string where
  "GENERATION_PATH = GENERATION_DIR @ ''/'' @ GENERATION_NAME"

definition GENERATION_MAX_BYTES :: nat where "GENERATION_MAX_BYTES = 256"

datatype generation_probe = GpFound string | GpAbsent | GpUnreadable

definition writeGeneration ::
    "(string \<Rightarrow> string \<Rightarrow> bool \<Rightarrow> bool \<Rightarrow> 's \<Rightarrow> 's \<times> (compute_error + unit)) \<Rightarrow> string \<Rightarrow> 's \<Rightarrow>
     's \<times> (compute_error + unit)" where
  "writeGeneration wr nonce s = wr GENERATION_PATH nonce True True s"

definition readGeneration ::
    "(string \<Rightarrow> 's \<Rightarrow> compute_error + dir_entry list) \<Rightarrow>
     (string \<Rightarrow> nat \<Rightarrow> 's \<Rightarrow> compute_error + string) \<Rightarrow> 's \<Rightarrow> generation_probe" where
  "readGeneration ls rd s =
     (case ls GENERATION_DIR s of
        Inl _ \<Rightarrow> GpUnreadable
      | Inr entries \<Rightarrow>
          (case find (\<lambda>e. de_name e = GENERATION_NAME) entries of
             None \<Rightarrow> GpAbsent
           | Some entry \<Rightarrow>
               if de_type entry \<noteq> PathT FileT then GpUnreadable
               else (case rd GENERATION_PATH GENERATION_MAX_BYTES s of
                  Inl _ \<Rightarrow> GpUnreadable
                | Inr bytes \<Rightarrow>
                    (let nonce = trim (decode_utf8 bytes)
                     in if length nonce > 0 then GpFound nonce else GpUnreadable))))"

section \<open>Cleanliness\<close>

record dirty_repo =
  dr_path :: string
  dr_changes :: "string list"
  dr_unpushed :: int

datatype probe_fault =
    FieldCount nat string
  | EmptyRepoPath string
  | BadUnpushedCount string
  | BadNoRepoLine string
  | BadNoRepoMarker string
  | NoRecognizableOutput

datatype probe_reason =
    ProbeExited int string
  | ProbeTruncated
  | ProbeUnparseable probe_fault
  | ProbeThrew string

datatype workspace_cleanliness =
    WsClean
  | WsDirty "dirty_repo list"
  | WsNoRepo bool
  | WsProbeFailed probe_reason

definition TAB :: char where "TAB = CHR 0x09"
definition UNIT_SEPARATOR :: char where "UNIT_SEPARATOR = CHR 0x1F"

definition is_digit :: "char \<Rightarrow> bool" where
  "is_digit c \<longleftrightarrow> byte c \<in> {48..57}"

fun digits_value :: "nat \<Rightarrow> string \<Rightarrow> nat" where
  "digits_value acc [] = acc"
| "digits_value acc (c # cs) = digits_value (10 * acc + (byte c - 48)) cs"

text \<open>\<open>Number.parseInt(s, 10)\<close>; \<open>None\<close> is \<open>NaN\<close>.\<close>

definition parseInt10 :: "string \<Rightarrow> int option" where
  "parseInt10 s =
     (let t = trimStart s;
          negative = startsWith t ''-'';
          u = (if negative \<or> startsWith t ''+'' then drop 1 t else t);
          ds = takeWhile is_digit u
      in if ds = [] then None
         else Some (if negative then - int (digits_value 0 ds) else int (digits_value 0 ds)))"

definition parse_unpushed :: "string \<Rightarrow> int option" where
  "parse_unpushed raw =
     (case parseInt10 raw of None \<Rightarrow> None
      | Some n \<Rightarrow> if n < 0 \<or> int_string n \<noteq> raw then None else Some n)"

definition status_changes :: "string \<Rightarrow> string list" where
  "status_changes statusRaw =
     (if length statusRaw > 0
      then filter (\<lambda>entry. length entry > 0) (js_split UNIT_SEPARATOR statusRaw) else [])"

definition parseRepoLine :: "string \<Rightarrow> probe_fault + dirty_repo option" where
  "parseRepoLine line =
     (case js_split TAB line of
        [path, statusRaw, unpushedRaw] \<Rightarrow>
          if path = [] then Inl (EmptyRepoPath line)
          else (case parse_unpushed unpushedRaw of
             None \<Rightarrow> Inl (BadUnpushedCount unpushedRaw)
           | Some unpushed \<Rightarrow>
               (let changes = status_changes statusRaw in
                if changes = [] \<and> unpushed = 0 then Inr None
                else Inr (Some \<lparr>dr_path = path, dr_changes = changes, dr_unpushed = unpushed\<rparr>)))
      | parts \<Rightarrow> Inl (FieldCount (length parts) line))"

definition parseNoRepoLine :: "string \<Rightarrow> probe_fault + bool" where
  "parseNoRepoLine line =
     (case js_split TAB line of
        [marker, value] \<Rightarrow>
          if marker \<noteq> ''NOREPO'' then Inl (BadNoRepoLine line)
          else if value = ''FILES'' then Inr True
          else if value = ''EMPTY'' then Inr False
          else Inl (BadNoRepoMarker value)
      | _ \<Rightarrow> Inl (BadNoRepoLine line))"

text \<open>The fold over the lines: the dirty repositories, how many were clean, the last NOREPO answer.\<close>

fun parse_probe_lines ::
    "string list \<Rightarrow> dirty_repo list \<Rightarrow> nat \<Rightarrow> bool option \<Rightarrow>
     probe_fault + dirty_repo list \<times> nat \<times> bool option" where
  "parse_probe_lines [] dirty clean noRepo = Inr (dirty, clean, noRepo)"
| "parse_probe_lines (line # lines) dirty clean noRepo =
     (if startsWith line (''NOREPO'' @ [TAB])
      then (case parseNoRepoLine line of Inl f \<Rightarrow> Inl f
        | Inr hasFiles \<Rightarrow> parse_probe_lines lines dirty clean (Some hasFiles))
      else (case parseRepoLine line of Inl f \<Rightarrow> Inl f
        | Inr (Some d) \<Rightarrow> parse_probe_lines lines (dirty @ [d]) clean noRepo
        | Inr None \<Rightarrow> parse_probe_lines lines dirty (clean + 1) noRepo))"

definition parseProbeOutput :: "string \<Rightarrow> probe_fault + workspace_cleanliness" where
  "parseProbeOutput stdout =
     (case parse_probe_lines (filter (\<lambda>line. length line > 0) (js_split LF stdout)) [] 0 None of
        Inl f \<Rightarrow> Inl f
      | Inr (dirty, clean, noRepo) \<Rightarrow>
          if length dirty + clean > 0
          then (if length dirty > 0 then Inr (WsDirty dirty) else Inr WsClean)
          else (case noRepo of Some hasFiles \<Rightarrow> Inr (WsNoRepo hasFiles)
             | None \<Rightarrow> Inl NoRecognizableOutput))"

text \<open>\<open>exec\<close> either threw, or returned its exit code, output and the truncation flag.\<close>

definition probeWorkspaceCleanliness :: "string + run_command_result \<Rightarrow> workspace_cleanliness" where
  "probeWorkspaceCleanliness exec_result =
     (case exec_result of
        Inl message \<Rightarrow> WsProbeFailed (ProbeThrew message)
      | Inr result \<Rightarrow>
          if rc_exitCode result \<noteq> 0
          then WsProbeFailed (ProbeExited (rc_exitCode result)
            (if rc_stderr result \<noteq> [] then rc_stderr result
             else if rc_stdout result \<noteq> [] then rc_stdout result else ''no output''))
          else if rc_stdoutTruncated result then WsProbeFailed ProbeTruncated
          else (case parseProbeOutput (rc_stdout result) of
             Inl f \<Rightarrow> WsProbeFailed (ProbeUnparseable f)
           | Inr verdict \<Rightarrow> verdict))"

section \<open>What the script prints\<close>

text \<open>
  \<open>PROBE_SCRIPT\<close> prints one line per repository, \<open>printf '%s\t%s\t%s\n'\<close> of its path, its
  porcelain status with every newline turned into a unit separator, and its count of unpushed
  commits.
\<close>

record repo_report =
  rp_path :: string
  rp_status :: "string list"
  rp_unpushed :: nat

definition repo_line :: "repo_report \<Rightarrow> string" where
  "repo_line r = rp_path r @ [TAB] @ concat (map (\<lambda>l. l @ [UNIT_SEPARATOR]) (rp_status r)) @ [TAB]
     @ nat_digits (rp_unpushed r)"

definition probe_output :: "repo_report list \<Rightarrow> string" where
  "probe_output rs = concat (map (\<lambda>r. repo_line r @ [LF]) rs)"

definition plain_text :: "string \<Rightarrow> bool" where
  "plain_text l \<longleftrightarrow> l \<noteq> [] \<and> TAB \<notin> set l \<and> LF \<notin> set l \<and> UNIT_SEPARATOR \<notin> set l"

definition report_ok :: "repo_report \<Rightarrow> bool" where
  "report_ok r \<longleftrightarrow> plain_text (rp_path r) \<and> startsWith (rp_path r) ''/'' \<and>
     (\<forall>l \<in> set (rp_status r). plain_text l)"

definition report_dirty :: "repo_report \<Rightarrow> bool" where
  "report_dirty r \<longleftrightarrow> rp_status r \<noteq> [] \<or> rp_unpushed r > 0"

definition dirty_of :: "repo_report \<Rightarrow> dirty_repo" where
  "dirty_of r = \<lparr>dr_path = rp_path r, dr_changes = rp_status r, dr_unpushed = int (rp_unpushed r)\<rparr>"

section \<open>Decimal numbers\<close>

lemma nat_digits_are_digits: "c \<in> set (nat_digits n) \<Longrightarrow> is_digit c"
proof (induction n rule: nat_digits.induct)
  case (1 n)
  have "is_digit (char_of (48 + k))" if "k < 10" for k :: nat
    using that by (simp add: is_digit_def byte_def)
  with 1 show ?case by (subst (asm) nat_digits.simps) (auto split: if_splits)
qed

lemma nat_digits_ne [simp]: "nat_digits n \<noteq> []"
  by (subst nat_digits.simps) simp

lemma digits_value_append: "digits_value a (xs @ ys) = digits_value (digits_value a xs) ys"
  by (induction a xs rule: digits_value.induct) simp_all

lemma digits_value_nat_digits: "digits_value 0 (nat_digits n) = n"
proof (induction n rule: nat_digits.induct)
  case (1 n)
  have byte_digit: "byte (char_of (48 + k)) - 48 = k" if "k < 10" for k :: nat
    using that by (simp add: byte_def)
  show ?case
  proof (cases "n < 10")
    case True
    then show ?thesis by (subst nat_digits.simps) (simp add: byte_digit)
  next
    case False
    then show ?thesis
      using 1 by (subst nat_digits.simps) (simp add: digits_value_append byte_digit)
  qed
qed

lemma is_digit_not_space: "is_digit c \<Longrightarrow> \<not> is_space c \<and> c \<noteq> CHR ''-'' \<and> c \<noteq> CHR ''+''"
  by (auto simp: is_digit_def is_space_def byte_def)

lemma parse_unpushed_digits: "parse_unpushed (nat_digits n) = Some (int n)"
proof -
  obtain d ds where d: "nat_digits n = d # ds" by (cases "nat_digits n") auto
  then have "is_digit d" using nat_digits_are_digits [of d n] by simp
  with d have plain: "trimStart (nat_digits n) = nat_digits n" "\<not> startsWith (nat_digits n) ''-''"
    "\<not> startsWith (nat_digits n) ''+''"
    using is_digit_not_space by (auto simp: trimStart_def)
  have all: "takeWhile is_digit (nat_digits n) = nat_digits n"
    using nat_digits_are_digits by simp
  show ?thesis
    by (simp add: parse_unpushed_def parseInt10_def Let_def digits_value_nat_digits int_string_def
        plain all)
qed

section \<open>Reading back what the script prints\<close>

lemma js_split_terminated:
  "\<forall>l \<in> set ls. c \<notin> set l \<Longrightarrow> js_split c (concat (map (\<lambda>l. l @ [c]) ls)) = ls @ [[]]"
  by (induction ls) (simp_all add: js_split_append)

lemma special_chars: "TAB \<noteq> UNIT_SEPARATOR" "TAB \<noteq> LF" "UNIT_SEPARATOR \<noteq> LF"
  by (simp_all add: TAB_def UNIT_SEPARATOR_def LF_def)

lemma digits_plain: "TAB \<notin> set (nat_digits n) \<and> LF \<notin> set (nat_digits n)"
  using nat_digits_are_digits by (fastforce simp: is_digit_def TAB_def LF_def byte_def)

lemma parseRepoLine_repo_line:
  assumes "report_ok r"
  shows "parseRepoLine (repo_line r) = Inr (if report_dirty r then Some (dirty_of r) else None)"
    and "LF \<notin> set (repo_line r)" and "repo_line r \<noteq> []"
    and "\<not> startsWith (repo_line r) (''NOREPO'' @ [TAB])"
proof -
  let ?status = "concat (map (\<lambda>l. l @ [UNIT_SEPARATOR]) (rp_status r))"
  have plain: "\<forall>l \<in> set (rp_status r). plain_text l" "plain_text (rp_path r)"
    using assms by (auto simp: report_ok_def)
  then have "TAB \<notin> set (rp_path r)" "TAB \<notin> set ?status"
    using special_chars by (auto simp: plain_text_def)
  then have "js_split TAB (repo_line r) = [rp_path r, ?status, nat_digits (rp_unpushed r)]"
    using digits_plain by (simp add: repo_line_def js_split_append js_split_no_sep)
  moreover have "status_changes ?status = rp_status r"
  proof -
    have "js_split UNIT_SEPARATOR ?status = rp_status r @ [[]]"
      using plain(1) by (intro js_split_terminated) (auto simp: plain_text_def)
    moreover have "filter (\<lambda>l. l \<noteq> []) (rp_status r) = rp_status r"
      using plain(1) by (intro filter_True) (auto simp: plain_text_def)
    moreover have "rp_status r = [] \<longleftrightarrow> ?status = []" by (cases "rp_status r") auto
    ultimately show ?thesis by (simp add: status_changes_def)
  qed
  ultimately show "parseRepoLine (repo_line r) = Inr (if report_dirty r then Some (dirty_of r) else None)"
    using plain(2)
    by (simp add: parseRepoLine_def plain_text_def parse_unpushed_digits report_dirty_def dirty_of_def
        Let_def)
  show "LF \<notin> set (repo_line r)"
    using plain special_chars digits_plain by (auto simp: repo_line_def plain_text_def)
  show "repo_line r \<noteq> []" by (simp add: repo_line_def)
  obtain cs where "rp_path r = CHR ''/'' # cs" using assms by (auto simp: report_ok_def prefix_def)
  then show "\<not> startsWith (repo_line r) (''NOREPO'' @ [TAB])" by (simp add: repo_line_def)
qed

lemma parse_probe_lines_reports:
  "\<forall>r \<in> set rs. report_ok r \<Longrightarrow>
     parse_probe_lines (map repo_line rs) dirty clean noRepo =
       Inr (dirty @ map dirty_of (filter report_dirty rs),
            clean + length (filter (\<lambda>r. \<not> report_dirty r) rs), noRepo)"
proof (induction rs arbitrary: dirty clean)
  case (Cons r rs)
  then show ?case using parseRepoLine_repo_line [of r] by simp
qed simp

lemma probe_output_lines:
  assumes "\<forall>r \<in> set rs. report_ok r"
  shows "filter (\<lambda>line. length line > 0) (js_split LF (probe_output rs)) = map repo_line rs"
proof -
  have "js_split LF (probe_output rs) = map repo_line rs @ [[]]"
    using js_split_terminated [of "map repo_line rs" LF] assms parseRepoLine_repo_line(2)
    by (simp add: probe_output_def comp_def)
  moreover have "filter (\<lambda>line. length line > 0) (map repo_line rs) = map repo_line rs"
    using assms parseRepoLine_repo_line(3) by (intro filter_True) auto
  ultimately show ?thesis by simp
qed

section \<open>Guarantees\<close>

text \<open>The probe reads back what the script prints: for any non-empty list of repositories it
  answers exactly the dirty ones with their changes and unpushed counts, and clean only when there
  is none.\<close>

theorem probe_reads_back:
  assumes "\<forall>r \<in> set rs. report_ok r" and "rs \<noteq> []"
    and "rc_exitCode result = 0" and "\<not> rc_stdoutTruncated result"
    and "rc_stdout result = probe_output rs"
  shows "probeWorkspaceCleanliness (Inr result) =
    (if \<exists>r \<in> set rs. report_dirty r then WsDirty (map dirty_of (filter report_dirty rs)) else WsClean)"
proof -
  have "length (filter report_dirty rs) + length (filter (\<lambda>r. \<not> report_dirty r) rs) = length rs"
    by (rule sum_length_filter_compl)
  then have "0 < length (filter report_dirty rs) + length (filter (\<lambda>r. \<not> report_dirty r) rs)"
    using assms(2) by simp
  moreover have "filter report_dirty rs = [] \<longleftrightarrow> \<not> (\<exists>r \<in> set rs. report_dirty r)"
    by (auto simp: filter_empty_conv)
  ultimately have "parseProbeOutput (probe_output rs) = Inr
      (if \<exists>r \<in> set rs. report_dirty r then WsDirty (map dirty_of (filter report_dirty rs)) else WsClean)"
    unfolding parseProbeOutput_def probe_output_lines [OF assms(1)]
      parse_probe_lines_reports [OF assms(1)] using assms(2) by simp
  then show ?thesis using assms(3-5) by (simp add: probeWorkspaceCleanliness_def)
qed

definition demo_reports :: "repo_report list" where
  "demo_reports = [\<lparr>rp_path = ''/workspace/a'', rp_status = [], rp_unpushed = 0\<rparr>,
     \<lparr>rp_path = ''/workspace/b'', rp_status = ['' M x''], rp_unpushed = 2\<rparr>]"

definition demo_result :: "string \<Rightarrow> run_command_result" where
  "demo_result out = \<lparr>rc_exited = True, rc_exitCode = 0, rc_stdout = out, rc_stderr = [], rc_stdoutTruncated = False\<rparr>"

theorem probe_reads_back_witness:
  "probeWorkspaceCleanliness (Inr (demo_result (probe_output demo_reports))) =
     WsDirty [\<lparr>dr_path = ''/workspace/b'', dr_changes = ['' M x''], dr_unpushed = 2\<rparr>]"
proof -
  have "\<forall>r \<in> set demo_reports. report_ok r"
    by (simp add: demo_reports_def report_ok_def plain_text_def TAB_def LF_def UNIT_SEPARATOR_def)
  from probe_reads_back [OF this, of "demo_result (probe_output demo_reports)"] show ?thesis
    by (simp add: demo_result_def demo_reports_def report_dirty_def dirty_of_def)
qed

lemma parse_probe_lines_clean:
  "parse_probe_lines ls dirty clean noRepo = Inr (dirty', clean', noRepo') \<Longrightarrow>
     (\<exists>added. dirty' = dirty @ added) \<and>
     (dirty' = dirty \<longrightarrow> (\<forall>l \<in> set ls. parseRepoLine l = Inr None \<or> parseNoRepoLine l \<in> range Inr)) \<and>
     (clean < clean' \<longrightarrow> (\<exists>l \<in> set ls. parseRepoLine l = Inr None))"
proof (induction ls arbitrary: dirty clean noRepo)
  case (Cons l ls)
  show ?case
  proof (cases "startsWith l (''NOREPO'' @ [TAB])")
    case True
    then obtain b where "parseNoRepoLine l = Inr b"
      "parse_probe_lines ls dirty clean (Some b) = Inr (dirty', clean', noRepo')"
      using Cons.prems by (auto split: sum.splits)
    with Cons.IH [OF this(2)] show ?thesis by auto
  next
    case False
    then obtain d where d: "parseRepoLine l = Inr d"
      using Cons.prems by (cases "parseRepoLine l") auto
    show ?thesis
    proof (cases d)
      case None
      with False d Cons.prems have "parse_probe_lines ls dirty (clean + 1) noRepo = Inr (dirty', clean', noRepo')"
        by simp
      with Cons.IH [OF this] d None show ?thesis by auto
    next
      case (Some x)
      with False d Cons.prems have "parse_probe_lines ls (dirty @ [x]) clean noRepo = Inr (dirty', clean', noRepo')"
        by simp
      with Cons.IH [OF this] show ?thesis by auto
    qed
  qed
qed simp



text \<open>A reset is never inferred from a failure: the generation probe answers \<open>absent\<close> exactly when
  the container answered the listing of the nonce's directory and no entry of it has the name.\<close>

theorem absent_only_if_listed:
  "readGeneration ls rd s = GpAbsent \<longleftrightarrow>
     (\<exists>entries. ls GENERATION_DIR s = Inr entries \<and>
        (\<forall>e \<in> set entries. de_name e \<noteq> GENERATION_NAME))"
proof (cases "ls GENERATION_DIR s")
  case (Inr entries)
  show ?thesis
  proof (cases "find (\<lambda>e. de_name e = GENERATION_NAME) entries")
    case None
    then have "\<forall>e \<in> set entries. de_name e \<noteq> GENERATION_NAME" by (simp add: find_None_iff)
    then show ?thesis by (simp add: readGeneration_def Inr None)
  next
    case (Some e)
    then have "e \<in> set entries" "de_name e = GENERATION_NAME" by (auto simp: find_Some_iff)
    then show ?thesis using Inr Some by (auto simp: readGeneration_def Let_def split: sum.splits)
  qed
qed (simp add: readGeneration_def)

theorem absent_only_if_listed_witness:
  "readGeneration (\<lambda>_ _. Inr [\<lparr>de_name = ''x'', de_type = PathT FileT\<rparr>]) (readFile demo_ref) demo_fake = GpAbsent \<and>
   readGeneration (\<lambda>_ _. Inl (compute_error CeProviderTransient)) (readFile demo_ref) demo_fake \<noteq> GpAbsent"
  by (simp add: absent_only_if_listed GENERATION_NAME_def)

lemma find_append_left: "find P xs = Some x \<Longrightarrow> find P (xs @ ys) = Some x"
  by (induction xs) auto

lemma generation_parent: "parentPath GENERATION_PATH = GENERATION_DIR"
  and generation_base: "baseName GENERATION_PATH = GENERATION_NAME"
  by (simp_all add: GENERATION_PATH_def GENERATION_DIR_def GENERATION_NAME_def parentPath_def
      before_last_slash_def baseName_def)

lemma createParents_existing: "path \<in> set directories \<Longrightarrow> createParents path directories = directories"
  by (simp add: createParents_def)

lemma printable_plain:
  assumes "\<forall>c \<in> set s. byte c \<in> {0x21..0x7E}"
  shows "trim (decode_utf8 s) = s"
proof -
  have "strip_bom s = s" using assms by (intro strip_bom_ascii) auto
  moreover have "valid_utf8 s" using assms by (intro valid_utf8_ascii) auto
  moreover have "trim s = s" using assms by (intro trim_id) (auto simp: is_space_def byte_def)
  ultimately show ?thesis by (simp add: decode_utf8_def replace_invalid_valid)
qed

text \<open>A nonce written to the fake's container is found again, whatever was there before, as long as
  the container has its \<open>/tmp\<close> and the nonce is printable ASCII of at most 256 bytes.\<close>

theorem generation_roundtrip:
  assumes "activeRuntime r s = Inr (i, rt)" and "GENERATION_DIR \<in> set (fr_directories rt)"
    and "fk_nextWriteFileError s = None"
    and "nonce \<noteq> []" and "length nonce \<le> 256" and "\<forall>c \<in> set nonce. byte c \<in> {0x21..0x7E}"
    and "writeGeneration (writeFile r) nonce s = (s', res)"
  shows "res = Inr () \<and> readGeneration (listDirectory r) (readFile r) s' = GpFound nonce"
proof -
  let ?s1 = "s\<lparr>fk_writeFileCalls := fk_writeFileCalls s @ [GENERATION_PATH]\<rparr>"
  let ?rt = "rt\<lparr>fr_files := AList.update GENERATION_PATH nonce (fr_files rt)\<rparr>"
  have s': "s' = set_runtime i ?rt ?s1" and res: "res = Inr ()"
    using assms(1-3,7)
    by (auto simp: writeGeneration_def writeFile_def Let_def generation_parent createParents_existing)
  have act: "activeRuntime r s' = Inr (i, ?rt)"
    unfolding s' using assms(1) by (intro activeRuntime_set [of _ _ _ rt]) simp_all
  let ?files = "map (\<lambda>p. \<lparr>de_name = baseName p, de_type = PathT FileT\<rparr>)
      (filter (\<lambda>p. parentPath p = GENERATION_DIR) (map fst (fr_files ?rt)))"
  have "GENERATION_PATH \<in> set (map fst (fr_files ?rt))"
    by (simp add: dom_update flip: dom_map_of_conv_image_fst) (simp add: update_conv')
  then have "GENERATION_PATH \<in> set (filter (\<lambda>p. parentPath p = GENERATION_DIR) (map fst (fr_files ?rt)))"
    using generation_parent by (simp del: set_map)
  then have "\<lparr>de_name = baseName GENERATION_PATH, de_type = PathT FileT\<rparr> \<in> set ?files"
    unfolding set_map [of _ "filter _ _"] by (rule image_eqI [OF refl])
  then have "\<exists>e \<in> set ?files. de_name e = GENERATION_NAME"
    by (rule bexI [rotated]) (simp add: generation_base)
  then obtain e where e: "find (\<lambda>e. de_name e = GENERATION_NAME) ?files = Some e"
    by (metis (mono_tags, lifting) find_None_iff option.exhaust)
  then have "de_type e = PathT FileT" by (auto simp: find_Some_iff)
  moreover obtain rest where "listDirectory r GENERATION_DIR s' = Inr (?files @ rest)"
    using act assms(2) by (simp add: listDirectory_def)
  moreover have "readFile r GENERATION_PATH GENERATION_MAX_BYTES s' = Inr nonce"
    using act assms(5)
    by (simp add: readFile_def readFile_mime_def update_conv' GENERATION_MAX_BYTES_def)
  ultimately show ?thesis
    using find_append_left [OF e] assms(4,6) res
    by (simp add: readGeneration_def printable_plain Let_def)
qed

theorem generation_roundtrip_witness:
  "readGeneration (listDirectory demo_ref) (readFile demo_ref)
     (fst (writeGeneration (writeFile demo_ref) ''n-1'' demo_fake)) = GpFound ''n-1''"
proof -
  obtain rt where act: "activeRuntime demo_ref demo_fake = Inr (fake_runtime_id 1 ''e'', rt)"
    using demo_fake_active by blast
  then have tmp: "GENERATION_DIR \<in> set (fr_directories rt)"
    by (auto simp: fake_simps GENERATION_DIR_def)
  have no_error: "fk_nextWriteFileError demo_fake = None" by (simp add: fake_simps)
  show ?thesis
    using generation_roundtrip [OF act tmp no_error _ _ _ surjective_pairing, of "''n-1''"]
    by (simp add: byte_def)
qed

end
