(* ===== verification/Service_State.thy ===== *)
theory Service_State
  imports Store_Machine Work_Ledger_Store Sandbox_Probes
begin

text \<open>
  \<open>ThreadComputeService\<close> (\<open>src/compute/thread-service.ts\<close>), its state and the pieces every
  operation shares: store writes, the quota gate, the one alarm, the generation probe and the teardown of
  processes. The rest of the class is in \<open>Runtime_Lifecycle\<close>, \<open>Watcher_Polling\<close> and \<open>Compute_Alarm\<close>.

  What the service is given (\<open>ThreadComputeServiceDeps\<close>) is the record \<open>deps\<close>: arbitrary actions
  on an arbitrary outside state \<open>'x\<close>, which holds the provider, the quota ledger, the scheduler and
  the clock. They may fail before, after or halfway through their effect. Each method runs to its end
  without another event of the Durable Object in between: two methods interleaved at an \<open>await\<close> are
  not modelled. Logging is left out.
\<close>

section \<open>The state of a service\<close>

text \<open>The lifecycle events reported, as event, transition and whether it succeeded.\<close>

datatype compute_event =
    LifecycleEvent string string bool
  | CommandEvent string string

datatype reminder_mode = Deferred | Proactive

record watcher_card =
  wk_title :: string
  wk_command :: string
  wk_processId :: string
  wk_outcome :: work_outcome
  wk_exitCode :: "int option"
  wk_outputTail :: "string option"

text \<open>
  The stores of the thread, the outside, the thread's single schedule (\<open>sv_alarm\<close>), and the fields of
  the instance. The last three record what was reported and which \<open>backend.release\<close> calls resolved.
\<close>

record 'x service =
  sv_db :: compute_db
  sv_ledger :: ledger
  sv_ext :: 'x
  sv_alarm :: "int option"
  sv_armCount :: nat
  sv_workspaceRootEnsured :: bool
  sv_acquisitionInFlight :: bool
  sv_events :: "compute_event list"
  sv_reminders :: "(string \<times> reminder_mode \<times> watcher_card option) list"
  sv_releases :: "(backend_reference \<times> release_disposition \<times> backend_reference option) list"

section \<open>What the service is given\<close>

record 'x runtime_backend =
  rb_id :: string
  rb_nativeIdleSuspend :: bool
  rb_acquire :: "compute_spec \<Rightarrow> backend_reference option \<Rightarrow> ('x, backend_reference) act"
  rb_release :: "backend_reference \<Rightarrow> release_disposition \<Rightarrow> ('x, backend_reference option) act"
  rb_destroy :: "backend_reference \<Rightarrow> ('x, unit) act"
  rb_createDirectory :: "backend_reference \<Rightarrow> string \<Rightarrow> ('x, unit) act"
  rb_writeFile :: "backend_reference \<Rightarrow> string \<Rightarrow> string \<Rightarrow> bool \<Rightarrow> bool \<Rightarrow> ('x, unit) act"
  rb_readFile :: "backend_reference \<Rightarrow> string \<Rightarrow> nat \<Rightarrow> 'x \<Rightarrow> compute_error + string"
  rb_listDirectory :: "backend_reference \<Rightarrow> string \<Rightarrow> 'x \<Rightarrow> compute_error + dir_entry list"
  rb_runCommand :: "(backend_reference \<Rightarrow> string \<Rightarrow> ('x, run_command_result) act) option"
  rb_backstopProbe :: "(backend_reference \<Rightarrow> string) option"
  rb_releaseHold :: "(backend_reference \<Rightarrow> string) option"
  rb_getProcessStatus ::
    "backend_reference \<Rightarrow> backend_reference \<Rightarrow> ('x, process_status \<times> int option) act"
  rb_readProcessOutput ::
    "backend_reference \<Rightarrow> backend_reference \<Rightarrow> ('x, string option \<times> string option) act"
  rb_stopProcess ::
    "backend_reference \<Rightarrow> backend_reference \<Rightarrow> stop_mode \<Rightarrow> ('x, process_status \<times> int option) act"

record 'x quota_gate =
  qg_admit :: "('x, unit) act"
  qg_refresh :: "('x, bool) act"
  qg_release :: "('x, unit) act"

text \<open>
  \<open>sd_sql\<close> runs before every write to the compute store and says whether SQLite accepts it.
  \<open>sd_probe\<close> and \<open>sd_onFreshRuntime\<close> call back into the thread, so they act on the whole service.
\<close>

record 'x deps =
  sd_backend :: "'x runtime_backend"
  sd_attachedRuntime :: "backend_reference option"
  sd_supportsProcessMonitor :: bool
  sd_provider :: string
  sd_providerConfig :: provider_config
  sd_resourceProfile :: resource_profile
  sd_allowedHosts :: "string list option"
  sd_idleTimeoutMs :: int
  sd_recoveryTtlMs :: int
  sd_maxProcessRuntimeMs :: int
  sd_acquireDeadlineMs :: int
  sd_monitorPollIntervalMs :: int
  sd_limits :: output_limits
  sd_environmentId :: string
  sd_env :: "(string \<times> string) list"
  sd_quota :: "'x quota_gate option"
  sd_schedule :: "int \<Rightarrow> ('x, unit) act"
  sd_cancelSchedule :: "('x, unit) act"
  sd_now :: "'x \<Rightarrow> int"
  sd_uuid :: "'x \<Rightarrow> string \<times> 'x"
  sd_sql :: "('x, unit) act"
  sd_reminder :: "string \<Rightarrow> reminder_mode \<Rightarrow> watcher_card option \<Rightarrow> ('x, unit) act"
  sd_hasBlockingWork :: "ledger \<Rightarrow> ('x, bool) act"
  sd_workHorizon :: "'x \<Rightarrow> ledger \<Rightarrow> int option"
  sd_markSandboxDirty :: "('x, unit) act"
  sd_isDeclaredClean :: "('x, bool) act"
  sd_probe :: "('x service, workspace_cleanliness) act"
  sd_onFreshRuntime :: "('x service, unit) act"

definition RECLAIM_MIN_IDLE_MS :: int where "RECLAIM_MIN_IDLE_MS = 60000"
definition DEFAULT_WATCH_TIMEOUT_MS :: int where "DEFAULT_WATCH_TIMEOUT_MS = 300000"
definition MAX_WATCH_TIMEOUT_MS :: int where "MAX_WATCH_TIMEOUT_MS = 3600000"
definition ACQUIRE_DEADLINE_MS :: int where "ACQUIRE_DEADLINE_MS = 25000"

section \<open>Calls\<close>

definition ext :: "('x, 'a) act \<Rightarrow> ('x service, 'a) act" where
  "ext m = on_part sv_ext (\<lambda>x s. s\<lparr>sv_ext := x\<rparr>) m"

text \<open>A write to the compute store.\<close>

definition dbw :: "'x deps \<Rightarrow> (compute_db, unit) act \<Rightarrow> ('x service, unit) act" where
  "dbw D m = andThen (ext (sd_sql D)) (\<lambda>_. on_part sv_db (\<lambda>d s. s\<lparr>sv_db := d\<rparr>) m)"

definition the_time :: "'x deps \<Rightarrow> 'x service \<Rightarrow> int" where
  "the_time D s = sd_now D (sv_ext s)"

definition timed :: "'x deps \<Rightarrow> (int \<Rightarrow> ('x service, 'a) act) \<Rightarrow> ('x service, 'a) act" where
  "timed D f = reading (the_time D) f"

definition on_state :: "(compute_state option \<Rightarrow> ('x service, 'a) act) \<Rightarrow> ('x service, 'a) act" where
  "on_state f = reading (\<lambda>s. getComputeState (sv_db s)) f"

text \<open>\<open>this.deps.quota?.admit()\<close>, \<open>refresh\<close>, \<open>release\<close>.\<close>

definition quotaAdmit :: "'x deps \<Rightarrow> ('x service, unit) act" where
  "quotaAdmit D = (case sd_quota D of None \<Rightarrow> ret () | Some q \<Rightarrow> ext (qg_admit q))"

definition quotaRefresh :: "'x deps \<Rightarrow> ('x service, unit) act" where
  "quotaRefresh D = (case sd_quota D of None \<Rightarrow> ret ()
     | Some q \<Rightarrow> andThen (ext (qg_refresh q)) (\<lambda>_. ret ()))"

definition releaseQuotaSlot :: "'x deps \<Rightarrow> ('x service, unit) act" where
  "releaseQuotaSlot D = (case sd_quota D of None \<Rightarrow> ret () | Some q \<Rightarrow> ext (qg_release q))"

definition remind ::
    "'x deps \<Rightarrow> string \<Rightarrow> reminder_mode \<Rightarrow> watcher_card option \<Rightarrow> ('x service, unit) act" where
  "remind D body mode about = andThen (ext (sd_reminder D body mode about))
     (\<lambda>_. changing (\<lambda>s. s\<lparr>sv_reminders := sv_reminders s @ [(body, mode, about)]\<rparr>))"

definition emitLifecycleEvent :: "string \<Rightarrow> string \<Rightarrow> bool \<Rightarrow> ('x service, unit) act" where
  "emitLifecycleEvent event transition success =
     changing (\<lambda>s. s\<lparr>sv_events := sv_events s @ [LifecycleEvent event transition success]\<rparr>)"

definition emitCommandEvent :: "string \<Rightarrow> string \<Rightarrow> ('x service, unit) act" where
  "emitCommandEvent event i =
     changing (\<lambda>s. s\<lparr>sv_events := sv_events s @ [CommandEvent event i]\<rparr>)"

section \<open>The alarm\<close>

text \<open>
  \<open>scheduleComputeEviction\<close> (\<open>src/agent/compute-tools.ts\<close>): the prior schedule is cancelled, then
  the new one made; if that throws there is none. \<open>cancelComputeEviction\<close>.
\<close>

definition setAlarm :: "'x deps \<Rightarrow> int \<Rightarrow> ('x service, unit) act" where
  "setAlarm D t = andThen (changing (sv_alarm_update (\<lambda>_. None))) (\<lambda>_.
     andThen (ext (sd_schedule D t)) (\<lambda>_. changing (sv_alarm_update (\<lambda>_. Some t))))"

definition clearAlarm :: "'x deps \<Rightarrow> ('x service, unit) act" where
  "clearAlarm D = andThen (ext (sd_cancelSchedule D)) (\<lambda>_. changing (sv_alarm_update (\<lambda>_. None)))"

definition armAlarm :: "'x deps \<Rightarrow> int option \<Rightarrow> ('x service, unit) act" where
  "armAlarm D releaseAt =
     reading (\<lambda>s. nextWakeAt (listWatchers (sv_db s)) releaseAt (sd_workHorizon D (sv_ext s) (sv_ledger s)))
       (\<lambda>wakeAt. case wakeAt of
          None \<Rightarrow> ret ()
        | Some t \<Rightarrow> andThen (setAlarm D t) (\<lambda>_. changing (sv_armCount_update Suc)))"

definition computeReleaseAt :: "'x deps \<Rightarrow> 'x service \<Rightarrow> int option" where
  "computeReleaseAt D s =
     map_option (\<lambda>c. cs_lastUsedAt c + sd_idleTimeoutMs D) (getComputeState (sv_db s))"

definition refreshWorkAlarm :: "'x deps \<Rightarrow> ('x service, unit) act" where
  "refreshWorkAlarm D = reading (computeReleaseAt D) (armAlarm D)"

definition refreshRelease :: "'x deps \<Rightarrow> int \<Rightarrow> ('x service, unit) act" where
  "refreshRelease D delayMs =
     (if sd_attachedRuntime D \<noteq> None then ret ()
      else andThen (quotaRefresh D) (\<lambda>_. timed D (\<lambda>now. armAlarm D (Some (now + delayMs)))))"

section \<open>Teardown\<close>

definition stopped_terminal :: "int \<Rightarrow> string \<Rightarrow> work_terminal" where
  "stopped_terminal now detail = \<lparr>t_outcome = OStopped, t_reason = RProcessStopped, t_at = now,
     t_detail = detail, t_actor = None, t_exitCode = None\<rparr>"

definition close_work :: "string \<Rightarrow> int \<Rightarrow> bool \<Rightarrow> string \<Rightarrow> 'x service \<Rightarrow> 'x service" where
  "close_work i now deliver detail s =
     (case terminalize i (stopped_terminal now detail) (sv_ledger s) of
        (l, closed) \<Rightarrow> s\<lparr>sv_ledger := if closed \<and> deliver then fst (markDelivered i now l) else l\<rparr>)"

definition stopRunningProcesses :: "'x deps \<Rightarrow> int \<Rightarrow> bool \<Rightarrow> string \<Rightarrow> ('x service, unit) act" where
  "stopRunningProcesses D now deliver detail =
     reading (\<lambda>s. listProcesses 1000 (sv_db s)) (forEach (\<lambda>p.
       if cp_status p \<noteq> PsRunning then ret ()
       else andThen (dbw D (updateProcess (cp_id p)
              (no_patch\<lparr>pp_status := Some PsStopped, pp_finishedAt := Some (Some now)\<rparr>)))
            (\<lambda>_. changing (close_work (cp_id p) now deliver detail))))"

definition clearWatchers :: "'x deps \<Rightarrow> ('x service, unit) act" where
  "clearWatchers D = reading (\<lambda>s. listWatchers (sv_db s)) (forEach (\<lambda>w.
     dbw D (changing (deleteWatcher (w_processId w)))))"

definition clearLifecycleState :: "'x deps \<Rightarrow> ('x service, unit) act" where
  "clearLifecycleState D = ext (sd_markSandboxDirty D)"

definition isRuntimeMissing :: "compute_error \<Rightarrow> bool" where
  "isRuntimeMissing e \<longleftrightarrow> error_code e = Some CeRuntimeMissing"

text \<open>\<open>try { await backend.destroy(ref) } catch (e) { if (!isRuntimeMissing(e)) throw e }\<close>.\<close>

definition destroyRuntime :: "'x deps \<Rightarrow> backend_reference \<Rightarrow> ('x service, unit) act" where
  "destroyRuntime D r = catching (ext (rb_destroy (sd_backend D) r))
     (\<lambda>e. if isRuntimeMissing e then ret () else raise e)"

definition LOST_COMPUTE_REMINDER :: string where
  "LOST_COMPUTE_REMINDER = ''The previous thread compute environment was missing from its backend, so stale local state was cleared. Future commands will run in a fresh environment. Files and running processes from the missing environment are gone, but previous command output remains available in this conversation.''"

definition EXPIRED_RECOVERY_REMINDER :: string where
  "EXPIRED_RECOVERY_REMINDER = ''The previous repository-work compute environment reached the end of its recovery window and was destroyed. The next command will run in a fresh sandbox.''"

definition RESTORED_COMPUTE_REMINDER :: string where
  "RESTORED_COMPUTE_REMINDER = ''The previous repository-work compute environment was restored. Continue from the retained checkout if relevant.''"

definition markRuntimeMissing :: "'x deps \<Rightarrow> ('x service, unit) act" where
  "markRuntimeMissing D = timed D (\<lambda>now.
     andThen (stopRunningProcesses D now True ''process stopped (environment no longer exists)'') (\<lambda>_.
     andThen (clearWatchers D) (\<lambda>_.
     andThen (dbw D (markAbsent now)) (\<lambda>_.
     andThen (releaseQuotaSlot D) (\<lambda>_.
     andThen (clearLifecycleState D) (\<lambda>_.
     andThen (clearAlarm D) (\<lambda>_.
     remind D LOST_COMPUTE_REMINDER Deferred None)))))))"

section \<open>The generation of the running container\<close>

definition isCurrentRuntime :: "backend_reference \<Rightarrow> 'x service \<Rightarrow> bool" where
  "isCurrentRuntime r s = (case getComputeState (sv_db s) of
       None \<Rightarrow> False
     | Some c \<Rightarrow> cs_status c = Active \<and> cs_runtimeRef c = Some r)"

definition randomUUID :: "'x deps \<Rightarrow> (string \<Rightarrow> ('x service, 'a) act) \<Rightarrow> ('x service, 'a) act" where
  "randomUUID D f s = (case sd_uuid D (sv_ext s) of (u, x) \<Rightarrow> f u (s\<lparr>sv_ext := x\<rparr>))"

definition writeNonce :: "'x deps \<Rightarrow> backend_reference \<Rightarrow> string \<Rightarrow> ('x service, unit) act" where
  "writeNonce D r nonce = ext (writeGeneration (rb_writeFile (sd_backend D) r) nonce)"

definition restoreGenerationAfterWipe ::
    "'x deps \<Rightarrow> backend_reference \<Rightarrow> int \<Rightarrow> ('x service, unit) act" where
  "restoreGenerationAfterWipe D r now = reading (isCurrentRuntime r) (\<lambda>current.
     if \<not> current then ret ()
     else randomUUID D (\<lambda>nonce.
       tryThen (writeNonce D r nonce)
         (\<lambda>_. reading (isCurrentRuntime r) (\<lambda>still.
            if \<not> still then ret () else dbw D (setGeneration (GenAbsent now) now)))
         (\<lambda>_. timed D (\<lambda>t. dbw D (setGeneration (GenKnown nonce) t)))))"

definition probeAndRecordGeneration ::
    "'x deps \<Rightarrow> backend_reference \<Rightarrow> int \<Rightarrow> ('x service, unit) act" where
  "probeAndRecordGeneration D r now =
     reading (\<lambda>s. readGeneration (rb_listDirectory (sd_backend D) r) (rb_readFile (sd_backend D) r) (sv_ext s))
       (\<lambda>probe. case probe of
          GpAbsent \<Rightarrow> restoreGenerationAfterWipe D r now
        | GpFound nonce \<Rightarrow> dbw D (setGeneration (GenKnown nonce) now)
        | GpUnreadable \<Rightarrow> dbw D (setGeneration GenUnknown now))"

definition refreshGeneration :: "'x deps \<Rightarrow> ('x service, unit) act" where
  "refreshGeneration D = on_state (\<lambda>state. case state of
       None \<Rightarrow> ret ()
     | Some c \<Rightarrow> (case cs_runtimeRef c of
           None \<Rightarrow> ret ()
         | Some r \<Rightarrow> if cs_status c \<noteq> Active then ret ()
             else timed D (probeAndRecordGeneration D r)))"

definition buildProcessWorkRow :: "string \<Rightarrow> int \<Rightarrow> 'x service \<Rightarrow> work_row" where
  "buildProcessWorkRow i now s = \<lparr>wr_id = i, wr_kind = KProcess, wr_startedAt = now,
     wr_lastAliveAt = now, wr_staleAfterMs = PROCESS_STALE_AFTER_MS,
     wr_deadlineAt = now + MAX_WATCH_TIMEOUT_MS,
     wr_generation = (case getGeneration (sv_db s) of None \<Rightarrow> UNKNOWN_GENERATION | Some n \<Rightarrow> n),
     wr_terminal = None, wr_deliveredAt = None, wr_clearedAt = None, wr_progress = None\<rparr>"

definition isComputeLive :: "'x service \<Rightarrow> bool" where
  "isComputeLive s = (case getComputeState (sv_db s) of
       None \<Rightarrow> False
     | Some c \<Rightarrow> (cs_status c = Active \<and> cs_runtimeRef c \<noteq> None) \<or>
                 (cs_status c = Recovering \<and> cs_recoveryRef c \<noteq> None))"

definition isComputeLiveOrAcquiring :: "'x service \<Rightarrow> bool" where
  "isComputeLiveOrAcquiring s \<longleftrightarrow> isComputeLive s \<or>
     map_option cs_status (getComputeState (sv_db s)) = Some Acquiring"

definition hasWatcher :: "string \<Rightarrow> 'x service \<Rightarrow> bool" where
  "hasWatcher i s \<longleftrightarrow> (\<exists>w \<in> set (listWatchers (sv_db s)). w_processId w = i)"

definition nextWatcherWakeAt :: "'x service \<Rightarrow> int option" where
  "nextWatcherWakeAt s = nextWakeAt (listWatchers (sv_db s)) None None"

definition processReapView :: "string \<Rightarrow> 'x service \<Rightarrow> (string \<times> string) option" where
  "processReapView i s = map_option
     (\<lambda>p. ((case cp_label p of Some l \<Rightarrow> if l = [] then cp_command p else l | None \<Rightarrow> cp_command p),
           cp_command p))
     (getProcess i (sv_db s))"

end
