(* ===== verification/Workspace_Paths.thy ===== *)
theory Workspace_Paths
  imports Compute_Backend
begin

text \<open>
  \<open>src/src/compute/files/path.ts\<close> and \<open>files/text.ts\<close>: how the file tools turn a path the model
  wrote into one inside \<open>/workspace\<close>, and bytes into text. \<open>posix_normalize\<close> is Node's
  \<open>posix.normalize\<close> of an absolute path.
\<close>

section \<open>Normalization\<close>

abbreviation slash :: char where "slash \<equiv> CHR ''/''"

definition WORKSPACE_ROOT :: string where
  "WORKSPACE_ROOT = ''/workspace''"

fun resolve_segments :: "string list \<Rightarrow> string list \<Rightarrow> string list" where
  "resolve_segments [] acc = rev acc"
| "resolve_segments (x # xs) acc =
     (if x = [] \<or> x = ''.'' then resolve_segments xs acc
      else if x = ''..'' then resolve_segments xs (tl acc)
      else resolve_segments xs (x # acc))"

definition posix_normalize :: "string \<Rightarrow> string" where
  "posix_normalize p =
     (let segs = resolve_segments (js_split slash p) [];
          trailing = (p \<noteq> [] \<and> last p = slash)
      in ''/'' @ js_join ''/'' segs @ (if trailing \<and> segs \<noteq> [] then ''/'' else []))"

definition posix_join_root :: "string \<Rightarrow> string" where
  "posix_join_root path = posix_normalize (WORKSPACE_ROOT @ ''/'' @ path)"

definition strip_trailing_slashes :: "string \<Rightarrow> string" where
  "strip_trailing_slashes s = rev (dropWhile (\<lambda>c. c = slash) (rev s))"

definition normalizeWorkspacePath :: "string \<Rightarrow> compute_error + string" where
  "normalizeWorkspacePath path =
     (if path = [] then Inl (compute_error CeInvalidPath)
      else if NUL \<in> set path then Inl (compute_error CeInvalidPath)
      else if startsWith path ''/'' then Inl (compute_error CeInvalidPath)
      else
        (let joined = posix_normalize (posix_join_root path);
             normalized = (if length joined > 1 then strip_trailing_slashes joined else joined)
         in if normalized \<noteq> WORKSPACE_ROOT \<and> \<not> startsWith normalized (WORKSPACE_ROOT @ ''/'')
            then Inl (compute_error CeInvalidPath)
            else Inr normalized))"

section \<open>Containment\<close>

fun extend_prefixes :: "string \<Rightarrow> string list \<Rightarrow> string list" where
  "extend_prefixes current [] = []"
| "extend_prefixes current (segment # segments) =
     (let next_prefix = current @ ''/'' @ segment
      in next_prefix # extend_prefixes next_prefix segments)"

definition workspacePrefixes :: "string \<Rightarrow> string list" where
  "workspacePrefixes normalized =
     (if normalized = WORKSPACE_ROOT then [WORKSPACE_ROOT]
      else WORKSPACE_ROOT # extend_prefixes WORKSPACE_ROOT
             (js_split slash (drop (length WORKSPACE_ROOT + 1) normalized)))"

definition resolvedPathContained :: "string \<Rightarrow> bool" where
  "resolvedPathContained resolvedPath \<longleftrightarrow>
     resolvedPath = WORKSPACE_ROOT \<or> startsWith resolvedPath (WORKSPACE_ROOT @ ''/'')"

fun walk_prefixes ::
    "(string \<Rightarrow> compute_error + path_info option) \<Rightarrow> string \<Rightarrow> string list \<Rightarrow> compute_error + string" where
  "walk_prefixes inspect normalized [] = Inr normalized"
| "walk_prefixes inspect normalized (pre # ps) =
     (case inspect pre of
        Inl e \<Rightarrow> Inl e
      | Inr None \<Rightarrow>
          if pre = WORKSPACE_ROOT
          then Inl (ComputeError CeComputeUnavailable ''workspace_root_missing'')
          else Inr normalized
      | Inr (Some info) \<Rightarrow>
          if pi_type info = SymlinkT then Inl (compute_error CePathEscape)
          else if \<not> resolvedPathContained (pi_resolvedPath info)
          then Inl (compute_error CePathEscape)
          else walk_prefixes inspect normalized ps)"

definition assertPathContained ::
    "(string \<Rightarrow> compute_error + path_info option) \<Rightarrow> string \<Rightarrow> compute_error + string" where
  "assertPathContained inspect path =
     (case normalizeWorkspacePath path of
        Inl e \<Rightarrow> Inl e
      | Inr normalized \<Rightarrow> walk_prefixes inspect normalized (workspacePrefixes normalized))"

section \<open>Text files\<close>

definition decodeTextFile :: "string \<Rightarrow> compute_error + string" where
  "decodeTextFile bytes =
     (if NUL \<in> set bytes then Inl (compute_error CeBinaryFile)
      else if \<not> valid_utf8 bytes then Inl (compute_error CeBinaryFile)
      else Inr (strip_bom bytes))"

section \<open>Canonical paths\<close>

definition segment_ok :: "string \<Rightarrow> bool" where
  "segment_ok x \<longleftrightarrow> x \<noteq> [] \<and> x \<noteq> ''.'' \<and> x \<noteq> ''..'' \<and> slash \<notin> set x"

definition absolute :: "string list \<Rightarrow> string" where
  "absolute segs = ''/'' @ js_join ''/'' segs"

lemma resolve_segments_ok:
  "list_all segment_ok acc \<Longrightarrow> \<forall>x \<in> set xs. slash \<notin> set x \<Longrightarrow>
     list_all segment_ok (resolve_segments xs acc)"
proof (induction xs acc rule: resolve_segments.induct)
  case (2 x xs acc)
  have tl_ok: "list_all segment_ok (tl acc)" using "2.prems"(1) by (cases acc) auto
  have rest: "\<forall>x \<in> set xs. slash \<notin> set x" using "2.prems"(2) by simp
  consider (skip) "x = [] \<or> x = ''.''" | (up) "x = ''..''" | (push) "segment_ok x" "x \<noteq> []"
      "x \<noteq> ''.''" "x \<noteq> ''..''"
    using "2.prems"(2) by (auto simp: segment_ok_def)
  then show ?case
  proof cases
    case skip
    then show ?thesis using "2.IH"(1) "2.prems"(1) rest by auto
  next
    case up
    then show ?thesis using "2.IH"(2) tl_ok rest by simp
  next
    case push
    then show ?thesis using "2.IH"(3) "2.prems"(1) rest by simp
  qed
qed (simp add: list_all_iff)

lemma resolve_segments_canonical:
  "list_all segment_ok xs \<Longrightarrow> resolve_segments xs acc = rev acc @ xs"
  by (induction xs arbitrary: acc) (auto simp: segment_ok_def)

lemma resolve_segments_append_empty: "resolve_segments (xs @ [[]]) acc = resolve_segments xs acc"
  by (induction xs acc rule: resolve_segments.induct) auto

lemma js_split_absolute:
  assumes "list_all segment_ok segs" and "segs \<noteq> []"
  shows "js_split slash (absolute segs) = [] # segs"
    and "js_split slash (absolute segs @ ''/'') = [] # segs @ [[]]"
proof -
  have sep: "\<forall>l \<in> set segs. slash \<notin> set l" using assms(1) by (auto simp: list_all_iff segment_ok_def)
  then show "js_split slash (absolute segs) = [] # segs"
    using assms(2) by (simp add: absolute_def js_split_join)
  have "absolute segs @ ''/'' = slash # js_join ''/'' (segs @ [[]])"
    using assms(2) by (simp add: absolute_def js_join_append)
  then show "js_split slash (absolute segs @ ''/'') = [] # segs @ [[]]"
    using sep by (simp add: js_split_join)
qed

lemma posix_normalize_absolute:
  assumes "list_all segment_ok segs" and "segs \<noteq> []"
  shows "posix_normalize (absolute segs) = absolute segs"
    and "posix_normalize (absolute segs @ ''/'') = absolute segs @ ''/''"
proof -
  have "last segs \<noteq> []" "slash \<notin> set (last segs)"
    using assms by (auto simp: list_all_iff segment_ok_def)
  then have "last (absolute segs) = last (last segs)" and "last (last segs) \<in> set (last segs)"
    using last_js_join [OF assms(2)] by (simp_all add: absolute_def)
  with \<open>slash \<notin> set (last segs)\<close> have "last (absolute segs) \<noteq> slash" by metis
  then show "posix_normalize (absolute segs) = absolute segs"
    using assms by (simp add: posix_normalize_def Let_def js_split_absolute resolve_segments_canonical)
      (simp add: absolute_def)
  show "posix_normalize (absolute segs @ ''/'') = absolute segs @ ''/''"
    using assms by (simp add: posix_normalize_def Let_def js_split_absolute
        resolve_segments_canonical resolve_segments_append_empty) (simp add: absolute_def)
qed

lemma last_absolute:
  assumes "list_all segment_ok segs" and "segs \<noteq> []"
  shows "last (absolute segs) \<noteq> slash"
proof -
  have ends: "last segs \<noteq> []" "slash \<notin> set (last segs)"
    using assms by (auto simp: list_all_iff segment_ok_def)
  then have "last (absolute segs) = last (last segs)"
    using last_js_join [OF assms(2)] by (simp add: absolute_def)
  then show ?thesis using ends last_in_set [OF ends(1)] by metis
qed

lemma strip_trailing_slashes_absolute:
  assumes "list_all segment_ok segs" and "segs \<noteq> []"
  shows "strip_trailing_slashes (absolute segs) = absolute segs"
    and "strip_trailing_slashes (absolute segs @ ''/'') = absolute segs"
proof -
  have "dropWhile (\<lambda>c. c = slash) (rev (absolute segs)) = rev (absolute segs)"
    using last_absolute [OF assms] by (simp add: dropWhile_eq_self_iff hd_rev)
  then show "strip_trailing_slashes (absolute segs) = absolute segs"
    and "strip_trailing_slashes (absolute segs @ ''/'') = absolute segs"
    by (simp_all add: strip_trailing_slashes_def)
qed

lemma absolute_root: "absolute [''workspace''] = WORKSPACE_ROOT"
  by (simp add: absolute_def WORKSPACE_ROOT_def)

lemma absolute_workspace:
  "rest \<noteq> [] \<Longrightarrow> absolute (''workspace'' # rest) = WORKSPACE_ROOT @ ''/'' @ js_join ''/'' rest"
  by (simp add: absolute_def WORKSPACE_ROOT_def js_join_Cons)

lemma split_workspace:
  "js_split slash (WORKSPACE_ROOT @ ''/'' @ p) = [] # ''workspace'' # js_split slash p"
  by (simp add: WORKSPACE_ROOT_def)

lemma in_workspace_iff:
  assumes "list_all segment_ok segs" and "segs \<noteq> []"
  shows "(absolute segs = WORKSPACE_ROOT \<or> startsWith (absolute segs) (WORKSPACE_ROOT @ ''/'')) \<longleftrightarrow>
    hd segs = ''workspace''"
proof
  assume "absolute segs = WORKSPACE_ROOT \<or> startsWith (absolute segs) (WORKSPACE_ROOT @ ''/'')"
  then consider "absolute segs = WORKSPACE_ROOT" | r where "absolute segs = WORKSPACE_ROOT @ ''/'' @ r"
    by (auto simp: prefix_def)
  then show "hd segs = ''workspace''"
  proof cases
    case 1
    then have "[] # segs = js_split slash WORKSPACE_ROOT"
      using js_split_absolute(1) [OF assms] by simp
    then show ?thesis by (simp add: WORKSPACE_ROOT_def)
  next
    case 2
    then have "[] # segs = js_split slash (WORKSPACE_ROOT @ ''/'' @ r)"
      using js_split_absolute(1) [OF assms] by simp
    then show ?thesis unfolding split_workspace by simp
  qed
next
  assume "hd segs = ''workspace''"
  then obtain rest where segs: "segs = ''workspace'' # rest" using assms(2) by (cases segs) auto
  show "absolute segs = WORKSPACE_ROOT \<or> startsWith (absolute segs) (WORKSPACE_ROOT @ ''/'')"
    by (cases "rest = []") (simp_all add: segs absolute_root absolute_workspace)
qed

text \<open>What the normalizer computes: the segments of the path, resolved below the root.\<close>

definition rooted_segments :: "string \<Rightarrow> string list" where
  "rooted_segments path = resolve_segments (js_split slash path) [''workspace'']"

definition plain_path :: "string \<Rightarrow> bool" where
  "plain_path path \<longleftrightarrow> path \<noteq> [] \<and> NUL \<notin> set path \<and> \<not> startsWith path ''/''"

lemma rooted_segments_ok: "list_all segment_ok (rooted_segments path)"
  unfolding rooted_segments_def
  by (rule resolve_segments_ok) (auto simp: segment_ok_def dest: js_split_parts)

lemma normalizeWorkspacePath_eq:
  "normalizeWorkspacePath path =
     (if plain_path path \<and> rooted_segments path \<noteq> [] \<and> hd (rooted_segments path) = ''workspace''
      then Inr (absolute (rooted_segments path)) else Inl (compute_error CeInvalidPath))"
proof (cases "plain_path path")
  case False
  then show ?thesis by (auto simp: normalizeWorkspacePath_def plain_path_def)
next
  case True
  let ?segs = "rooted_segments path"
  have "path \<noteq> []" using True by (simp add: plain_path_def)
  have resolved: "resolve_segments (js_split slash (WORKSPACE_ROOT @ ''/'' @ path)) [] = ?segs"
    unfolding split_workspace by (simp add: rooted_segments_def)
  show ?thesis
  proof (cases "?segs = []")
    case True
    have "posix_normalize (posix_join_root path) = ''/''"
      unfolding posix_join_root_def posix_normalize_def Let_def resolved
      by (simp add: True)
    with True show ?thesis
      by (auto simp: normalizeWorkspacePath_def Let_def WORKSPACE_ROOT_def prefix_def)
  next
    case False
    have joined: "posix_join_root path = absolute ?segs \<or>
        posix_join_root path = absolute ?segs @ ''/''"
      unfolding posix_join_root_def posix_normalize_def Let_def resolved
      by (simp add: absolute_def)
    then have idem: "posix_normalize (posix_join_root path) = posix_join_root path"
      using posix_normalize_absolute [OF rooted_segments_ok False] by auto
    have "length (absolute ?segs) > 1"
      using False rooted_segments_ok [of path]
      by (cases ?segs; cases "tl ?segs") (auto simp: absolute_def segment_ok_def js_join_Cons)
    then have long: "length (posix_join_root path) > 1" using joined by auto
    have strip: "strip_trailing_slashes (posix_join_root path) = absolute ?segs"
      using joined strip_trailing_slashes_absolute [OF rooted_segments_ok False] by auto
    have "normalizeWorkspacePath path =
        (if absolute ?segs \<noteq> WORKSPACE_ROOT \<and> \<not> startsWith (absolute ?segs) (WORKSPACE_ROOT @ ''/'')
         then Inl (compute_error CeInvalidPath) else Inr (absolute ?segs))"
      using True unfolding normalizeWorkspacePath_def Let_def idem strip
      by (simp only: long plain_path_def if_True if_False simp_thms)
    then show ?thesis
      using in_workspace_iff [OF rooted_segments_ok False] True False by auto
  qed
qed

lemma rooted_segments_relative:
  assumes "list_all segment_ok rest" and "rest \<noteq> []"
  shows "rooted_segments (js_join ''/'' rest) = ''workspace'' # rest"
proof -
  have "\<forall>l \<in> set rest. slash \<notin> set l" using assms(1) by (auto simp: list_all_iff segment_ok_def)
  then show ?thesis
    using assms by (simp add: rooted_segments_def js_split_join resolve_segments_canonical)
qed

lemma resolve_segments_from: "set (resolve_segments xs acc) \<subseteq> set xs \<union> set acc"
proof (induction xs acc rule: resolve_segments.induct)
  case (2 x xs acc)
  then show ?case by (cases acc) (auto split: if_splits)
qed simp

lemma extend_prefixes_within:
  "pre \<in> set (extend_prefixes current segs) \<Longrightarrow> below current pre"
proof (induction segs arbitrary: current)
  case (Cons x xs)
  then show ?case by (auto simp: Let_def below_def prefix_def) (metis append.assoc append_Cons)
qed simp

lemma workspacePrefixes_Cons: "\<exists>ps. workspacePrefixes q = WORKSPACE_ROOT # ps"
  by (simp add: workspacePrefixes_def)

lemma walk_prefixes_ok:
  "walk_prefixes inspect q ps = Inr q' \<Longrightarrow> q' = q \<and>
     (\<exists>k \<le> length ps. (\<forall>pre \<in> set (take k ps). \<exists>info. inspect pre = Inr (Some info) \<and>
          pi_type info \<noteq> SymlinkT \<and> resolvedPathContained (pi_resolvedPath info)) \<and>
        (k < length ps \<longrightarrow> inspect (ps ! k) = Inr None \<and> ps ! k \<noteq> WORKSPACE_ROOT))"
proof (induction ps)
  case (Cons pre ps)
  show ?case
  proof (cases "inspect pre")
    case (Inr a)
    show ?thesis
    proof (cases a)
      case None
      with Cons.prems Inr show ?thesis by (auto intro: exI [of _ 0] split: if_splits)
    next
      case (Some info)
      then have ok: "pi_type info \<noteq> SymlinkT" "resolvedPathContained (pi_resolvedPath info)"
        "walk_prefixes inspect q ps = Inr q'"
        using Cons.prems Inr by (auto split: if_splits)
      from Cons.IH [OF ok(3)] obtain k where "q' = q" "k \<le> length ps"
        "\<forall>pre \<in> set (take k ps). \<exists>info. inspect pre = Inr (Some info) \<and>
          pi_type info \<noteq> SymlinkT \<and> resolvedPathContained (pi_resolvedPath info)"
        "k < length ps \<longrightarrow> inspect (ps ! k) = Inr None \<and> ps ! k \<noteq> WORKSPACE_ROOT"
        by blast
      with ok Some Inr show ?thesis by (intro conjI exI [of _ "Suc k"]) auto
    qed
  qed (use Cons.prems in simp)
qed auto

lemma assertPathContained_normalized:
  "assertPathContained inspect path = Inr q \<Longrightarrow> normalizeWorkspacePath path = Inr q"
  using walk_prefixes_ok by (fastforce simp: assertPathContained_def split: sum.splits)

text \<open>C40: a path the normalizer accepts is \<open>/workspace\<close> or a canonical path below it (no empty,
  \<open>.\<close> or \<open>..\<close> segment), so no spelling escapes the root; and normalizing the accepted path again,
  relative to the root, changes nothing, so two spellings of one file become one string.\<close>

theorem normalizeWorkspacePath_contained:
  assumes "normalizeWorkspacePath path = Inr q"
  shows "\<exists>rest. list_all segment_ok rest \<and>
    q = (if rest = [] then WORKSPACE_ROOT else WORKSPACE_ROOT @ ''/'' @ js_join ''/'' rest) \<and>
    (rest \<noteq> [] \<longrightarrow> normalizeWorkspacePath (js_join ''/'' rest) = Inr q)"
proof -
  obtain rest where segs: "rooted_segments path = ''workspace'' # rest"
    and q: "q = absolute (''workspace'' # rest)"
    using assms by (cases "rooted_segments path") (auto simp: normalizeWorkspacePath_eq split: if_splits)
  have ok: "list_all segment_ok rest" using rooted_segments_ok [of path] segs by simp
  have "normalizeWorkspacePath (js_join ''/'' rest) = Inr q"
    if "rest \<noteq> []"
  proof -
    have "NUL \<notin> set path"
      using assms by (auto simp: normalizeWorkspacePath_eq plain_path_def split: if_splits)
    moreover have "NUL \<notin> set x" if "x \<in> set (js_split slash path)" for x
      using that \<open>NUL \<notin> set path\<close> js_split_chars by blast
    moreover have "NUL \<notin> set ''workspace''" by (simp add: NUL_def)
    moreover have "set rest \<subseteq> set (js_split slash path) \<union> {''workspace''}"
      using resolve_segments_from [of "js_split slash path" "[''workspace'']"] segs
      unfolding rooted_segments_def by simp
    ultimately have no_nul: "\<forall>x \<in> set rest. NUL \<notin> set x" by blast
    have "NUL \<notin> set ''/''" by (simp add: NUL_def)
    with no_nul have no_nul_join: "NUL \<notin> set (js_join ''/'' rest)" using js_join_chars by blast
    obtain x xs where rest: "rest = x # xs" using \<open>rest \<noteq> []\<close> by (cases rest) auto
    then have "x \<noteq> []" "hd x \<noteq> slash" using ok by (cases x; auto simp: segment_ok_def)+
    then have "js_join ''/'' rest \<noteq> []" "\<not> startsWith (js_join ''/'' rest) ''/''"
      using rest by (cases xs; cases x; auto simp: js_join_Cons)+
    with that no_nul_join rooted_segments_relative [OF ok] q show ?thesis
      by (simp add: normalizeWorkspacePath_eq plain_path_def)
  qed
  then show ?thesis
    using ok q absolute_workspace [of rest] by (intro exI [of _ rest]) (auto simp: absolute_root)
qed

theorem normalizeWorkspacePath_contained_witness:
  "normalizeWorkspacePath ''./src//x/../a.ts'' = Inr ''/workspace/src/a.ts'' \<and>
   (\<exists>rest. ''/workspace/src/a.ts'' =
      (if rest = [] then WORKSPACE_ROOT else WORKSPACE_ROOT @ ''/'' @ js_join ''/'' rest))"
proof -
  have "normalizeWorkspacePath ''./src//x/../a.ts'' = Inr ''/workspace/src/a.ts''"
    by code_simp
  with normalizeWorkspacePath_contained [OF this] show ?thesis by blast
qed

text \<open>When the containment check lets a path through, it is the normalized path, the workspace
  root exists, and from the root down to the target or to the first component that is not there yet
  every component was seen, is no symbolic link, and resolves inside the workspace.\<close>

theorem assertPathContained_walk:
  assumes "assertPathContained inspect path = Inr q"
  shows "normalizeWorkspacePath path = Inr q \<and>
    (\<exists>k. 0 < k \<and> k \<le> length (workspacePrefixes q) \<and>
       (\<forall>pre \<in> set (take k (workspacePrefixes q)). \<exists>info. inspect pre = Inr (Some info) \<and>
          pi_type info \<noteq> SymlinkT \<and> resolvedPathContained (pi_resolvedPath info)) \<and>
       (k < length (workspacePrefixes q) \<longrightarrow> inspect (workspacePrefixes q ! k) = Inr None))"
proof -
  obtain n where n: "normalizeWorkspacePath path = Inr n"
    and walk: "walk_prefixes inspect n (workspacePrefixes n) = Inr q"
    using assms by (auto simp: assertPathContained_def split: sum.splits)
  from walk_prefixes_ok [OF walk] obtain k where "q = n" "k \<le> length (workspacePrefixes n)"
    "\<forall>pre \<in> set (take k (workspacePrefixes n)). \<exists>info. inspect pre = Inr (Some info) \<and>
       pi_type info \<noteq> SymlinkT \<and> resolvedPathContained (pi_resolvedPath info)"
    "k < length (workspacePrefixes n) \<longrightarrow> inspect (workspacePrefixes n ! k) = Inr None \<and>
       workspacePrefixes n ! k \<noteq> WORKSPACE_ROOT"
    by blast
  moreover from this have "0 < k" using workspacePrefixes_Cons [of n] by (cases k) auto
  ultimately show ?thesis using n by blast
qed

theorem assertPathContained_walk_witness:
  "assertPathContained (\<lambda>p. if p = ''/workspace'' then Inr (Some \<lparr>pi_type = DirectoryT, pi_size = 0,
     pi_resolvedPath = p\<rparr>) else Inr None) ''a/b'' = Inr ''/workspace/a/b'' \<and>
   normalizeWorkspacePath ''a/b'' = Inr ''/workspace/a/b''"
proof -
  have "assertPathContained (\<lambda>p. if p = ''/workspace'' then Inr (Some \<lparr>pi_type = DirectoryT,
      pi_size = 0, pi_resolvedPath = p\<rparr>) else Inr None) ''a/b'' = Inr ''/workspace/a/b''"
    by code_simp
  with assertPathContained_walk [OF this] show ?thesis by blast
qed

end
