(* ===== verification/Runtime_Lifecycle.thy ===== *)
theory Runtime_Lifecycle
  imports Service_State Workspace_Paths
begin

text \<open>
  How a thread gets, keeps and gives up its container: \<open>ensureRuntime\<close>, \<open>readOrAcquireRuntime\<close>,
  \<open>cleanupExpiredRecovery\<close>, \<open>releaseIfIdle\<close>, \<open>releaseIfReclaimable\<close>, \<open>execShutdown\<close> and their
  helpers, of \<open>src/compute/thread-service.ts\<close>.
\<close>

section \<open>Acquiring\<close>

text \<open>\<open>toLowerCase\<close> on ASCII; host names are ASCII.\<close>

definition lower_char :: "char \<Rightarrow> char" where
  "lower_char c = (if 65 \<le> byte c \<and> byte c \<le> 90 then char_of (byte c + 32) else c)"

text \<open>The sorted array without repetitions of a list is determined by the list's elements.\<close>

definition normalize_hosts :: "string list \<Rightarrow> string set" where
  "normalize_hosts hosts = set (filter (\<lambda>h. h \<noteq> []) (map (\<lambda>h. map lower_char (trim h)) hosts))"

definition sameAllowedHosts :: "string list option option \<Rightarrow> string list option \<Rightarrow> bool" where
  "sameAllowedHosts acquired desired =
     (case desired of
        None \<Rightarrow> acquired = Some None \<or> acquired = None
      | Some d \<Rightarrow> (case acquired of
            Some (Some a) \<Rightarrow> normalize_hosts a = normalize_hosts d
          | _ \<Rightarrow> False))"

fun profile_text :: "resource_profile \<Rightarrow> string" where
  "profile_text Small = ''small''"
| "profile_text Medium = ''medium''"

definition computeSpec :: "'x deps \<Rightarrow> resource_profile \<Rightarrow> compute_spec" where
  "computeSpec D profile = \<lparr>cs_environmentId = sd_environmentId D, cs_profile = profile_text profile,
     cs_workspaceRoot = WORKSPACE_ROOT, cs_env = sd_env D,
     cs_maxProcessRuntimeMs = sd_maxProcessRuntimeMs D, cs_allowedHosts = sd_allowedHosts D\<rparr>"

definition recovery_expired :: "int \<Rightarrow> compute_state option \<Rightarrow> backend_reference option" where
  "recovery_expired now state =
     (case state of None \<Rightarrow> None
      | Some c \<Rightarrow>
          (case (cs_recoveryRef c, cs_recoveryExpiresAt c) of
             (Some r, Some t) \<Rightarrow> if cs_status c = Recovering \<and> t \<le> now then Some r else None
           | _ \<Rightarrow> None))"

definition cleanupExpiredRecovery :: "'x deps \<Rightarrow> bool \<Rightarrow> int \<Rightarrow> ('x service, bool) act" where
  "cleanupExpiredRecovery D fromAcquisition now = reading sv_acquisitionInFlight (\<lambda>inFlight.
     if inFlight \<and> \<not> fromAcquisition then ret False
     else on_state (\<lambda>state. case recovery_expired now state of
         None \<Rightarrow> ret False
       | Some r \<Rightarrow>
           andThen (destroyRuntime D r) (\<lambda>_.
           andThen (stopRunningProcesses D now True ''process stopped (recovery window expired)'') (\<lambda>_.
           andThen (clearWatchers D) (\<lambda>_.
           andThen (dbw D (markAbsent now)) (\<lambda>_.
           andThen (clearLifecycleState D) (\<lambda>_.
           andThen (clearAlarm D) (\<lambda>_.
           andThen (emitLifecycleEvent ''recovery_expiry'' ''recoverable_to_absent'' True) (\<lambda>_.
           andThen (remind D EXPIRED_RECOVERY_REMINDER Deferred None) (\<lambda>_.
           ret True))))))))))"

definition error_text :: "compute_error \<Rightarrow> string" where
  "error_text e = (case error_code e of Some c \<Rightarrow> code_text c | None \<Rightarrow> ''compute_unavailable'')"

text \<open>The body of the \<open>try\<close> after the slot is admitted.\<close>

definition acquire_body ::
    "'x deps \<Rightarrow> backend_reference option \<Rightarrow> compute_spec \<Rightarrow> ('x service, backend_reference) act" where
  "acquire_body D recovery spec =
     andThen (ext (rb_acquire (sd_backend D) spec recovery)) (\<lambda>runtime.
     andThen (timed D (\<lambda>t. dbw D (markActive runtime t))) (\<lambda>_.
     randomUUID D (\<lambda>nonce.
     andThen (timed D (\<lambda>t. dbw D (setGeneration (GenKnown nonce) t))) (\<lambda>_.
     andThen (catching (writeNonce D runtime nonce)
       (\<lambda>e. timed D (\<lambda>t. andThen (dbw D (setGeneration (GenAbsent t) t)) (\<lambda>_. raise e)))) (\<lambda>_.
     andThen (timed D (\<lambda>t. dbw D (touchLastUsed t))) (\<lambda>_.
     andThen (refreshRelease D (sd_idleTimeoutMs D)) (\<lambda>_.
     andThen (if recovery \<noteq> None
              then andThen (emitLifecycleEvent ''restore'' ''recoverable_to_active'' True)
                     (\<lambda>_. remind D RESTORED_COMPUTE_REMINDER Deferred None)
              else andThen (emitLifecycleEvent ''acquire'' ''absent_to_active'' True)
                     (\<lambda>_. bestEffort (sd_onFreshRuntime D))) (\<lambda>_.
     ret runtime))))))))"

definition acquire_failed ::
    "'x deps \<Rightarrow> backend_reference option \<Rightarrow> bool \<Rightarrow> compute_error \<Rightarrow> ('x service, 'a) act" where
  "acquire_failed D recovery admitted e =
     andThen (if admitted then bestEffort (releaseQuotaSlot D) else ret ()) (\<lambda>_.
     andThen (if recovery = None
              then andThen (timed D (\<lambda>t. dbw D (markError (error_text e) (error_message e) t)))
                     (\<lambda>_. emitLifecycleEvent ''acquire'' ''absent_to_error'' False)
              else emitLifecycleEvent ''restore'' ''recoverable_to_recoverable'' False) (\<lambda>_.
     raise e))"

definition provision ::
    "'x deps \<Rightarrow> backend_reference option \<Rightarrow> compute_spec \<Rightarrow> ('x service, backend_reference) act" where
  "provision D recovery spec =
     tryThen (quotaAdmit D) (acquire_failed D recovery False) (\<lambda>_.
       catching (acquire_body D recovery spec) (acquire_failed D recovery True))"

definition egress_changed :: "'x deps \<Rightarrow> compute_state option \<Rightarrow> bool" where
  "egress_changed D state =
     (sd_provider D = ''daytona'' \<and>
      (case state of None \<Rightarrow> False
       | Some c \<Rightarrow> (cs_status c = Active \<or> cs_status c = Recovering) \<and>
           \<not> sameAllowedHosts (cs_acquiredAllowedHosts c) (sd_allowedHosts D)))"

definition active_runtime :: "compute_state option \<Rightarrow> backend_reference option" where
  "active_runtime state = (case state of None \<Rightarrow> None
     | Some c \<Rightarrow> if cs_status c = Active then cs_runtimeRef c else None)"

definition kept_recovery :: "compute_state option \<Rightarrow> backend_reference option" where
  "kept_recovery state = (case state of None \<Rightarrow> None
     | Some c \<Rightarrow> if cs_status c = Recovering then cs_recoveryRef c else None)"

definition acquire_profile :: "'x deps \<Rightarrow> compute_state option \<Rightarrow> resource_profile" where
  "acquire_profile D state = (case state of None \<Rightarrow> sd_resourceProfile D | Some c \<Rightarrow> cs_resourceProfile c)"

definition acquiring_of :: "'x deps \<Rightarrow> resource_profile \<Rightarrow> acquiring_input" where
  "acquiring_of D profile = \<lparr>aq_provider = rb_id (sd_backend D),
     aq_providerConfig = Some (sd_providerConfig D), aq_allowedHosts = Some (sd_allowedHosts D),
     aq_resourceProfile = profile, aq_recoveryRef = None\<rparr>"

text \<open>From the state after the expired-recovery cleanup on.\<close>

definition acquire_from ::
    "'x deps \<Rightarrow> int \<Rightarrow> compute_state option \<Rightarrow> ('x service, backend_reference) act" where
  "acquire_from D now state =
     (if egress_changed D state
      then raise (ComputeError CePolicyRejected ''daytona_egress_policy_changed_run_exec_shutdown'')
      else case active_runtime state of
        Some r \<Rightarrow> ret r
      | None \<Rightarrow>
          andThen (if kept_recovery state = None
                   then dbw D (markAcquiring (acquiring_of D (acquire_profile D state)) now)
                   else ret ()) (\<lambda>_.
          provision D (kept_recovery state) (computeSpec D (acquire_profile D state))))"

definition readOrAcquireRuntime :: "'x deps \<Rightarrow> ('x service, backend_reference) act" where
  "readOrAcquireRuntime D = timed D (\<lambda>now.
     andThen (cleanupExpiredRecovery D True now) (\<lambda>_. on_state (acquire_from D now)))"

text \<open>The latch is held while \<open>m\<close> runs and dropped however it settles.\<close>

definition latched :: "('x service, 'a) act \<Rightarrow> ('x service, 'a) act" where
  "latched m = andThen (changing (sv_acquisitionInFlight_update (\<lambda>_. True))) (\<lambda>_.
     tryThen m
       (\<lambda>e. andThen (changing (sv_acquisitionInFlight_update (\<lambda>_. False))) (\<lambda>_. raise e))
       (\<lambda>r. andThen (changing (sv_acquisitionInFlight_update (\<lambda>_. False))) (\<lambda>_. ret r)))"

definition deadline_error :: compute_error where
  "deadline_error = ComputeError CeProviderTransient
     ''sandbox_acquire_deadline: the sandbox did not finish starting in time''"

text \<open>
  \<open>withDeadline\<close>: the acquisition goes on, but a caller it keeps waiting beyond the deadline gets the
  deadline's error instead of its outcome. Here the caller is the one that started it.
\<close>

definition boundedAcquisition ::
    "'x deps \<Rightarrow> ('x service, backend_reference) act \<Rightarrow> ('x service, backend_reference) act" where
  "boundedAcquisition D m = timed D (\<lambda>t0.
     tryThen (latched m)
       (\<lambda>e. timed D (\<lambda>t. if t - t0 > sd_acquireDeadlineMs D then raise deadline_error else raise e))
       (\<lambda>r. timed D (\<lambda>t. if t - t0 > sd_acquireDeadlineMs D then raise deadline_error else ret r)))"

definition ensureWorkspaceRootOnce ::
    "'x deps \<Rightarrow> backend_reference \<Rightarrow> ('x service, backend_reference) act" where
  "ensureWorkspaceRootOnce D r = reading sv_workspaceRootEnsured (\<lambda>ensured.
     if ensured then ret r
     else andThen (ext (rb_createDirectory (sd_backend D) r WORKSPACE_ROOT)) (\<lambda>_.
          andThen (changing (sv_workspaceRootEnsured_update (\<lambda>_. True))) (\<lambda>_. ret r)))"

text \<open>
  With an attached runtime the code compares \<open>state.runtimeRef\<close>, freshly parsed from its column, with
  the attached object by identity: they always differ.
\<close>

definition ensureRuntime :: "'x deps \<Rightarrow> ('x service, backend_reference) act" where
  "ensureRuntime D = (case sd_attachedRuntime D of
       Some r \<Rightarrow> andThen (timed D (\<lambda>now. dbw D (markActive r now))) (\<lambda>_. ensureWorkspaceRootOnce D r)
     | None \<Rightarrow> andThen (boundedAcquisition D (readOrAcquireRuntime D)) (ensureWorkspaceRootOnce D))"

section \<open>Giving up the container\<close>

definition empty_workspace :: "workspace_cleanliness \<Rightarrow> bool" where
  "empty_workspace c = (case c of WsNoRepo hasFiles \<Rightarrow> \<not> hasFiles | _ \<Rightarrow> False)"

definition resolveIdleDisposition :: "'x deps \<Rightarrow> ('x service, release_disposition) act" where
  "resolveIdleDisposition D = andThen (ext (sd_isDeclaredClean D)) (\<lambda>declared.
     if declared then ret Discard
     else if rb_nativeIdleSuspend (sd_backend D) then ret Recoverable
     else andThen (sd_probe D) (\<lambda>cleanliness.
       ret (if cleanliness = WsClean \<or> empty_workspace cleanliness then Discard else Recoverable)))"

definition settleDestroyedRuntime ::
    "'x deps \<Rightarrow> backend_reference option \<Rightarrow> int \<Rightarrow> ('x service, unit) act" where
  "settleDestroyedRuntime D recovery now =
     andThen (case recovery of
         Some r \<Rightarrow>
           andThen (bestEffort (dbw D (markRecoverable r now (now + sd_recoveryTtlMs D)))) (\<lambda>_.
           andThen (bestEffort (armAlarm D (Some (now + sd_recoveryTtlMs D)))) (\<lambda>_.
           emitLifecycleEvent ''release'' ''active_to_recoverable'' False))
       | None \<Rightarrow>
           andThen (bestEffort (dbw D (markAbsent now))) (\<lambda>_.
           emitLifecycleEvent ''release'' ''active_to_absent'' False)) (\<lambda>_.
     andThen (bestEffort (stopRunningProcesses D now True ''process stopped (environment destroyed)''))
       (\<lambda>_. bestEffort (releaseQuotaSlot D)))"

definition missing_recovery :: compute_error where
  "missing_recovery = ComputeError CeProviderTransient ''missing_recovery_reference''"

text \<open>What follows a resolved \<open>backend.release\<close>, inside the \<open>try\<close>.\<close>

definition keep_recoverable ::
    "'x deps \<Rightarrow> int \<Rightarrow> backend_reference option \<Rightarrow> ('x service, unit) act \<Rightarrow> ('x service, unit) act" where
  "keep_recoverable D now recovery rest =
     (case recovery of
        None \<Rightarrow> raise missing_recovery
      | Some r \<Rightarrow>
          andThen (dbw D (markRecoverable r now (now + sd_recoveryTtlMs D))) (\<lambda>_.
          andThen (releaseQuotaSlot D) (\<lambda>_. rest)))"

definition DISCARDED_REMINDER :: string where
  "DISCARDED_REMINDER = ''The thread compute environment was discarded after inactivity. Future commands will run in a fresh environment.''"

definition RECLAIMED_REMINDER :: string where
  "RECLAIMED_REMINDER = ''The thread compute environment was released to free a sandbox slot for another thread. Files were preserved; future commands will restore it.''"

definition SHUTDOWN_REMINDER :: string where
  "SHUTDOWN_REMINDER = ''The thread compute environment was shut down on request. Files and running processes are gone; previous command output remains available.''"

definition after_idle_release ::
    "'x deps \<Rightarrow> int \<Rightarrow> release_disposition \<Rightarrow> backend_reference option \<Rightarrow> ('x service, unit) act" where
  "after_idle_release D now disposition recovery =
     (if disposition = Recoverable
      then keep_recoverable D now recovery
        (andThen (stopRunningProcesses D now False
            ''process stopped (environment released; files preserved)'') (\<lambda>_.
         andThen (armAlarm D (Some (now + sd_recoveryTtlMs D))) (\<lambda>_.
         emitLifecycleEvent ''release'' ''active_to_recoverable'' True)))
      else
        andThen (dbw D (markAbsent now)) (\<lambda>_.
        andThen (releaseQuotaSlot D) (\<lambda>_.
        andThen (stopRunningProcesses D now True
            ''process stopped (environment discarded after inactivity)'') (\<lambda>_.
        andThen (clearLifecycleState D) (\<lambda>_.
        andThen (emitLifecycleEvent ''discard'' ''active_to_absent'' True) (\<lambda>_.
        remind D DISCARDED_REMINDER Deferred None))))))"

text \<open>
  \<open>markReleasing\<close>, then \<open>backend.release\<close>. If it throws the container is presumed alive and the row
  goes back to \<open>active\<close>; once it has resolved, an error of what follows settles the destroyed runtime.
\<close>

definition release_with ::
    "'x deps \<Rightarrow> backend_reference \<Rightarrow> int \<Rightarrow> release_disposition \<Rightarrow>
     ('x service, unit) act \<Rightarrow> (backend_reference option \<Rightarrow> ('x service, unit) act) \<Rightarrow>
     ('x service, bool) act" where
  "release_with D runtime now disposition rolled_back after =
     andThen (dbw D (markReleasing now)) (\<lambda>_.
     tryThen (ext (rb_release (sd_backend D) runtime disposition))
       (\<lambda>_. andThen (dbw D (markActive runtime now)) (\<lambda>_.
            andThen (emitLifecycleEvent ''release'' ''active_to_active'' False) (\<lambda>_.
            andThen rolled_back (\<lambda>_. ret False))))
       (\<lambda>recovery.
          andThen (changing (\<lambda>s. s\<lparr>sv_releases := sv_releases s @ [(runtime, disposition, recovery)]\<rparr>)) (\<lambda>_.
          andThen (catching (after recovery) (\<lambda>_. settleDestroyedRuntime D recovery now))
          (\<lambda>_. ret True))))"

definition releaseIfIdle :: "'x deps \<Rightarrow> ('x service, unit) act" where
  "releaseIfIdle D =
     (if sd_attachedRuntime D \<noteq> None then ret ()
      else on_state (\<lambda>state. case (state, active_runtime state) of
          (Some c, Some runtime) \<Rightarrow> timed D (\<lambda>now.
            if now - cs_lastUsedAt c < sd_idleTimeoutMs D
            then refreshRelease D (sd_idleTimeoutMs D - (now - cs_lastUsedAt c))
            else andThen (reading sv_ledger (\<lambda>l. ext (sd_hasBlockingWork D l))) (\<lambda>blocking.
              if blocking then armAlarm D (Some (now + sd_idleTimeoutMs D))
              else andThen (resolveIdleDisposition D) (\<lambda>disposition.
                andThen (release_with D runtime now disposition
                    (armAlarm D (Some (now + sd_idleTimeoutMs D)))
                    (after_idle_release D now disposition)) (\<lambda>_. ret ()))))
        | _ \<Rightarrow> ret ()))"

definition running_processes :: "'x service \<Rightarrow> compute_process list" where
  "running_processes s = filter (\<lambda>p. cp_status p = PsRunning) (listProcesses 1000 (sv_db s))"

definition releaseIfReclaimable :: "'x deps \<Rightarrow> ('x service, bool) act" where
  "releaseIfReclaimable D =
     (if sd_attachedRuntime D \<noteq> None then ret False
      else on_state (\<lambda>state. case (state, active_runtime state) of
          (Some c, Some runtime) \<Rightarrow>
            reading (\<lambda>s. running_processes s \<noteq> [] \<or> countWatchers (sv_db s) > 0) (\<lambda>busy.
            if busy then ret False
            else andThen (reading sv_ledger (\<lambda>l. ext (sd_hasBlockingWork D l))) (\<lambda>blocking.
              if blocking then ret False
              else timed D (\<lambda>now.
                if now - cs_lastUsedAt c < RECLAIM_MIN_IDLE_MS then ret False
                else release_with D runtime now Recoverable (ret ())
                  (\<lambda>recovery. keep_recoverable D now recovery
                    (andThen (armAlarm D (Some (now + sd_recoveryTtlMs D))) (\<lambda>_.
                     andThen (emitLifecycleEvent ''release'' ''active_to_recoverable'' True) (\<lambda>_.
                     remind D RECLAIMED_REMINDER Deferred None)))))))
        | _ \<Rightarrow> ret False))"

datatype shutdown_result =
    AlreadyGone
  | NeedsConfirmation "(string \<times> string \<times> string option) list"
  | Terminated nat

definition execShutdown :: "'x deps \<Rightarrow> bool \<Rightarrow> ('x service, shutdown_result) act" where
  "execShutdown D confirm =
     (if sd_attachedRuntime D \<noteq> None then raise (OtherError ''compute_not_owner'')
      else andThen (reading sv_ledger (\<lambda>l. ext (sd_hasBlockingWork D l))) (\<lambda>blocking.
        if blocking then raise (OtherError ''compute_children_active'')
        else on_state (\<lambda>state.
          andThen (if state = None then ret False else timed D (cleanupExpiredRecovery D False)) (\<lambda>expired.
          if expired then ret (Terminated 0)
          else case (case state of None \<Rightarrow> None
                | Some c \<Rightarrow> if cs_status c = Active then cs_runtimeRef c else cs_recoveryRef c) of
              None \<Rightarrow> ret AlreadyGone
            | Some reference \<Rightarrow> reading running_processes (\<lambda>running.
                if running \<noteq> [] \<and> \<not> confirm
                then ret (NeedsConfirmation (map (\<lambda>p. (cp_id p, cp_command p, cp_label p)) running))
                else andThen (destroyRuntime D reference) (\<lambda>_. timed D (\<lambda>now.
                  andThen (stopRunningProcesses D now True
                    ''process stopped (environment shut down on request)'') (\<lambda>_.
                  andThen (clearWatchers D) (\<lambda>_.
                  andThen (dbw D (markAbsent now)) (\<lambda>_.
                  andThen (releaseQuotaSlot D) (\<lambda>_.
                  andThen (clearLifecycleState D) (\<lambda>_.
                  andThen (clearAlarm D) (\<lambda>_.
                  andThen (remind D SHUTDOWN_REMINDER Deferred None) (\<lambda>_.
                  ret (Terminated (length running))))))))))))))))"

definition destroyRecoverableComputeIfPresent :: "'x deps \<Rightarrow> ('x service, unit) act" where
  "destroyRecoverableComputeIfPresent D =
     (if sd_attachedRuntime D \<noteq> None then ret ()
      else on_state (\<lambda>state. case kept_recovery state of
          None \<Rightarrow> ret ()
        | Some r \<Rightarrow>
            andThen (destroyRuntime D r) (\<lambda>_.
            andThen (timed D (\<lambda>now. dbw D (markAbsent now))) (\<lambda>_.
            andThen (timed D (\<lambda>now. stopRunningProcesses D now True
              ''process stopped (recoverable environment destroyed)'')) (\<lambda>_.
            andThen (clearWatchers D) (\<lambda>_.
            andThen (clearLifecycleState D) (\<lambda>_.
            clearAlarm D)))))))"

definition cleanupExpiredRecoverableCompute :: "'x deps \<Rightarrow> ('x service, unit) act" where
  "cleanupExpiredRecoverableCompute D =
     (if sd_attachedRuntime D \<noteq> None then ret ()
      else andThen (timed D (cleanupExpiredRecovery D False)) (\<lambda>_. ret ()))"

end
