(* ===== verification/Output_Slices.thy ===== *)
theory Output_Slices
  imports Process_Output
begin

text \<open>
  Reading stored process output: head and tail, tail, grep, line ranges and byte ranges of
  \<open>src/compute/output.ts\<close>, over the chunks \<open>Process_Output\<close> stores.

  A regular expression is the argument \<open>compile\<close>: it throws, or gives the test of a line, which may be
  limited to the first so many UTF-16 units of the line.
\<close>

section \<open>Helpers\<close>

text \<open>\<open>xs.slice(k)\<close>: a negative \<open>k\<close> counts from the end.\<close>

definition js_slice_from :: "int \<Rightarrow> 'a list \<Rightarrow> 'a list" where
  "js_slice_from k xs = (if k < 0 then drop (length xs - nat (- k)) xs else drop (nat k) xs)"

text \<open>\<open>s.length\<close>: one unit for every character, two for one outside the basic plane.\<close>

definition utf16_length :: "string \<Rightarrow> nat" where
  "utf16_length s = length (filter (\<lambda>c. \<not> is_tail c) s) + length (filter (\<lambda>c. byte c \<ge> 0xF0) s)"

definition strip_newline :: "string \<Rightarrow> string" where
  "strip_newline l = (if ends_line l then butlast l else l)"

abbreviation stream_lines :: "out_stream \<Rightarrow> output_chunk list \<Rightarrow> string list" where
  "stream_lines st chunks \<equiv> concat (map (splitLines \<circ> oc_text) (filter (\<lambda>c. oc_stream c = st) chunks))"

section \<open>Head and tail\<close>

record head_tail =
  ht_head :: "string list"
  ht_tail :: "string list"
  ht_hiddenLines :: nat

definition headTailOutputChunks :: "out_stream \<Rightarrow> nat \<Rightarrow> nat \<Rightarrow> output_chunk list \<Rightarrow> head_tail" where
  "headTailOutputChunks st headLines tailLines chunks =
     (let lines = map strip_newline (stream_lines st chunks)
      in if length lines \<le> headLines + tailLines
         then \<lparr>ht_head = take headLines lines, ht_tail = drop headLines lines, ht_hiddenLines = 0\<rparr>
         else \<lparr>ht_head = take headLines lines, ht_tail = drop (length lines - tailLines) lines,
               ht_hiddenLines = length lines - headLines - tailLines\<rparr>)"

section \<open>Tail\<close>

datatype limit_reason = MaxBytes | MaxLines | MaxMatches | MaxReturnedLines

type_synonym text_slice = "string \<times> limit_reason option"

definition tailOutputChunks :: "out_stream \<Rightarrow> int \<Rightarrow> nat \<Rightarrow> output_chunk list \<Rightarrow> text_slice" where
  "tailOutputChunks st maxLines maxBytes chunks =
     (let tail = concat (js_slice_from (- maxLines) (stream_lines st chunks))
      in if length tail > maxBytes then (trimUtf8 tail maxBytes, Some MaxBytes) else (tail, None))"

section \<open>Grep\<close>

definition GREP_MAX_PATTERN_LENGTH :: nat where "GREP_MAX_PATTERN_LENGTH = 200"
definition GREP_MAX_LINE_SCAN_CHARS :: nat where "GREP_MAX_LINE_SCAN_CHARS = 5000"

record output_line =
  ln_stream :: out_stream
  ln_line :: nat
  ln_text :: string

record grep_match =
  gm_line :: nat
  gm_stream :: out_stream
  gm_lines :: "output_line list"

record grep_input =
  gi_pattern :: string
  gi_stream :: "out_stream option"
  gi_caseSensitive :: bool
  gi_contextLines :: nat
  gi_maxMatches :: nat
  gi_maxReturnedLines :: nat
  gi_maxBytes :: nat

datatype grep_error = PatternTooLong | PatternInvalid string

type_synonym line_test = "nat option \<Rightarrow> string \<Rightarrow> bool"

definition chunk_lines :: "output_chunk \<Rightarrow> output_line list" where
  "chunk_lines c = map (\<lambda>(i, l). \<lparr>ln_stream = oc_stream c, ln_line = oc_lineStart c + i, ln_text = l\<rparr>)
     (enumerate 0 (splitLines (oc_text c)))"

definition scan_line :: "line_test \<Rightarrow> string \<Rightarrow> bool" where
  "scan_line test l =
     (if utf16_length l > GREP_MAX_LINE_SCAN_CHARS then test (Some GREP_MAX_LINE_SCAN_CHARS) l
      else test None l)"

definition context_of :: "nat \<Rightarrow> output_line list \<Rightarrow> nat \<Rightarrow> output_line list" where
  "context_of n lines index = take (min (length lines) (index + n + 1) - (index - n)) (drop (index - n) lines)"

text \<open>The loop from line \<open>index\<close> on, with the matches and the number of lines returned so far.\<close>

function grep_from ::
  "line_test \<Rightarrow> grep_input \<Rightarrow> output_line list \<Rightarrow> nat \<Rightarrow> grep_match list \<Rightarrow> nat \<Rightarrow>
   grep_match list \<times> limit_reason option" where
  "grep_from test inp lines index matches returned =
     (if index \<ge> length lines then (matches, None)
      else let current = lines ! index
        in if \<not> scan_line test (ln_text current) then grep_from test inp lines (index + 1) matches returned
           else let around = context_of (gi_contextLines inp) lines index
             in if returned + length around > gi_maxReturnedLines inp then (matches, Some MaxReturnedLines)
                else let matches' = matches @ [\<lparr>gm_line = ln_line current, gm_stream = ln_stream current,
                                               gm_lines = around\<rparr>]
                  in if length matches' \<ge> gi_maxMatches inp then (matches', Some MaxMatches)
                     else grep_from test inp lines (index + 1) matches' (returned + length around))"
  by pat_completeness auto
termination
  by (relation "measure (\<lambda>(test, inp, lines, index, matches, returned). length lines - index)") auto

declare grep_from.simps [simp del]

definition match_bytes :: "grep_match \<Rightarrow> nat" where
  "match_bytes m = sum_list (map (length \<circ> ln_text) (gm_lines m))"

definition grepOutputChunks ::
  "(string \<Rightarrow> bool \<Rightarrow> string + line_test) \<Rightarrow> grep_input \<Rightarrow> output_chunk list \<Rightarrow>
   grep_error + grep_match list \<times> limit_reason option" where
  "grepOutputChunks compile inp chunks =
     (if utf16_length (gi_pattern inp) > GREP_MAX_PATTERN_LENGTH then Inl PatternTooLong
      else case compile (gi_pattern inp) (gi_caseSensitive inp) of
        Inl e \<Rightarrow> Inl (PatternInvalid e)
      | Inr test \<Rightarrow>
          let selected = filter (\<lambda>c. case gi_stream inp of None \<Rightarrow> True | Some st \<Rightarrow> oc_stream c = st) chunks;
              lines = concat (map chunk_lines selected)
          in Inr (case grep_from test inp lines 0 [] 0 of
               (matches, Some reason) \<Rightarrow> (matches, Some reason)
             | (matches, None) \<Rightarrow>
                 if sum_list (map match_bytes matches) > gi_maxBytes inp then (matches, Some MaxBytes)
                 else (matches, None)))"

section \<open>Reading\<close>

record read_input =
  ri_stream :: out_stream
  ri_startLine :: "int option"
  ri_endLine :: "int option"
  ri_startByte :: "nat option"
  ri_maxLines :: "nat option"
  ri_maxBytes :: nat

text \<open>The byte loop: the bytes collected so far and whether a chunk was cut.\<close>

definition chunk_rest :: "nat \<Rightarrow> output_chunk \<Rightarrow> string" where
  "chunk_rest startByte c =
     drop (if startByte > oc_byteStart c then startByte - oc_byteStart c else 0) (oc_text c)"

definition byte_step :: "nat \<Rightarrow> nat \<Rightarrow> output_chunk \<Rightarrow> string \<times> bool \<Rightarrow> string \<times> bool" where
  "byte_step startByte maxBytes c = (\<lambda>(collected, limited).
     let rest = chunk_rest startByte c
     in if length collected + length rest > maxBytes
        then (collected @ take (maxBytes - length collected) rest, True)
        else (collected @ rest, limited))"

fun collect_bytes :: "nat \<Rightarrow> nat \<Rightarrow> output_chunk list \<Rightarrow> string \<times> bool \<Rightarrow> string \<times> bool" where
  "collect_bytes startByte maxBytes [] st = st"
| "collect_bytes startByte maxBytes (c # cs) st =
     (if oc_byteEnd c \<le> startByte then collect_bytes startByte maxBytes cs st
      else if length (fst (byte_step startByte maxBytes c st)) \<ge> maxBytes then byte_step startByte maxBytes c st
      else collect_bytes startByte maxBytes cs (byte_step startByte maxBytes c st))"

definition readByteRange :: "nat \<Rightarrow> nat \<Rightarrow> output_chunk list \<Rightarrow> text_slice" where
  "readByteRange startByte maxBytes chunks =
     (case collect_bytes startByte maxBytes chunks ([], False) of
        (bytes, limited) \<Rightarrow> (decode_utf8 bytes, if limited then Some MaxBytes else None))"

definition MAX_SAFE_INTEGER :: int where "MAX_SAFE_INTEGER = 2 ^ 53 - 1"

definition in_line_range :: "int option \<Rightarrow> int option \<Rightarrow> output_line \<Rightarrow> bool" where
  "in_line_range startLine endLine l \<longleftrightarrow>
     (case startLine of None \<Rightarrow> 1 | Some a \<Rightarrow> a) \<le> int (ln_line l) \<and>
     int (ln_line l) \<le> (case endLine of None \<Rightarrow> MAX_SAFE_INTEGER | Some b \<Rightarrow> b)"

definition readOutputChunks :: "read_input \<Rightarrow> output_chunk list \<Rightarrow> text_slice" where
  "readOutputChunks inp chunks =
     (let streamChunks = filter (\<lambda>c. oc_stream c = ri_stream inp) chunks
      in case ri_startByte inp of
           Some b \<Rightarrow> readByteRange b (ri_maxBytes inp) streamChunks
         | None \<Rightarrow>
             let selected = filter (in_line_range (ri_startLine inp) (ri_endLine inp))
                              (concat (map chunk_lines streamChunks));
                 lineLimited = (case ri_maxLines inp of None \<Rightarrow> int (length selected) > MAX_SAFE_INTEGER
                                | Some m \<Rightarrow> length selected > m);
                 kept = (if lineLimited then take (case ri_maxLines inp of None \<Rightarrow> nat MAX_SAFE_INTEGER | Some m \<Rightarrow> m)
                                          selected else selected);
                 tx = concat (map ln_text kept)
             in if length tx > ri_maxBytes inp then (trimUtf8 tx (ri_maxBytes inp), Some MaxBytes)
                else (tx, if lineLimited then Some MaxLines else None))"

section \<open>Nothing between head and tail is lost\<close>

text \<open>Head, hidden lines and tail are the stream's lines in order, the count of hidden lines is exact,
  and nothing is hidden unless both ends are full.\<close>

theorem head_tail_partition:
  "\<exists>hidden. map strip_newline (stream_lines st chunks) =
       ht_head (headTailOutputChunks st h t chunks) @ hidden @ ht_tail (headTailOutputChunks st h t chunks) \<and>
     ht_hiddenLines (headTailOutputChunks st h t chunks) = length hidden \<and>
     length (ht_head (headTailOutputChunks st h t chunks)) \<le> h \<and>
     length (ht_tail (headTailOutputChunks st h t chunks)) \<le> t \<and>
     (hidden = [] \<or> length (ht_head (headTailOutputChunks st h t chunks)) = h \<and>
        length (ht_tail (headTailOutputChunks st h t chunks)) = t)"
proof -
  let ?ls = "map strip_newline (stream_lines st chunks)"
  show ?thesis
  proof (cases "length ?ls \<le> h + t")
    case True
    then show ?thesis by (intro exI [of _ "[]"]) (simp add: headTailOutputChunks_def Let_def)
  next
    case False
    have "?ls = take h ?ls @ take (length ?ls - t - h) (drop h ?ls) @ drop (length ?ls - t) ?ls"
      using False by (metis (no_types, lifting) append_take_drop_id drop_drop le_add_diff_inverse2
          add_le_imp_le_diff less_imp_le_nat linorder_not_le)
    with False show ?thesis
      by (intro exI [of _ "take (length ?ls - t - h) (drop h ?ls)"])
        (simp add: headTailOutputChunks_def Let_def)
  qed
qed

section \<open>Byte ranges\<close>

lemma chained_starts:
  "chained i pre cs \<Longrightarrow> c \<in> set cs \<Longrightarrow> length pre \<le> oc_byteStart c"
  by (induction cs arbitrary: i pre) (auto simp: in_place_def, fastforce)

definition cut_inside :: "nat \<Rightarrow> output_chunk list \<Rightarrow> bool" where
  "cut_inside n cs = (\<exists>c \<in> set cs. oc_byteStart c < n \<and> n < oc_byteEnd c)"

lemma chunk_rest_drop:
  assumes "in_place i pre c" and "startByte < oc_byteEnd c"
  shows "drop startByte (pre @ oc_text c) = drop startByte pre @ chunk_rest startByte c"
  using assms by (simp add: chunk_rest_def in_place_def)

lemma collect_bytes_range:
  assumes "chained i pre cs" and "length pre < startByte + maxBytes" and "0 < maxBytes"
  shows "collect_bytes startByte maxBytes cs (drop startByte pre, False) =
    (take maxBytes (drop startByte (pre @ stream_text cs)), cut_inside (startByte + maxBytes) cs)"
  using assms
proof (induction cs arbitrary: i pre)
  case Nil
  then show ?case by (simp add: cut_inside_def)
next
  case (Cons c cs)
  have c: "in_place i pre c" and cs: "chained (i + 1) (pre @ oc_text c) cs" using Cons.prems(1) by simp_all
  have ends: "oc_byteStart c = length pre" "oc_byteEnd c = length pre + length (oc_text c)"
    using c by (simp_all add: in_place_def)
  have later: "\<not> cut_inside (startByte + maxBytes) cs"
    if "startByte + maxBytes \<le> oc_byteEnd c"
    using chained_starts [OF cs] that by (fastforce simp: cut_inside_def ends)
  show ?case
  proof (cases "oc_byteEnd c \<le> startByte")
    case True
    then have "length (pre @ oc_text c) < startByte + maxBytes" using Cons.prems(3) by (simp add: ends)
    from Cons.IH [OF cs this Cons.prems(3)] True Cons.prems(2) show ?thesis
      by (auto simp: ends cut_inside_def)
  next
    case False
    then have rest: "drop startByte (pre @ oc_text c) = drop startByte pre @ chunk_rest startByte c"
      by (intro chunk_rest_drop [OF c]) simp
    then have size: "length (drop startByte pre) + length (chunk_rest startByte c) = oc_byteEnd c - startByte"
      by (metis ends(2) length_append length_drop)
    have all: "drop startByte (pre @ stream_text (c # cs)) =
        (drop startByte pre @ chunk_rest startByte c) @ stream_text cs"
      using rest False by (simp add: ends)
    show ?thesis
    proof (cases "oc_byteEnd c > startByte + maxBytes")
      case True
      have "byte_step startByte maxBytes c (drop startByte pre, False) =
          (take maxBytes (drop startByte pre @ chunk_rest startByte c), True)"
        using True False size Cons.prems(2) by (simp add: byte_step_def Let_def)
      moreover have "length (take maxBytes (drop startByte pre @ chunk_rest startByte c)) = maxBytes"
        using True size by simp
      moreover have "cut_inside (startByte + maxBytes) (c # cs)"
        using True Cons.prems(2) by (auto simp: cut_inside_def ends)
      ultimately show ?thesis
        using False True size unfolding all by simp
    next
      case small: False
      have step: "byte_step startByte maxBytes c (drop startByte pre, False) =
          (drop startByte (pre @ oc_text c), False)"
      proof -
        have "\<not> maxBytes < length (drop startByte pre) + length (chunk_rest startByte c)"
          unfolding size using small False by linarith
        moreover have "chunk_rest startByte c = drop (startByte - length pre) (oc_text c)"
          by (simp add: chunk_rest_def ends)
        ultimately show ?thesis by (simp add: byte_step_def Let_def)
      qed
      show ?thesis
      proof (cases "oc_byteEnd c = startByte + maxBytes")
        case True
        then have full: "length (drop startByte (pre @ oc_text c)) = maxBytes" by (simp add: ends)
        have "\<not> cut_inside (startByte + maxBytes) (c # cs)"
          using later True by (auto simp: cut_inside_def)
        moreover have "take maxBytes (drop startByte (pre @ stream_text (c # cs))) = drop startByte (pre @ oc_text c)"
          unfolding all rest [symmetric] using full by (simp del: drop_append)
        ultimately show ?thesis using full False step by (simp del: drop_append stream_text_simps)
      next
        case less: False
        then have short: "length (pre @ oc_text c) < startByte + maxBytes" using small by (simp add: ends)
        have "cut_inside (startByte + maxBytes) (c # cs) = cut_inside (startByte + maxBytes) cs"
          using short by (auto simp: cut_inside_def ends)
        moreover have "length (drop startByte (pre @ oc_text c)) < maxBytes"
          using short False by (simp add: ends)
        ultimately show ?thesis
          using False step Cons.IH [OF cs short Cons.prems(3)] by simp
      qed
    qed
  qed
qed

text \<open>A byte-range read returns exactly the requested window of the stored stream, decoded. It reports
  the cut only when the window ends inside a chunk: one that ends between two chunks is returned
  as if it were the whole rest, although more output follows.\<close>

theorem byte_range_exact:
  assumes "chained 0 [] cs" and "0 < maxBytes"
  shows "readByteRange startByte maxBytes cs =
    (decode_utf8 (take maxBytes (drop startByte (stream_text cs))),
     if cut_inside (startByte + maxBytes) cs then Some MaxBytes else None)"
  using collect_bytes_range [OF assms(1), of startByte maxBytes] assms(2)
  by (simp add: readByteRange_def)

section \<open>Line ranges\<close>

lemma enumerate_append: "enumerate n (xs @ ys) = enumerate n xs @ enumerate (n + length xs) ys"
  by (induction xs arbitrary: n) auto

definition numbered :: "out_stream \<Rightarrow> nat \<Rightarrow> string list \<Rightarrow> output_line list" where
  "numbered st n ls = map (\<lambda>(i, l). \<lparr>ln_stream = st, ln_line = i, ln_text = l\<rparr>) (enumerate n ls)"

lemma numbered_append: "numbered st n (xs @ ys) = numbered st n xs @ numbered st (n + length xs) ys"
  by (simp add: numbered_def enumerate_append)

lemma chunk_lines_numbered: "chunk_lines c = numbered (oc_stream c) (oc_lineStart c) (splitLines (oc_text c))"
proof -
  have "map (\<lambda>(i, l). \<lparr>ln_stream = st, ln_line = k + i, ln_text = l\<rparr>) (enumerate n ls) = numbered st (k + n) ls"
    for st k n ls
    by (induction ls arbitrary: n) (simp_all add: numbered_def)
  from this [of _ _ 0] show ?thesis by (simp add: chunk_lines_def)
qed

lemma chained_lines:
  assumes "chained i pre cs" and "\<forall>c \<in> set cs. oc_stream c = st" and "ends_line pre \<or> pre = []"
  shows "concat (map chunk_lines cs) = numbered st (countLines pre + 1) (splitLines (stream_text cs))"
  using assms
proof (induction cs arbitrary: i pre)
  case Nil
  then show ?case by (simp add: numbered_def)
next
  case (Cons c cs)
  have c: "in_place i pre c" and cs: "chained (i + 1) (pre @ oc_text c) cs"
    and line: "cs \<noteq> [] \<longrightarrow> ends_line (oc_text c)" using Cons.prems(1) by simp_all
  show ?case
  proof (cases "cs = []")
    case True
    with c Cons.prems(2) show ?thesis by (simp add: chunk_lines_numbered in_place_def)
  next
    case False
    with line have nl: "ends_line (oc_text c)" by simp
    then have "ends_line (pre @ oc_text c)" by (simp add: ends_line_def)
    with Cons.IH [OF cs] Cons.prems(2)
    have "concat (map chunk_lines cs) = numbered st (countLines (pre @ oc_text c) + 1) (splitLines (stream_text cs))"
      by simp
    moreover have "chunk_lines c = numbered st (countLines pre + 1) (splitLines (oc_text c))"
      using c Cons.prems(2) by (simp add: chunk_lines_numbered in_place_def)
    moreover have "countLines (pre @ oc_text c) = countLines pre + length (splitLines (oc_text c))"
      using countLines_append [OF Cons.prems(3)] by (simp add: countLines_def)
    ultimately show ?thesis
      by (simp add: splitLines_append_line [OF nl] numbered_append)
  qed
qed

lemma numbered_range:
  assumes "1 \<le> a"
  shows "filter (in_line_range (Some a) (Some b)) (numbered st 1 ls) =
    numbered st (nat a) (take (nat (b - a + 1)) (drop (nat (a - 1)) ls))"
proof -
  have "filter (in_line_range (Some a) (Some b)) (numbered st n ls) =
      numbered st (max n (nat a)) (take (nat (b + 1) - max n (nat a)) (drop (nat a - n) ls))" for n
  proof (induction ls arbitrary: n)
    case Nil
    then show ?case by (simp add: numbered_def)
  next
    case (Cons l ls)
    have split: "numbered st n (l # ls) = \<lparr>ln_stream = st, ln_line = n, ln_text = l\<rparr> # numbered st (n + 1) ls"
      by (simp add: numbered_def)
    consider "n < nat a" | "nat a \<le> n" "int n \<le> b" | "nat a \<le> n" "b < int n" by linarith
    then show ?case
    proof cases
      case 1
      then have "max (n + 1) (nat a) = nat a" "max n (nat a) = nat a" "nat a - n = Suc (nat a - (n + 1))" by auto
      with 1 assms Cons.IH [of "n + 1"] show ?thesis unfolding split by (auto simp: in_line_range_def)
    next
      case 2
      then have "max (n + 1) (nat a) = n + 1" "max n (nat a) = n" "nat a - n = 0" "nat a - (n + 1) = 0"
        "nat (b + 1) - n = Suc (nat (b + 1) - (n + 1))" by auto
      with 2 Cons.IH [of "n + 1"] show ?thesis unfolding split
        by (auto simp: in_line_range_def numbered_def)
    next
      case 3
      then have "max (n + 1) (nat a) = n + 1" "max n (nat a) = n" "nat (b + 1) - n = 0"
        "nat (b + 1) - (n + 1) = 0" by auto
      with 3 Cons.IH [of "n + 1"] show ?thesis unfolding split
        by (auto simp: in_line_range_def numbered_def)
    qed
  qed
  moreover have "nat (b + 1) - nat a = nat (b - a + 1)" "max 1 (nat a) = nat a" "nat a - 1 = nat (a - 1)"
    using assms by auto
  ultimately show ?thesis by metis
qed

lemma numbered_text: "map ln_text (numbered st n ls) = ls"
  by (induction ls arbitrary: n) (simp_all add: numbered_def)

text \<open>C37: line numbers address the whole stream, not the chunk. A read of lines \<open>a\<close> to \<open>b\<close> that reports no
  limit returns exactly those lines of the stored stream, wherever its chunks begin and end.\<close>

theorem line_range_exact:
  assumes "chained 0 [] cs" and "\<forall>c \<in> set cs. oc_stream c = st" and "1 \<le> a"
    and "ri_stream inp = st" and "ri_startLine inp = Some a" and "ri_endLine inp = Some b"
    and "ri_startByte inp = None" and "readOutputChunks inp cs = (tx, None)"
  shows "tx = concat (take (nat (b - a + 1)) (drop (nat (a - 1)) (splitLines (stream_text cs))))"
proof -
  have lines: "concat (map chunk_lines cs) = numbered st 1 (splitLines (stream_text cs))"
    using chained_lines [OF assms(1,2)] by simp
  have "filter (\<lambda>c. oc_stream c = ri_stream inp) cs = cs"
    using assms(2,4) by (simp add: filter_id_conv)
  with assms(5-8) have "tx = concat (map ln_text (filter (in_line_range (Some a) (Some b))
      (numbered st 1 (splitLines (stream_text cs)))))"
    by (auto simp: readOutputChunks_def Let_def lines split: if_splits)
  then show ?thesis by (simp only: numbered_range [OF assms(3)] numbered_text)
qed

section \<open>Grep\<close>

definition hits_from :: "line_test \<Rightarrow> output_line list \<Rightarrow> nat \<Rightarrow> nat list" where
  "hits_from test lines index = filter (\<lambda>i. scan_line test (ln_text (lines ! i))) [index ..< length lines]"

definition match_at :: "grep_input \<Rightarrow> output_line list \<Rightarrow> nat \<Rightarrow> grep_match" where
  "match_at inp lines i = \<lparr>gm_line = ln_line (lines ! i), gm_stream = ln_stream (lines ! i),
     gm_lines = context_of (gi_contextLines inp) lines i\<rparr>"

definition returned_lines :: "grep_match list \<Rightarrow> nat" where
  "returned_lines ms = sum_list (map (length \<circ> gm_lines) ms)"

lemma hits_from_step:
  "index < length lines \<Longrightarrow> hits_from test lines index =
     (if scan_line test (ln_text (lines ! index)) then [index] else []) @ hits_from test lines (index + 1)"
  by (simp add: hits_from_def upt_conv_Cons)

lemma grep_from_spec:
  assumes "grep_from test inp lines index matches returned = (ms, r)"
    and "returned = returned_lines matches" and "returned \<le> gi_maxReturnedLines inp"
    and "matches = [] \<or> length matches < gi_maxMatches inp"
  shows "\<exists>k. k \<le> length (hits_from test lines index) \<and>
    ms = matches @ map (match_at inp lines) (take k (hits_from test lines index)) \<and>
    (r = None \<longrightarrow> k = length (hits_from test lines index)) \<and> r \<noteq> Some MaxBytes \<and>
    returned_lines ms \<le> gi_maxReturnedLines inp \<and> length ms \<le> max 1 (gi_maxMatches inp)"
  using assms
proof (induction test inp lines index matches returned rule: grep_from.induct)
  case (1 test inp lines index matches returned)
  show ?case
  proof (cases "index \<ge> length lines")
    case True
    with "1.prems" show ?thesis
      by (subst (asm) (1) grep_from.simps) (auto simp: hits_from_def intro!: exI [of _ 0])
  next
    case False
    then have hits: "hits_from test lines index =
        (if scan_line test (ln_text (lines ! index)) then [index] else []) @ hits_from test lines (index + 1)"
      by (intro hits_from_step) simp
    let ?around = "context_of (gi_contextLines inp) lines index"
    let ?next = "matches @ [match_at inp lines index]"
    show ?thesis
    proof (cases "scan_line test (ln_text (lines ! index))")
      case miss: False
      then have "grep_from test inp lines (index + 1) matches returned = (ms, r)"
        using "1.prems"(1) False by (subst (asm) grep_from.simps) (simp add: Let_def)
      from "1.IH"(1) [OF False refl miss this "1.prems"(2-4)] miss show ?thesis by (simp add: hits)
    next
      case hit: True
      note run = "1.prems"(1) [unfolded grep_from.simps [of test inp lines index matches returned]]
      show ?thesis
      proof (cases "returned + length ?around > gi_maxReturnedLines inp")
        case True
        with run False hit "1.prems"(2-4) show ?thesis
          by (intro exI [of _ 0]) (auto simp: Let_def)
      next
        case fits: False
        have grown: "returned + length ?around = returned_lines ?next"
          using "1.prems"(2) by (simp add: returned_lines_def match_at_def)
        show ?thesis
        proof (cases "length ?next \<ge> gi_maxMatches inp")
          case True
          with run False hit fits have "ms = ?next" "r = Some MaxMatches"
            by (simp_all add: Let_def match_at_def)
          with fits grown "1.prems"(4) hit show ?thesis
            by (intro exI [of _ 1]) (auto simp: hits)
        next
          case more: False
          with run False hit fits
          have again: "grep_from test inp lines (index + 1) ?next (returned + length ?around) = (ms, r)"
            by (simp add: Let_def match_at_def)
          have sides: "\<not> \<not> scan_line test (ln_text (lines ! index))"
            "returned + length ?around \<le> gi_maxReturnedLines inp"
            "?next = [] \<or> length ?next < gi_maxMatches inp"
            using hit fits more by simp_all
          from "1.IH"(2) [OF False refl sides(1) refl fits refl, folded match_at_def, OF more again grown sides(2,3)]
          obtain k where
            "k \<le> length (hits_from test lines (index + 1))"
            "ms = ?next @ map (match_at inp lines) (take k (hits_from test lines (index + 1)))"
            "r = None \<longrightarrow> k = length (hits_from test lines (index + 1))" "r \<noteq> Some MaxBytes"
            "returned_lines ms \<le> gi_maxReturnedLines inp" "length ms \<le> max 1 (gi_maxMatches inp)"
            by blast
          with hit show ?thesis by (intro exI [of _ "Suc k"]) (simp add: hits)
        qed
      qed
    qed
  qed
qed


section \<open>A concrete process\<close>

definition demo_limits :: output_limits where
  "demo_limits = \<lparr>ol_maxProcessOutputBytes = 9, ol_maxThreadOutputBytes = 100\<rparr>"

definition demo_calls :: "append_call list" where
  "demo_calls = [(''p'', Stdout, [CHR ''a'', LF], 1), (''p'', Stdout, [CHR ''b''], 2),
     (''p'', Stdout, [CHR ''c'', LF, CHR ''d''], 3)]"

definition demo_chunks :: "output_chunk list" where
  "demo_chunks = listOutputChunks ''p'' (Some Stdout) (os_chunks (append_all demo_limits demo_calls empty_output))"

lemma demo_calls_valid: "\<forall>(p, st, tx, now) \<in> set demo_calls. valid_utf8 tx"
  by (auto simp: demo_calls_def byte_def LF_def intro!: valid_utf8_ascii)

lemma demo_chained: "chained 0 [] demo_chunks"
  unfolding demo_chunks_def using output_ok_chained [OF demo_calls_valid] by blast

lemma demo_chunks_eval:
  "stream_text demo_chunks = [CHR ''a'', LF, CHR ''b'', CHR ''c'', LF, CHR ''d'']"
  "map oc_text demo_chunks = [[CHR ''a'', LF], [CHR ''b'', CHR ''c'', LF, CHR ''d'']]"
  "cut_inside 2 demo_chunks = False"
  by code_simp+

text \<open>A window of two bytes that ends between the two chunks is returned without a limit.\<close>

theorem byte_range_exact_witness:
  "readByteRange 0 2 demo_chunks = ([CHR ''a'', LF], None)"
proof -
  have "decode_utf8 (take 2 (drop 0 (stream_text demo_chunks))) = [CHR ''a'', LF]" by code_simp
  with byte_range_exact [OF demo_chained, of 2 0, unfolded add_0 demo_chunks_eval(3)] show ?thesis by simp
qed

definition demo_read :: read_input where
  "demo_read = \<lparr>ri_stream = Stdout, ri_startLine = Some 2, ri_endLine = Some 2, ri_startByte = None,
     ri_maxLines = None, ri_maxBytes = 50\<rparr>"

theorem line_range_exact_witness:
  "readOutputChunks demo_read demo_chunks = ([CHR ''b'', CHR ''c'', LF], None)"
proof -
  have streams: "\<forall>c \<in> set demo_chunks. oc_stream c = Stdout" by code_simp
  have run: "readOutputChunks demo_read demo_chunks = ([CHR ''b'', CHR ''c'', LF], None)" by code_simp
  have "[CHR ''b'', CHR ''c'', LF] =
      concat (take (nat (2 - 2 + 1)) (drop (nat (2 - 1)) (splitLines (stream_text demo_chunks))))"
    by (rule line_range_exact [OF demo_chained streams _ _ _ _ _ run]) (simp_all add: demo_read_def)
  with run show ?thesis by simp
qed

definition demo_grep :: grep_input where
  "demo_grep = \<lparr>gi_pattern = ''c'', gi_stream = Some Stdout, gi_caseSensitive = True, gi_contextLines = 0,
     gi_maxMatches = 5, gi_maxReturnedLines = 5, gi_maxBytes = 50\<rparr>"

definition demo_compile :: "string \<Rightarrow> bool \<Rightarrow> string + line_test" where
  "demo_compile pattern sensitive = Inr (\<lambda>_ l. \<exists>c \<in> set l. [c] = pattern)"


end
