(* ===== verification/Watcher_Polling.thy ===== *)
theory Watcher_Polling
  imports Runtime_Lifecycle Output_Slices
begin

text \<open>
  Watched processes in \<open>src/compute/thread-service.ts\<close>: reading their status and output, polling
  the watchers that are due, stopping and watching processes. Output lengths are counted in bytes;
  a stored stream is a prefix of the cumulative one, so the byte count selects the same suffix as
  the code's count of UTF-16 units, unless the store had to cut a character.
\<close>

section \<open>Status and output\<close>

definition updateTerminalProcess ::
    "'x deps \<Rightarrow> string \<Rightarrow> process_status \<times> int option \<Rightarrow> ('x service, unit) act" where
  "updateTerminalProcess D i result = timed D (\<lambda>now.
     dbw D (updateProcess i (no_patch\<lparr>pp_status := Some (fst result),
       pp_finishedAt := (if fst result = PsRunning then None else Some (Some now)),
       pp_exitCode := map_option Some (snd result)\<rparr>)))"

text \<open>\<open>appendOutput\<close> of the service: the store's, then the byte and line counts of the process.\<close>

definition counted :: "out_stream \<Rightarrow> string \<Rightarrow> compute_process \<Rightarrow> process_patch" where
  "counted stream t p =
     (case stream of
        Stdout \<Rightarrow> no_patch\<lparr>pp_stdoutBytes := Some (cp_stdoutBytes p + int (length t)),
          pp_stdoutLines := Some (cp_stdoutLines p + int (countLines t))\<rparr>
      | Stderr \<Rightarrow> no_patch\<lparr>pp_stderrBytes := Some (cp_stderrBytes p + int (length t)),
          pp_stderrLines := Some (cp_stderrLines p + int (countLines t))\<rparr>)"

definition service_appendOutput ::
    "'x deps \<Rightarrow> string \<Rightarrow> out_stream \<Rightarrow> string \<Rightarrow> ('x service, unit) act" where
  "service_appendOutput D i stream t =
     andThen (timed D (\<lambda>now. dbw D (changing (db_appendOutput (sd_limits D) i stream t now)))) (\<lambda>_.
     reading (\<lambda>s. getProcess i (sv_db s)) (\<lambda>p. case p of
         None \<Rightarrow> ret ()
       | Some p \<Rightarrow> dbw D (updateProcess i (counted stream t p))))"

definition ingested :: "string \<Rightarrow> out_stream \<Rightarrow> compute_db \<Rightarrow> nat" where
  "ingested i stream db = length (stream_text (listOutputChunks i (Some stream) (cd_chunks db)))"

definition ingestCumulativeOutput ::
    "'x deps \<Rightarrow> string \<Rightarrow> out_stream \<Rightarrow> string option \<Rightarrow> ('x service, unit) act" where
  "ingestCumulativeOutput D i stream cumulative =
     (case cumulative of
        None \<Rightarrow> ret ()
      | Some t \<Rightarrow> if t = [] then ret ()
          else reading (\<lambda>s. ingested i stream (sv_db s)) (\<lambda>n.
            if length t > n then service_appendOutput D i stream (drop n t) else ret ()))"

definition refreshProcessOutput :: "'x deps \<Rightarrow> string \<Rightarrow> ('x service, unit) act" where
  "refreshProcessOutput D i = on_state (\<lambda>state.
     reading (\<lambda>s. getProcess i (sv_db s)) (\<lambda>p.
       case (active_runtime state, Option.bind p cp_backendProcessRef) of
         (Some runtime, Some ref) \<Rightarrow>
           catching
             (andThen (ext (rb_readProcessOutput (sd_backend D) runtime ref)) (\<lambda>output.
              andThen (ingestCumulativeOutput D i Stdout (fst output)) (\<lambda>_.
              ingestCumulativeOutput D i Stderr (snd output))))
             (\<lambda>e. if isRuntimeMissing e then markRuntimeMissing D else raise e)
       | _ \<Rightarrow> ret ()))"

definition requireProcess_service :: "string \<Rightarrow> ('x service, compute_process) act" where
  "requireProcess_service i = reading (\<lambda>s. getProcess i (sv_db s)) (\<lambda>p.
     case p of None \<Rightarrow> raise (compute_error CeProcessMissing) | Some p \<Rightarrow> ret p)"

definition requireProcessReference ::
    "string \<Rightarrow> ('x service, compute_process \<times> backend_reference) act" where
  "requireProcessReference i = andThen (requireProcess_service i) (\<lambda>p.
     case cp_backendProcessRef p of
       None \<Rightarrow> raise (compute_error CeProcessMissing) | Some r \<Rightarrow> ret (p, r))"

definition refreshProcessStatus :: "'x deps \<Rightarrow> string \<Rightarrow> ('x service, unit) act" where
  "refreshProcessStatus D i =
     andThen (requireProcessReference i) (\<lambda>(p, ref).
     andThen (ensureRuntime D) (\<lambda>runtime.
     andThen (ext (rb_getProcessStatus (sd_backend D) runtime ref)) (\<lambda>status.
     andThen (if fst status \<noteq> cp_status p \<or> snd status \<noteq> None
              then andThen (updateTerminalProcess D i status) (\<lambda>_.
                   if fst status \<noteq> PsRunning then emitCommandEvent ''command_completion'' i else ret ())
              else ret ()) (\<lambda>_.
     if fst status \<noteq> PsRunning then refreshProcessOutput D i else ret ()))))"

definition REMINDER_TAIL_MAX_LINES :: int where "REMINDER_TAIL_MAX_LINES = 20"
definition REMINDER_TAIL_MAX_BYTES :: nat where "REMINDER_TAIL_MAX_BYTES = 2048"

definition buildOutputTail :: "string \<Rightarrow> compute_db \<Rightarrow> string" where
  "buildOutputTail i db =
     (let chunks = listOutputChunks i None (cd_chunks db);
          out = fst (tailOutputChunks Stdout REMINDER_TAIL_MAX_LINES REMINDER_TAIL_MAX_BYTES chunks)
      in if out \<noteq> [] then out
         else fst (tailOutputChunks Stderr REMINDER_TAIL_MAX_LINES REMINDER_TAIL_MAX_BYTES chunks))"

definition releaseWorkHold :: "'x deps \<Rightarrow> string \<Rightarrow> ('x service, unit) act" where
  "releaseWorkHold D i =
     (case (rb_releaseHold (sd_backend D), rb_runCommand (sd_backend D)) of
        (Some command, Some run) \<Rightarrow> bestEffort (on_state (\<lambda>state.
          reading (\<lambda>s. getProcess i (sv_db s)) (\<lambda>p.
          case (active_runtime state, Option.bind p cp_backendProcessRef) of
            (Some runtime, Some ref) \<Rightarrow> andThen (ext (run runtime (command ref))) (\<lambda>_. ret ())
          | _ \<Rightarrow> ret ())))
      | _ \<Rightarrow> ret ())"

section \<open>Polling\<close>

text \<open>\<open>/^nadi-rc:(-?\d+)$/\<close> on the trimmed line; \<open>Number.isSafeInteger\<close>.\<close>

definition rc_of_line :: "string \<Rightarrow> int option" where
  "rc_of_line line =
     (let t = trim line in
      if take 8 t \<noteq> ''nadi-rc:'' then None
      else let rest = drop 8 t;
               neg = take 1 rest = ''-'';
               ds = (if neg then drop 1 rest else rest)
           in if ds = [] \<or> \<not> list_all is_digit ds then None
              else Some (if neg then - int (digits_value 0 ds) else int (digits_value 0 ds)))"

definition parseBackstopRc :: "string \<Rightarrow> int option" where
  "parseBackstopRc stdout =
     (case List.map_filter rc_of_line (rev (js_split LF stdout)) of
        [] \<Rightarrow> None
      | code # _ \<Rightarrow> if \<bar>code\<bar> < 2 ^ 53 then Some code else None)"

definition pollProcessStatus ::
    "'x deps \<Rightarrow> backend_reference \<Rightarrow> backend_reference \<Rightarrow> ('x service, process_status \<times> int option) act" where
  "pollProcessStatus D runtime ref =
     (case (rb_backstopProbe (sd_backend D), rb_runCommand (sd_backend D)) of
        (Some probe, Some run) \<Rightarrow>
          andThen (ext (run runtime (probe ref))) (\<lambda>result.
            case parseBackstopRc (rc_stdout result) of
              Some code \<Rightarrow> ret (PsExited, Some code)
            | None \<Rightarrow> ext (rb_getProcessStatus (sd_backend D) runtime ref))
      | _ \<Rightarrow> ext (rb_getProcessStatus (sd_backend D) runtime ref))"

definition watch_terminal :: "watcher_classification \<Rightarrow> int \<Rightarrow> int option \<Rightarrow> work_terminal" where
  "watch_terminal c now code =
     (if c = WatchExited
      then \<lparr>t_outcome = OExited, t_reason = RProcessExit, t_at = now, t_detail = ''process exited'',
            t_actor = None, t_exitCode = code\<rparr>
      else \<lparr>t_outcome = OTimeout, t_reason = RWatchTimeout, t_at = now, t_detail = ''watch timeout'',
            t_actor = None, t_exitCode = None\<rparr>)"

definition exit_text :: "int option \<Rightarrow> string" where
  "exit_text code = (case code of None \<Rightarrow> ''unknown'' | Some c \<Rightarrow> int_string c)"

definition on_ledger :: "(ledger \<Rightarrow> ledger) \<Rightarrow> ('x service, unit) act" where
  "on_ledger f = changing (\<lambda>s. s\<lparr>sv_ledger := f (sv_ledger s)\<rparr>)"

text \<open>The message of a watched process that exited, or outlived its watch.\<close>

definition watch_reminder ::
    "'x deps \<Rightarrow> string \<Rightarrow> compute_process \<Rightarrow> watcher_classification \<Rightarrow> int option \<Rightarrow> ('x service, unit) act" where
  "watch_reminder D title p c code =
     (if c = WatchExited then
        reading (\<lambda>s. buildOutputTail (cp_id p) (sv_db s)) (\<lambda>tail.
        andThen (remind D
            (''Background process '' @ title @ '' ('' @ cp_command p @ '') exited with code '' @
             exit_text code @ ''. Recent output:'' @ [LF] @ tail) Proactive
            (Some \<lparr>wk_title = title, wk_command = cp_command p, wk_processId = cp_id p,
               wk_outcome = OExited, wk_exitCode = code, wk_outputTail = Some tail\<rparr>))
          (\<lambda>_. emitCommandEvent ''command_completion'' (cp_id p)))
      else
        andThen (remind D
            (''Background process '' @ title @ '' ('' @ cp_command p @
             '') is still running after the watch timeout; no longer watching it.'') Proactive
            (Some \<lparr>wk_title = title, wk_command = cp_command p, wk_processId = cp_id p,
               wk_outcome = OTimeout, wk_exitCode = None, wk_outputTail = None\<rparr>))
          (\<lambda>_. emitCommandEvent ''command_timeout'' (cp_id p)))"

text \<open>
  A terminal classification: the row is closed first, then the output read, then the model told
  unless it was already, then the delivery stamped and the watcher dropped.
\<close>

definition settle_watch ::
    "'x deps \<Rightarrow> watcher_row \<Rightarrow> compute_process \<Rightarrow> watcher_classification \<Rightarrow> int option \<Rightarrow> int \<Rightarrow>
     ('x service, bool) act" where
  "settle_watch D w p c code now =
     (let i = w_processId w;
          title = (case w_label w of Some l \<Rightarrow> if l = [] then cp_command p else l | None \<Rightarrow> cp_command p);
          terminal = watch_terminal c now code
      in reading (\<lambda>s. snd (terminalize i terminal (sv_ledger s))) (\<lambda>closed.
         andThen (on_ledger (\<lambda>l. fst (terminalize i terminal l))) (\<lambda>_.
         andThen (if c = WatchExited then refreshProcessOutput D i else ret ()) (\<lambda>_.
         reading (\<lambda>s. \<not> closed \<and> isDelivered i (sv_ledger s)) (\<lambda>alreadyTold.
           if alreadyTold then andThen (dbw D (changing (deleteWatcher i))) (\<lambda>_. ret True)
           else
             andThen (watch_reminder D title p c code) (\<lambda>_.
             andThen (on_ledger (\<lambda>l. fst (markDelivered i now l))) (\<lambda>_.
             andThen (if closed then releaseWorkHold D i else ret ()) (\<lambda>_.
             andThen (dbw D (changing (deleteWatcher i))) (\<lambda>_.
             ret True)))))))))"

definition pollWatcher ::
    "'x deps \<Rightarrow> watcher_row \<Rightarrow> backend_reference \<Rightarrow> int \<Rightarrow> ('x service, bool) act" where
  "pollWatcher D w runtime now =
     (let i = w_processId w in
      reading (\<lambda>s. getProcess i (sv_db s)) (\<lambda>process.
      case (process, Option.bind process cp_backendProcessRef) of
        (Some p, Some ref) \<Rightarrow>
          andThen (pollProcessStatus D runtime ref) (\<lambda>status.
          andThen (on_ledger (stampAlive i now)) (\<lambda>_.
          andThen (updateTerminalProcess D i status) (\<lambda>_.
          let c = classifyWatcher w (fst status) now in
            if c = WatchPending then
              andThen (dbw D (changing (upsertWatcher
                (w\<lparr>w_nextPollAt := now + w_pollIntervalMs w\<rparr>)))) (\<lambda>_. ret False)
            else if c = WatchRenew then
              andThen (dbw D (changing (upsertWatcher
                (w\<lparr>w_deadlineAt := now + DEFAULT_WATCH_TIMEOUT_MS,
                   w_nextPollAt := now + w_pollIntervalMs w\<rparr>)))) (\<lambda>_. ret False)
            else settle_watch D w p c (snd status) now)))
      | _ \<Rightarrow> andThen (dbw D (changing (deleteWatcher i))) (\<lambda>_. ret False)))"

definition postpone :: "'x deps \<Rightarrow> int \<Rightarrow> watcher_row \<Rightarrow> ('x service, unit) act" where
  "postpone D now w = dbw D (changing (upsertWatcher (w\<lparr>w_nextPollAt := now + w_pollIntervalMs w\<rparr>)))"

text \<open>\<open>delivered\<close>; \<open>probed\<close> is whether this sweep already probed the generation.\<close>

fun pollEach ::
    "'x deps \<Rightarrow> backend_reference \<Rightarrow> int \<Rightarrow> watcher_row list \<Rightarrow> bool \<Rightarrow> bool \<Rightarrow> ('x service, bool) act" where
  "pollEach D runtime now [] probed delivered = ret delivered"
| "pollEach D runtime now (w # ws) probed delivered =
     tryThen (pollWatcher D w runtime now)
       (\<lambda>_. andThen (if probed then ret () else probeAndRecordGeneration D runtime now) (\<lambda>_.
            andThen (postpone D now w) (\<lambda>_.
            pollEach D runtime now ws True delivered)))
       (\<lambda>told. pollEach D runtime now ws probed (told \<or> delivered))"

definition pollDueWatchers :: "'x deps \<Rightarrow> ('x service, unit) act" where
  "pollDueWatchers D = timed D (\<lambda>now.
     reading (\<lambda>s. filter (\<lambda>w. w_nextPollAt w \<le> now) (listWatchers (sv_db s))) (\<lambda>due.
       if due = [] then ret ()
       else tryThen (ensureRuntime D)
         (\<lambda>_. forEach (postpone D now) due)
         (\<lambda>runtime. andThen (pollEach D runtime now due False False) (\<lambda>delivered.
            if delivered then dbw D (touchLastUsed now) else ret ()))))"

section \<open>Watching and stopping\<close>

definition execWatch :: "'x deps \<Rightarrow> string \<Rightarrow> int option \<Rightarrow> ('x service, watcher_row option) act" where
  "execWatch D i timeoutMs =
     (if \<not> sd_supportsProcessMonitor D
      then raise (OtherError ''compute_process_monitor_unavailable'')
      else andThen (refreshProcessStatus D i) (\<lambda>_.
     andThen (requireProcess_service i) (\<lambda>p.
       if cp_status p \<noteq> PsRunning then ret None
       else reading (\<lambda>s. canAddWatcher (int (countWatchers (sv_db s)))) (\<lambda>room.
         if \<not> room then raise (OtherError ''compute_watcher_limit_reached'')
         else andThen (refreshGeneration D) (\<lambda>_. timed D (\<lambda>now.
           let timeout = min (or_else timeoutMs DEFAULT_WATCH_TIMEOUT_MS) MAX_WATCH_TIMEOUT_MS;
               w = \<lparr>w_processId = i, w_deadlineAt = now + timeout,
                    w_pollIntervalMs = sd_monitorPollIntervalMs D,
                    w_nextPollAt = now + sd_monitorPollIntervalMs D, w_label = cp_label p,
                    w_createdAt = now\<rparr>
           in andThen (dbw D (changing (upsertWatcher w))) (\<lambda>_.
              reading (buildProcessWorkRow i now) (\<lambda>row.
              andThen (on_ledger (register row)) (\<lambda>_.
              andThen (refreshWorkAlarm D) (\<lambda>_. ret (Some w)))))))))))"

definition execUnwatch :: "'x deps \<Rightarrow> string \<Rightarrow> ('x service, bool) act" where
  "execUnwatch D i = reading (hasWatcher i) (\<lambda>existed.
     andThen (dbw D (changing (deleteWatcher i))) (\<lambda>_.
     andThen (on_ledger (deleteRow i)) (\<lambda>_. ret existed)))"

fun mode_text :: "stop_mode \<Rightarrow> string" where
  "mode_text Interrupt = ''interrupt''"
| "mode_text Terminate = ''terminate''"
| "mode_text Kill = ''kill''"

definition execStop :: "'x deps \<Rightarrow> string \<Rightarrow> stop_mode \<Rightarrow> ('x service, process_status \<times> int option) act" where
  "execStop D i mode =
     andThen (requireProcessReference i) (\<lambda>(p, ref).
     andThen (ensureRuntime D) (\<lambda>runtime.
     andThen (ext (rb_stopProcess (sd_backend D) runtime ref mode)) (\<lambda>result.
     andThen (updateTerminalProcess D i result) (\<lambda>_. timed D (\<lambda>stoppedAt.
     andThen (changing (close_work i stoppedAt True (''process stopped ('' @ mode_text mode @ '')''))) (\<lambda>_.
     andThen (dbw D (changing (deleteWatcher i))) (\<lambda>_.
     andThen (emitCommandEvent ''command_stop'' i) (\<lambda>_. ret result))))))))"

definition stopProcessDirect :: "'x deps \<Rightarrow> string \<Rightarrow> stop_mode \<Rightarrow> ('x service, bool) act" where
  "stopProcessDirect D i mode = on_state (\<lambda>state.
     reading (\<lambda>s. getProcess i (sv_db s)) (\<lambda>process.
     case (active_runtime state, process, Option.bind process cp_backendProcessRef) of
       (Some runtime, Some p, Some ref) \<Rightarrow>
         if cp_status p \<noteq> PsRunning then ret False
         else catching
           (andThen (ext (rb_stopProcess (sd_backend D) runtime ref mode)) (\<lambda>result.
            andThen (updateTerminalProcess D i result) (\<lambda>_.
            andThen (emitCommandEvent ''command_stop'' i) (\<lambda>_. ret True))))
           (\<lambda>_. ret False)
     | _ \<Rightarrow> ret False))"

text \<open>The loop of \<open>stopAllRunningProcesses\<close>: the processes stopped, and those that could not be.\<close>

fun stopEach ::
    "'x deps \<Rightarrow> stop_mode \<Rightarrow> compute_process list \<Rightarrow> ('x service, string list \<times> string list) act" where
  "stopEach D mode [] = ret ([], [])"
| "stopEach D mode (p # ps) =
     andThen (stopProcessDirect D (cp_id p) mode) (\<lambda>ok. timed D (\<lambda>stoppedAt.
     andThen (changing (close_work (cp_id p) stoppedAt True
       ((if ok then ''process stopped ('' else ''process stop failed ('') @ mode_text mode @ '')''))) (\<lambda>_.
     andThen (dbw D (changing (deleteWatcher (cp_id p)))) (\<lambda>_.
     andThen (stopEach D mode ps) (\<lambda>(stopped, failed).
       ret (if ok then (cp_id p # stopped, failed) else (stopped, cp_id p # failed)))))))"

definition stopAllRunningProcesses ::
    "'x deps \<Rightarrow> stop_mode \<Rightarrow> ('x service, string list \<times> string list) act" where
  "stopAllRunningProcesses D mode = on_state (\<lambda>state.
     if active_runtime state = None then ret ([], [])
     else reading (\<lambda>s. filter (\<lambda>p. cp_backendProcessRef p \<noteq> None) (running_processes s))
       (stopEach D mode))"

definition reapProcess :: "'x deps \<Rightarrow> string \<Rightarrow> bool \<Rightarrow> ('x service, unit) act" where
  "reapProcess D i kill =
     andThen (dbw D (changing (deleteWatcher i))) (\<lambda>_.
     andThen (if kill then andThen (stopProcessDirect D i Terminate) (\<lambda>_. ret ()) else ret ()) (\<lambda>_.
     releaseWorkHold D i))"

definition recordPushedExit :: "'x deps \<Rightarrow> string \<Rightarrow> int \<Rightarrow> ('x service, unit) act" where
  "recordPushedExit D i exitCode =
     andThen (updateTerminalProcess D i (PsExited, Some exitCode)) (\<lambda>_. reapProcess D i False)"

text \<open>The loop of \<open>autoWatchRunningProcesses\<close>, from the processes still to look at.\<close>

fun autoWatchEach ::
    "'x deps \<Rightarrow> int \<Rightarrow> compute_process list \<Rightarrow> ('x service, string list) act" where
  "autoWatchEach D minAgeMs [] = ret []"
| "autoWatchEach D minAgeMs (p # ps) = timed D (\<lambda>now.
     if cp_status p \<noteq> PsRunning \<or> now - cp_startedAt p < minAgeMs then autoWatchEach D minAgeMs ps
     else reading (\<lambda>s. wasProcessAutoWatched (cp_id p) (sv_db s) \<or> hasWatcher (cp_id p) s) (\<lambda>skip.
       if skip then autoWatchEach D minAgeMs ps
       else reading (\<lambda>s. canAddWatcher (int (countWatchers (sv_db s)))) (\<lambda>room.
         if \<not> room then ret []
         else andThen (execWatch D (cp_id p) None) (\<lambda>_.
           andThen (timed D (\<lambda>t. dbw D (changing (markProcessAutoWatched (cp_id p) t)))) (\<lambda>_.
           andThen (autoWatchEach D minAgeMs ps) (\<lambda>attached. ret (cp_id p # attached)))))))"

definition autoWatchRunningProcesses :: "'x deps \<Rightarrow> int \<Rightarrow> ('x service, string list) act" where
  "autoWatchRunningProcesses D minAgeMs =
     (if \<not> sd_supportsProcessMonitor D then ret []
      else reading (\<lambda>s. listProcesses 1000 (sv_db s)) (autoWatchEach D minAgeMs))"

end
