(* ===== verification/Injection_Buffer.thy ===== *)
theory Injection_Buffer
  imports Prelude
begin

text \<open>
  \<open>src/src/agent/injection-buffer.ts\<close> and \<open>injection-router.ts\<close>: the durable, deduplicated
  queue of messages to inject into a thread's next model step. The interface
  \<open>InjectionBufferLike\<close> is a locale; the SQLite buffer and the in-memory buffer both provide
  it. A message is a JSON value, so reading it back from \<open>message_json\<close> returns it.
\<close>

section \<open>Data\<close>

datatype injection_kind =
    IkWatcherCompletion | IkSubagentCompletion | IkUserMessage | IkWorkbenchSwitch

record 'm peeked_injection =
  pi_kind :: injection_kind
  pi_message :: 'm
  pi_seq :: int

record 'm pending_row =
  pr_seq :: int
  pr_dedupe_key :: string
  pr_kind :: injection_kind
  pr_message :: 'm
  pr_enqueued_at :: int

definition peeked :: "'m pending_row \<Rightarrow> 'm peeked_injection" where
  "peeked r = \<lparr>pi_kind = pr_kind r, pi_message = pr_message r, pi_seq = pr_seq r\<rparr>"

section \<open>The SQLite buffer\<close>

text \<open>\<open>ib_last\<close> is the \<open>AUTOINCREMENT\<close> counter: the largest \<open>seq\<close> ever given out.\<close>

record 'm injection_buffer =
  ib_rows :: "'m pending_row list"
  ib_last :: int

definition migrateInjections :: "'m injection_buffer option \<Rightarrow> 'm injection_buffer" where
  "migrateInjections db = (case db of None \<Rightarrow> \<lparr>ib_rows = [], ib_last = 0\<rparr> | Some b \<Rightarrow> b)"

definition enqueue ::
    "string \<Rightarrow> injection_kind \<Rightarrow> 'm \<Rightarrow> int \<Rightarrow> 'm injection_buffer \<Rightarrow> 'm injection_buffer \<times> bool" where
  "enqueue dedupeKey kind message now b =
     (if sql_select (\<lambda>r. pr_dedupe_key r = dedupeKey) (ib_rows b) \<noteq> [] then (b, False)
      else (\<lparr>ib_rows = ib_rows b @ [\<lparr>pr_seq = ib_last b + 1, pr_dedupe_key = dedupeKey,
                pr_kind = kind, pr_message = message, pr_enqueued_at = now\<rparr>],
             ib_last = ib_last b + 1\<rparr>, True))"

definition peekAll :: "'m injection_buffer \<Rightarrow> 'm peeked_injection list" where
  "peekAll b = map peeked (sort_key pr_seq (ib_rows b))"

definition deleteDrained :: "int list \<Rightarrow> 'm injection_buffer \<Rightarrow> 'm injection_buffer" where
  "deleteDrained seqs b =
     (if seqs = [] then b
      else b\<lparr>ib_rows := sql_delete (\<lambda>r. pr_seq r \<in> set seqs) (ib_rows b)\<rparr>)"

definition pendingKeys :: "injection_kind \<Rightarrow> 'm injection_buffer \<Rightarrow> string list" where
  "pendingKeys kind b =
     map pr_dedupe_key (sort_key pr_seq (sql_select (\<lambda>r. pr_kind r = kind) (ib_rows b)))"

definition removeInjection ::
    "string \<Rightarrow> injection_kind option \<Rightarrow> 'm injection_buffer \<Rightarrow> 'm injection_buffer \<times> 'm option" where
  "removeInjection dedupeKey kind b =
     (case sql_row pr_dedupe_key dedupeKey (ib_rows b) of
        None \<Rightarrow> (b, None)
      | Some row \<Rightarrow>
          if kind \<noteq> None \<and> kind \<noteq> Some (pr_kind row) then (b, None)
          else (b\<lparr>ib_rows := sql_delete (\<lambda>r. pr_dedupe_key r = dedupeKey) (ib_rows b)\<rparr>,
                Some (pr_message row)))"

definition isEmptyBuffer :: "'m injection_buffer \<Rightarrow> bool" where
  "isEmptyBuffer b \<longleftrightarrow> ib_rows b = []"

section \<open>The in-memory buffer\<close>

record 'm memory_row =
  mr_seq :: int
  mr_kind :: injection_kind
  mr_message :: 'm
  mr_dedupeKey :: string

record 'm memory_buffer =
  mb_rows :: "'m memory_row list"
  mb_seq :: int

definition createMemoryInjectionBuffer :: "'m memory_buffer" where
  "createMemoryInjectionBuffer = \<lparr>mb_rows = [], mb_seq = 0\<rparr>"

definition memEnqueue ::
    "string \<Rightarrow> injection_kind \<Rightarrow> 'm \<Rightarrow> int \<Rightarrow> 'm memory_buffer \<Rightarrow> 'm memory_buffer \<times> bool" where
  "memEnqueue dedupeKey kind message now b =
     (if list_ex (\<lambda>r. mr_dedupeKey r = dedupeKey) (mb_rows b) then (b, False)
      else (\<lparr>mb_rows = mb_rows b @ [\<lparr>mr_seq = mb_seq b, mr_kind = kind, mr_message = message,
                mr_dedupeKey = dedupeKey\<rparr>],
             mb_seq = mb_seq b + 1\<rparr>, True))"

definition memPeekAll :: "'m memory_buffer \<Rightarrow> 'm peeked_injection list" where
  "memPeekAll b =
     map (\<lambda>r. \<lparr>pi_kind = mr_kind r, pi_message = mr_message r, pi_seq = mr_seq r\<rparr>) (mb_rows b)"

definition memDeleteDrained :: "int list \<Rightarrow> 'm memory_buffer \<Rightarrow> 'm memory_buffer" where
  "memDeleteDrained seqs b =
     (if seqs = [] then b
      else b\<lparr>mb_rows := filter (\<lambda>r. mr_seq r \<notin> set seqs) (mb_rows b)\<rparr>)"

definition memPendingKeys :: "injection_kind \<Rightarrow> 'm memory_buffer \<Rightarrow> string list" where
  "memPendingKeys kind b = map mr_dedupeKey (filter (\<lambda>r. mr_kind r = kind) (mb_rows b))"

text \<open>\<open>findIndex\<close> and \<open>splice(idx, 1)\<close>: only the first row with the key goes.\<close>

fun spliceFirst :: "('r \<Rightarrow> bool) \<Rightarrow> 'r list \<Rightarrow> 'r list" where
  "spliceFirst P [] = []"
| "spliceFirst P (r # rs) = (if P r then rs else r # spliceFirst P rs)"

definition memRemove ::
    "string \<Rightarrow> injection_kind option \<Rightarrow> 'm memory_buffer \<Rightarrow> 'm memory_buffer \<times> 'm option" where
  "memRemove dedupeKey kind b =
     (case find (\<lambda>r. mr_dedupeKey r = dedupeKey) (mb_rows b) of
        None \<Rightarrow> (b, None)
      | Some row \<Rightarrow>
          if kind \<noteq> None \<and> kind \<noteq> Some (mr_kind row) then (b, None)
          else (b\<lparr>mb_rows := spliceFirst (\<lambda>r. mr_dedupeKey r = dedupeKey) (mb_rows b)\<rparr>,
                Some (mr_message row)))"

definition memIsEmpty :: "'m memory_buffer \<Rightarrow> bool" where
  "memIsEmpty b \<longleftrightarrow> mb_rows b = []"

section \<open>Routing and draining\<close>

text \<open>
  The router takes any buffer; the flag says whether it kicked a turn. \<open>beginDrain\<close> and
  \<open>finishDrain\<close> are the two halves of \<open>_kickInjectionTurn\<close> around the awaited submission:
  \<open>submitted\<close> is False when \<open>submitMessages\<close> threw.
\<close>

definition routeInjection ::
    "(string \<Rightarrow> injection_kind \<Rightarrow> 'm \<Rightarrow> int \<Rightarrow> 's \<Rightarrow> 's \<times> bool) \<Rightarrow> bool \<Rightarrow> int \<Rightarrow>
     string \<Rightarrow> injection_kind \<Rightarrow> 'm \<Rightarrow> 's \<Rightarrow> 's \<times> bool" where
  "routeInjection enq isTurnActive now dedupeKey kind message s =
     (case enq dedupeKey kind message now s of
        (s', written) \<Rightarrow>
          if \<not> written then (s', False)
          else if isTurnActive then (s', False)
          else (s', True))"

definition assembleStepMessages :: "'a list \<Rightarrow> 'a list \<Rightarrow> 'a list" where
  "assembleStepMessages eventMessages injections = eventMessages @ injections"

definition beginDrain :: "('s \<Rightarrow> 'm peeked_injection list) \<Rightarrow> 's \<Rightarrow> 'm list \<times> int list" where
  "beginDrain peek s = (map pi_message (peek s), map pi_seq (peek s))"

definition finishDrain :: "(int list \<Rightarrow> 's \<Rightarrow> 's) \<Rightarrow> bool \<Rightarrow> int list \<Rightarrow> 's \<Rightarrow> 's" where
  "finishDrain del submitted seqs s = (if seqs = [] then s else if submitted then del seqs s else s)"


section \<open>The interface\<close>

text \<open>
  \<open>InjectionBufferLike\<close>: a state seen as the queue of its entries, each a dedupe key with what
  \<open>peekAll\<close> shows of it.
\<close>

locale injection_buffer_like =
  fixes enq :: "string \<Rightarrow> injection_kind \<Rightarrow> 'm \<Rightarrow> int \<Rightarrow> 's \<Rightarrow> 's \<times> bool"
    and peek :: "'s \<Rightarrow> 'm peeked_injection list"
    and drop_seqs :: "int list \<Rightarrow> 's \<Rightarrow> 's"
    and keys_of :: "injection_kind \<Rightarrow> 's \<Rightarrow> string list"
    and cancel :: "string \<Rightarrow> injection_kind option \<Rightarrow> 's \<Rightarrow> 's \<times> 'm option"
    and no_entry :: "'s \<Rightarrow> bool"
    and entries :: "'s \<Rightarrow> (string \<times> 'm peeked_injection) list"
    and inv :: "'s \<Rightarrow> bool"
  assumes inv_enq: "inv s \<Longrightarrow> inv (fst (enq k kd m now s))"
    and inv_drop: "inv s \<Longrightarrow> inv (drop_seqs qs s)"
    and inv_cancel: "inv s \<Longrightarrow> inv (fst (cancel k kdo s))"
    and keys_distinct: "inv s \<Longrightarrow> distinct (map fst (entries s))"
    and seqs_distinct: "inv s \<Longrightarrow> distinct (map (pi_seq \<circ> snd) (entries s))"
    and enq_pending: "inv s \<Longrightarrow> k \<in> fst ` set (entries s) \<Longrightarrow> enq k kd m now s = (s, False)"
    and enq_fresh: "inv s \<Longrightarrow> k \<notin> fst ` set (entries s) \<Longrightarrow>
      snd (enq k kd m now s) \<and> (\<exists>q. (\<forall>e \<in> set (entries s). pi_seq (snd e) < q) \<and>
        entries (fst (enq k kd m now s)) =
          entries s @ [(k, \<lparr>pi_kind = kd, pi_message = m, pi_seq = q\<rparr>)])"
    and peek_entries: "inv s \<Longrightarrow> peek s = map snd (entries s)"
    and drop_entries: "inv s \<Longrightarrow>
      entries (drop_seqs qs s) = filter (\<lambda>e. pi_seq (snd e) \<notin> set qs) (entries s)"
    and keys_entries: "inv s \<Longrightarrow>
      keys_of kd s = map fst (filter (\<lambda>e. pi_kind (snd e) = kd) (entries s))"
    and cancel_entries: "inv s \<Longrightarrow> cancel k kdo s =
      (case map_of (entries s) k of None \<Rightarrow> (s, None)
       | Some e \<Rightarrow> if kdo = None \<or> kdo = Some (pi_kind e)
           then (fst (cancel k kdo s), Some (pi_message e)) else (s, None))"
    and cancel_removes: "inv s \<Longrightarrow> snd (cancel k kdo s) \<noteq> None \<Longrightarrow>
      entries (fst (cancel k kdo s)) = filter (\<lambda>e. fst e \<noteq> k) (entries s)"
    and no_entry_entries: "inv s \<Longrightarrow> no_entry s \<longleftrightarrow> entries s = []"
begin

text \<open>A queue of deliveries attempted while a submission is awaited.\<close>

definition enq_all :: "(string \<times> injection_kind \<times> 'm \<times> int) list \<Rightarrow> 's \<Rightarrow> 's" where
  "enq_all xs s = fold (\<lambda>(k, kd, m, now) s. fst (enq k kd m now s)) xs s"

lemma enq_all_extends:
  assumes "inv s"
  shows "inv (enq_all xs s) \<and> (\<exists>new. entries (enq_all xs s) = entries s @ new \<and>
    (\<forall>e \<in> set new. \<forall>e' \<in> set (entries s). pi_seq (snd e') < pi_seq (snd e)))"
  using assms
proof (induction xs arbitrary: s)
  case Nil
  then show ?case by (simp add: enq_all_def)
next
  case (Cons x xs)
  obtain k kd m now where x: "x = (k, kd, m, now)" by (cases x)
  let ?s = "fst (enq k kd m now s)"
  have step: "enq_all (x # xs) s = enq_all xs ?s" by (simp add: enq_all_def x)
  have one: "\<exists>new. entries ?s = entries s @ new \<and>
      (\<forall>e \<in> set new. \<forall>e' \<in> set (entries s). pi_seq (snd e') < pi_seq (snd e))"
  proof (cases "k \<in> fst ` set (entries s)")
    case True
    with Cons.prems show ?thesis by (simp add: enq_pending)
  next
    case False
    then obtain q where "\<forall>e \<in> set (entries s). pi_seq (snd e) < q"
      and "entries ?s = entries s @ [(k, \<lparr>pi_kind = kd, pi_message = m, pi_seq = q\<rparr>)]"
      using enq_fresh [OF Cons.prems False] by blast
    then show ?thesis by simp
  qed
  from Cons.prems have "inv ?s" by (rule inv_enq)
  from Cons.IH [OF this] one show ?case unfolding step by fastforce
qed

text \<open>
  A drain loses and duplicates nothing: what it submitted, followed by what is left, is what was
  ever queued, in order, whatever arrived while the submission was awaited.
\<close>

lemma drain_partition:
  assumes "inv s" and "beginDrain peek s = (msgs, seqs)"
  shows "entries (enq_all xs s) = entries s @ entries (finishDrain drop_seqs True seqs (enq_all xs s))"
    and "msgs = map (pi_message \<circ> snd) (entries s)"
proof -
  from enq_all_extends [OF assms(1)] obtain new where
    inv': "inv (enq_all xs s)" and new: "entries (enq_all xs s) = entries s @ new"
    and later: "\<forall>e \<in> set new. \<forall>e' \<in> set (entries s). pi_seq (snd e') < pi_seq (snd e)"
    by blast
  from assms have seqs: "seqs = map (pi_seq \<circ> snd) (entries s)"
    and msgs: "msgs = map (pi_message \<circ> snd) (entries s)"
    by (auto simp: beginDrain_def peek_entries)
  from msgs show "msgs = map (pi_message \<circ> snd) (entries s)" .
  have kept: "filter (\<lambda>e. pi_seq (snd e) \<notin> set seqs) new = new"
    using later by (fastforce simp: seqs filter_id_conv)
  have gone: "filter (\<lambda>e. pi_seq (snd e) \<notin> set seqs) (entries s) = []"
    by (auto simp: seqs filter_empty_conv)
  show "entries (enq_all xs s) =
      entries s @ entries (finishDrain drop_seqs True seqs (enq_all xs s))"
  proof (cases "seqs = []")
    case True
    with seqs have "entries s = []" by simp
    with True show ?thesis by (simp add: finishDrain_def)
  next
    case False
    with inv' new kept gone show ?thesis by (simp add: finishDrain_def drop_entries)
  qed
qed

lemma route_pending:
  assumes "inv s" and "k \<in> fst ` set (entries s)"
  shows "routeInjection enq active now k kd m s = (s, False)"
  using assms by (simp add: routeInjection_def enq_pending)

lemma route_fresh:
  assumes "inv s" and "k \<notin> fst ` set (entries s)"
  shows "snd (routeInjection enq active now k kd m s) = (\<not> active)"
    and "map fst (entries (fst (routeInjection enq active now k kd m s))) = map fst (entries s) @ [k]"
  using enq_fresh [OF assms, of kd m now]
  by (auto simp: routeInjection_def split: prod.splits)

lemma route_once:
  assumes "inv s"
  shows "\<not> snd (enq k kd' m' now' (fst (routeInjection enq active now k kd m s)))"
proof (cases "k \<in> fst ` set (entries s)")
  case True
  with assms show ?thesis by (simp add: route_pending enq_pending)
next
  case False
  let ?s = "fst (routeInjection enq active now k kd m s)"
  have "inv ?s"
    using inv_enq [OF assms, of k kd m now] by (auto simp: routeInjection_def split: prod.splits)
  moreover have "k \<in> fst ` set (entries ?s)"
    using route_fresh(2) [OF assms False, of active now kd m]
    by (metis list.set_map in_set_conv_decomp)
  ultimately show ?thesis by (simp add: enq_pending)
qed

end

section \<open>Both buffers provide it\<close>

definition sql_entries :: "'m injection_buffer \<Rightarrow> (string \<times> 'm peeked_injection) list" where
  "sql_entries b = map (\<lambda>r. (pr_dedupe_key r, peeked r)) (ib_rows b)"

definition sql_buffer_inv :: "'m injection_buffer \<Rightarrow> bool" where
  "sql_buffer_inv b \<longleftrightarrow> sql_keyed pr_dedupe_key (ib_rows b) \<and>
     sorted_wrt (<) (map pr_seq (ib_rows b)) \<and> (\<forall>r \<in> set (ib_rows b). pr_seq r \<le> ib_last b)"

definition mem_entries :: "'m memory_buffer \<Rightarrow> (string \<times> 'm peeked_injection) list" where
  "mem_entries b = map (\<lambda>r. (mr_dedupeKey r,
     \<lparr>pi_kind = mr_kind r, pi_message = mr_message r, pi_seq = mr_seq r\<rparr>)) (mb_rows b)"

definition mem_buffer_inv :: "'m memory_buffer \<Rightarrow> bool" where
  "mem_buffer_inv b \<longleftrightarrow> distinct (map mr_dedupeKey (mb_rows b)) \<and>
     sorted_wrt (<) (map mr_seq (mb_rows b)) \<and> (\<forall>r \<in> set (mb_rows b). mr_seq r < mb_seq b)"

lemma sorted_wrt_filter_map:
  "sorted_wrt (<) (map f xs) \<Longrightarrow> sorted_wrt (<) (map f (filter P xs))"
  by (simp add: sorted_wrt_map sorted_wrt_filter)

lemma sort_key_increasing: "sorted_wrt (<) (map f xs) \<Longrightarrow> sort_key f xs = (xs :: 'a list)"
  for f :: "'a \<Rightarrow> int"
  by (rule sort_key_id_if_sorted) (auto simp: strict_sorted_iff)

lemma spliceFirst_filter:
  "distinct (map f xs) \<Longrightarrow> spliceFirst (\<lambda>r. f r = k) xs = filter (\<lambda>r. f r \<noteq> k) xs"
proof (induction xs)
  case (Cons x xs)
  then have "\<forall>r \<in> set xs. f r \<noteq> f x" by (metis distinct.simps(2) image_eqI list.map(2) set_map)
  then have "filter (\<lambda>r. f r \<noteq> f x) xs = xs" by (simp add: filter_id_conv)
  with Cons show ?case by auto
qed simp

lemma map_of_keyed_rows:
  "map_of (map (\<lambda>r. (f r, g r)) xs) k = map_option g (find (\<lambda>r. f r = k) xs)"
  by (induction xs) auto

lemmas increasing_distinct = strict_sorted_iff [THEN iffD1, THEN conjunct2]

interpretation sql_buffer: injection_buffer_like enqueue peekAll deleteDrained pendingKeys
  removeInjection isEmptyBuffer sql_entries sql_buffer_inv
proof unfold_locales
  fix s :: "'m injection_buffer" and k kd m now qs kdo
  assume inv: "sql_buffer_inv s"
  then have keyed: "distinct (map pr_dedupe_key (ib_rows s))"
    and incr: "sorted_wrt (<) (map pr_seq (ib_rows s))"
    and last: "\<forall>r \<in> set (ib_rows s). pr_seq r \<le> ib_last s"
    by (auto simp: sql_buffer_inv_def sql_keyed_def)
  show "sql_buffer_inv (fst (enqueue k kd m now s))"
    using inv by (auto simp: enqueue_def sql_buffer_inv_def sql_keyed_def sql_select_def
        filter_empty_conv sorted_wrt_append le_imp_less_Suc intro: order.strict_trans1)
  show "sql_buffer_inv (deleteDrained qs s)"
    using inv by (auto simp: deleteDrained_def sql_buffer_inv_def sql_keyed_def sql_delete_def
        distinct_map_filter sorted_wrt_filter_map)
  show "sql_buffer_inv (fst (removeInjection k kdo s))"
    using inv by (auto simp: removeInjection_def sql_buffer_inv_def sql_keyed_def sql_delete_def
        distinct_map_filter sorted_wrt_filter_map split: option.splits)
  show "distinct (map fst (sql_entries s))"
    using keyed by (simp add: sql_entries_def comp_def)
  show "distinct (map (pi_seq \<circ> snd) (sql_entries s))"
    using incr by (simp add: sql_entries_def comp_def peeked_def increasing_distinct)
  show "enqueue k kd m now s = (s, False)" if "k \<in> fst ` set (sql_entries s)"
    using that by (auto simp: enqueue_def sql_entries_def sql_select_def filter_empty_conv)
  show "snd (enqueue k kd m now s) \<and> (\<exists>q. (\<forall>e \<in> set (sql_entries s). pi_seq (snd e) < q) \<and>
      sql_entries (fst (enqueue k kd m now s)) =
        sql_entries s @ [(k, \<lparr>pi_kind = kd, pi_message = m, pi_seq = q\<rparr>)])"
    if "k \<notin> fst ` set (sql_entries s)"
    using that last
    by (intro conjI exI [of _ "ib_last s + 1"])
      (auto simp: enqueue_def sql_entries_def sql_select_def filter_empty_conv peeked_def image_iff)
  show "peekAll s = map snd (sql_entries s)"
    using incr by (simp add: peekAll_def sort_key_increasing sql_entries_def comp_def)
  show "sql_entries (deleteDrained qs s) = filter (\<lambda>e. pi_seq (snd e) \<notin> set qs) (sql_entries s)"
    by (auto simp: deleteDrained_def sql_entries_def sql_delete_def filter_map comp_def peeked_def)
  show "pendingKeys kd s = map fst (filter (\<lambda>e. pi_kind (snd e) = kd) (sql_entries s))"
    using incr
    by (simp add: pendingKeys_def sql_select_def sql_entries_def sort_key_increasing
        sorted_wrt_filter_map filter_map comp_def peeked_def)
  show "removeInjection k kdo s = (case map_of (sql_entries s) k of None \<Rightarrow> (s, None)
      | Some e \<Rightarrow> if kdo = None \<or> kdo = Some (pi_kind e)
          then (fst (removeInjection k kdo s), Some (pi_message e)) else (s, None))"
    by (auto simp: removeInjection_def sql_entries_def map_of_keyed_rows sql_row_def peeked_def
        split: option.splits)
  show "sql_entries (fst (removeInjection k kdo s)) = filter (\<lambda>e. fst e \<noteq> k) (sql_entries s)"
    if "snd (removeInjection k kdo s) \<noteq> None"
    using that
    by (auto simp: removeInjection_def sql_entries_def sql_delete_def filter_map comp_def
        split: option.splits if_splits)
  show "isEmptyBuffer s \<longleftrightarrow> sql_entries s = []"
    by (simp add: isEmptyBuffer_def sql_entries_def)
qed

interpretation mem_buffer: injection_buffer_like memEnqueue memPeekAll memDeleteDrained
  memPendingKeys memRemove memIsEmpty mem_entries mem_buffer_inv
proof unfold_locales
  fix s :: "'m memory_buffer" and k kd m now qs kdo
  assume inv: "mem_buffer_inv s"
  then have keyed: "distinct (map mr_dedupeKey (mb_rows s))"
    and incr: "sorted_wrt (<) (map mr_seq (mb_rows s))"
    and last: "\<forall>r \<in> set (mb_rows s). mr_seq r < mb_seq s"
    by (auto simp: mem_buffer_inv_def)
  show "mem_buffer_inv (fst (memEnqueue k kd m now s))"
    using inv by (auto simp: memEnqueue_def mem_buffer_inv_def list_ex_iff sorted_wrt_append
        intro: less_trans)
  show "mem_buffer_inv (memDeleteDrained qs s)"
    using inv by (auto simp: memDeleteDrained_def mem_buffer_inv_def distinct_map_filter
        sorted_wrt_filter_map)
  show "mem_buffer_inv (fst (memRemove k kdo s))"
    using inv by (auto simp: memRemove_def mem_buffer_inv_def distinct_map_filter
        spliceFirst_filter sorted_wrt_filter_map split: option.splits)
  show "distinct (map fst (mem_entries s))"
    using keyed by (simp add: mem_entries_def comp_def)
  show "distinct (map (pi_seq \<circ> snd) (mem_entries s))"
    using incr by (simp add: mem_entries_def comp_def increasing_distinct)
  show "memEnqueue k kd m now s = (s, False)" if "k \<in> fst ` set (mem_entries s)"
    using that by (auto simp: memEnqueue_def mem_entries_def list_ex_iff)
  show "snd (memEnqueue k kd m now s) \<and> (\<exists>q. (\<forall>e \<in> set (mem_entries s). pi_seq (snd e) < q) \<and>
      mem_entries (fst (memEnqueue k kd m now s)) =
        mem_entries s @ [(k, \<lparr>pi_kind = kd, pi_message = m, pi_seq = q\<rparr>)])"
    if "k \<notin> fst ` set (mem_entries s)"
    using that last
    by (intro conjI exI [of _ "mb_seq s"])
      (auto simp: memEnqueue_def mem_entries_def list_ex_iff image_iff)
  show "memPeekAll s = map snd (mem_entries s)"
    by (simp add: memPeekAll_def mem_entries_def comp_def)
  show "mem_entries (memDeleteDrained qs s) = filter (\<lambda>e. pi_seq (snd e) \<notin> set qs) (mem_entries s)"
    by (auto simp: memDeleteDrained_def mem_entries_def filter_map comp_def)
  show "memPendingKeys kd s = map fst (filter (\<lambda>e. pi_kind (snd e) = kd) (mem_entries s))"
    by (simp add: memPendingKeys_def mem_entries_def filter_map comp_def)
  show "memRemove k kdo s = (case map_of (mem_entries s) k of None \<Rightarrow> (s, None)
      | Some e \<Rightarrow> if kdo = None \<or> kdo = Some (pi_kind e)
          then (fst (memRemove k kdo s), Some (pi_message e)) else (s, None))"
    by (auto simp: memRemove_def mem_entries_def map_of_keyed_rows split: option.splits)
  show "mem_entries (fst (memRemove k kdo s)) = filter (\<lambda>e. fst e \<noteq> k) (mem_entries s)"
    if "snd (memRemove k kdo s) \<noteq> None"
    using that keyed
    by (auto simp: memRemove_def mem_entries_def filter_map comp_def spliceFirst_filter
        split: option.splits if_splits)
  show "memIsEmpty s \<longleftrightarrow> mem_entries s = []"
    by (simp add: memIsEmpty_def mem_entries_def)
qed


section \<open>Guarantees\<close>

definition enqueueAll ::
    "(string \<times> injection_kind \<times> 'm \<times> int) list \<Rightarrow> 'm injection_buffer \<Rightarrow> 'm injection_buffer" where
  "enqueueAll xs b = fold (\<lambda>(k, kd, m, now) s. fst (enqueue k kd m now s)) xs b"

text \<open>C34: a drain of the durable buffer neither loses nor repeats a message: what was peeked and
  submitted, followed by what a later successful delete leaves, is everything that was ever queued,
  in order, whatever was enqueued while the submission was awaited; and a submission that throws
  leaves the whole queue in place.\<close>

theorem drain_partitions_queue:
  assumes "sql_buffer_inv b" and "beginDrain peekAll b = (msgs, seqs)"
    and "late = enqueueAll xs b"
  shows "msgs = map (pi_message \<circ> snd) (sql_entries b) \<and>
    sql_entries late = sql_entries b @ sql_entries (finishDrain deleteDrained True seqs late) \<and>
    finishDrain deleteDrained False seqs late = late"
proof -
  have "late = sql_buffer.enq_all xs b"
    by (simp add: assms(3) enqueueAll_def sql_buffer.enq_all_def)
  then show ?thesis
    using sql_buffer.drain_partition(1) [OF assms(1,2), of xs]
      sql_buffer.drain_partition(2) [OF assms(1,2)] by (simp add: finishDrain_def)
qed

definition demo_buffer :: "nat injection_buffer" where
  "demo_buffer = enqueueAll [(''a'', IkUserMessage, 1, 0), (''b'', IkUserMessage, 2, 0)]
     (migrateInjections None)"

theorem drain_partitions_queue_witness:
  "map (pi_message \<circ> snd) (sql_entries (finishDrain deleteDrained True [1, 2]
     (enqueueAll [(''a'', IkUserMessage, 7, 1), (''c'', IkUserMessage, 3, 1)] demo_buffer))) = [3]"
proof -
  have inv: "sql_buffer_inv demo_buffer"
    by (simp add: demo_buffer_def enqueueAll_def enqueue_def migrateInjections_def
        sql_buffer_inv_def sql_keyed_def sql_select_def)
  have begin_seqs: "beginDrain peekAll demo_buffer = ([1, 2], [1, 2])"
    by (simp add: demo_buffer_def enqueueAll_def enqueue_def migrateInjections_def
        beginDrain_def peekAll_def sql_select_def peeked_def)
  have "sql_entries (enqueueAll [(''a'', IkUserMessage, 7, 1), (''c'', IkUserMessage, 3, 1)] demo_buffer) =
      sql_entries demo_buffer @ [(''c'', \<lparr>pi_kind = IkUserMessage, pi_message = 3, pi_seq = 3\<rparr>)]"
    by (simp add: demo_buffer_def enqueueAll_def enqueue_def migrateInjections_def
        sql_entries_def sql_select_def peeked_def)
  moreover have "sql_entries (enqueueAll [(''a'', IkUserMessage, 7, 1), (''c'', IkUserMessage, 3, 1)]
        demo_buffer) = sql_entries demo_buffer @ sql_entries (finishDrain deleteDrained True [1, 2]
          (enqueueAll [(''a'', IkUserMessage, 7, 1), (''c'', IkUserMessage, 3, 1)] demo_buffer))"
    using drain_partitions_queue [OF inv begin_seqs refl] by blast
  ultimately show ?thesis by simp
qed

text \<open>
  The in-memory buffer stands in for the durable one in tests. Its sequence numbers start at 0
  where SQLite's start at 1, and neither reuses one.
\<close>

datatype 'm buffer_op =
    BEnqueue string injection_kind 'm int
  | BDelete "int list"
  | BRemove string "injection_kind option"

fun sql_step :: "'m buffer_op \<Rightarrow> 'm injection_buffer \<Rightarrow> 'm injection_buffer \<times> bool \<times> 'm option" where
  "sql_step (BEnqueue k kd m now) b = (case enqueue k kd m now b of (b', r) \<Rightarrow> (b', r, None))"
| "sql_step (BDelete seqs) b = (deleteDrained (map (\<lambda>q. q + 1) seqs) b, False, None)"
| "sql_step (BRemove k kdo) b = (case removeInjection k kdo b of (b', r) \<Rightarrow> (b', False, r))"

fun mem_step :: "'m buffer_op \<Rightarrow> 'm memory_buffer \<Rightarrow> 'm memory_buffer \<times> bool \<times> 'm option" where
  "mem_step (BEnqueue k kd m now) b = (case memEnqueue k kd m now b of (b', r) \<Rightarrow> (b', r, None))"
| "mem_step (BDelete seqs) b = (memDeleteDrained seqs b, False, None)"
| "mem_step (BRemove k kdo) b = (case memRemove k kdo b of (b', r) \<Rightarrow> (b', False, r))"

fun buffer_run :: "('op \<Rightarrow> 's \<Rightarrow> 's \<times> 'r) \<Rightarrow> 'op list \<Rightarrow> 's \<Rightarrow> 's \<times> 'r list" where
  "buffer_run step [] s = (s, [])"
| "buffer_run step (x # xs) s =
     (let (s', r) = step x s; (s'', rs) = buffer_run step xs s' in (s'', r # rs))"

definition strip_row :: "'m pending_row \<Rightarrow> 'm memory_row" where
  "strip_row r = \<lparr>mr_seq = pr_seq r - 1, mr_kind = pr_kind r, mr_message = pr_message r,
     mr_dedupeKey = pr_dedupe_key r\<rparr>"

definition buffers_agree :: "'m injection_buffer \<Rightarrow> 'm memory_buffer \<Rightarrow> bool" where
  "buffers_agree b m \<longleftrightarrow> sql_buffer_inv b \<and> mb_rows m = map strip_row (ib_rows b) \<and> mb_seq m = ib_last b"

lemma find_strip_row:
  "find (\<lambda>r. mr_dedupeKey r = k) (map strip_row rows) =
     map_option strip_row (sql_row pr_dedupe_key k rows)"
  by (induction rows) (auto simp: sql_row_def strip_row_def)

lemma strip_row_simps [simp]:
  "mr_dedupeKey (strip_row r) = pr_dedupe_key r"
  "mr_kind (strip_row r) = pr_kind r"
  "mr_message (strip_row r) = pr_message r"
  "mr_seq (strip_row r) = pr_seq r - 1"
  by (simp_all add: strip_row_def)

lemma buffers_agree_step:
  assumes agree: "buffers_agree b m"
  shows "buffers_agree (fst (sql_step x b)) (fst (mem_step x m)) \<and>
    snd (sql_step x b) = snd (mem_step x m)"
proof (cases x)
  case (BEnqueue k kd u now)
  have "sql_buffer_inv (fst (enqueue k kd u now b))"
    using agree sql_buffer.inv_enq by (auto simp: buffers_agree_def)
  moreover have "list_ex (\<lambda>r. mr_dedupeKey r = k) (mb_rows m) \<longleftrightarrow>
      sql_select (\<lambda>r. pr_dedupe_key r = k) (ib_rows b) \<noteq> []"
    using agree by (auto simp: buffers_agree_def list_ex_iff sql_select_def filter_empty_conv)
  ultimately show ?thesis
    using agree BEnqueue
    by (auto simp: buffers_agree_def enqueue_def memEnqueue_def strip_row_def)
next
  case (BDelete seqs)
  have "sql_buffer_inv (deleteDrained (map (\<lambda>q. q + 1) seqs) b)"
    using agree sql_buffer.inv_drop by (auto simp: buffers_agree_def)
  moreover have "n \<in> (\<lambda>q. q + 1) ` set seqs \<longleftrightarrow> n - 1 \<in> set seqs" for n :: int
    by (auto simp: image_iff intro: bexI [of _ "n - 1"])
  ultimately show ?thesis
    using agree BDelete
    by (auto simp: buffers_agree_def deleteDrained_def memDeleteDrained_def sql_delete_def
        filter_map comp_def)
next
  case (BRemove k kdo)
  have "sql_buffer_inv (fst (removeInjection k kdo b))"
    using agree sql_buffer.inv_cancel by (auto simp: buffers_agree_def)
  moreover have "spliceFirst (\<lambda>r. mr_dedupeKey r = k) (map strip_row (ib_rows b)) =
      map strip_row (sql_delete (\<lambda>r. pr_dedupe_key r = k) (ib_rows b))"
    using agree by (subst spliceFirst_filter)
      (auto simp: buffers_agree_def sql_buffer_inv_def sql_keyed_def comp_def filter_map sql_delete_def)
  ultimately show ?thesis
    using agree BRemove
    by (auto simp: buffers_agree_def removeInjection_def memRemove_def find_strip_row
        split: option.splits)
qed

lemma buffers_agree_run:
  "buffers_agree b m \<Longrightarrow>
     buffers_agree (fst (buffer_run sql_step xs b)) (fst (buffer_run mem_step xs m)) \<and>
     snd (buffer_run sql_step xs b) = snd (buffer_run mem_step xs m)"
proof (induction xs arbitrary: b m)
  case (Cons x xs)
  have "buffers_agree (fst (sql_step x b)) (fst (mem_step x m))"
    and "snd (sql_step x b) = snd (mem_step x m)"
    using buffers_agree_step [OF Cons.prems] by auto
  with Cons.IH show ?case by (force simp: Let_def split: prod.splits)
qed simp

lemma buffers_agree_reads:
  assumes "buffers_agree b m"
  shows "map pi_message (peekAll b) = map pi_message (memPeekAll m)"
    and "pendingKeys kd b = memPendingKeys kd m"
    and "isEmptyBuffer b = memIsEmpty m"
  using assms sort_key_increasing [of pr_seq "ib_rows b"]
    sort_key_increasing [OF sorted_wrt_filter_map, of pr_seq "ib_rows b"]
  by (auto simp: buffers_agree_def sql_buffer_inv_def peekAll_def memPeekAll_def pendingKeys_def
      memPendingKeys_def sql_select_def isEmptyBuffer_def memIsEmpty_def comp_def filter_map peeked_def)

text \<open>From empty, the durable and the in-memory buffer return the same results to every
  sequence of writes and then show the same messages, pending keys and emptiness.\<close>

theorem memory_buffer_equivalent:
  fixes ops :: "'m buffer_op list" and b :: "'m injection_buffer" and m :: "'m memory_buffer"
  defines "b \<equiv> fst (buffer_run sql_step ops (migrateInjections None))"
    and "m \<equiv> fst (buffer_run mem_step ops createMemoryInjectionBuffer)"
  shows "snd (buffer_run sql_step ops (migrateInjections None)) =
      snd (buffer_run mem_step ops createMemoryInjectionBuffer) \<and>
    map pi_message (peekAll b) = map pi_message (memPeekAll m) \<and>
    pendingKeys kind b = memPendingKeys kind m \<and> isEmptyBuffer b = memIsEmpty m"
proof -
  have "buffers_agree (migrateInjections None) (createMemoryInjectionBuffer :: 'm memory_buffer)"
    by (simp add: buffers_agree_def migrateInjections_def createMemoryInjectionBuffer_def
        sql_buffer_inv_def)
  from buffers_agree_run [OF this, of ops] show ?thesis
    unfolding b_def m_def using buffers_agree_reads by blast
qed

end
