(* ===== verification/Work_Sweep.thy ===== *)
theory Work_Sweep
  imports Work_Ledger_Store Injection_Buffer
begin

text \<open>
  The reaper of \<open>src/src/agent/think-thread-agent.ts\<close> (\<open>runWorkLedgerSweep\<close>,
  \<open>terminalizeWork\<close>, \<open>deliverWorkTerminal\<close>, \<open>workFacts\<close>, \<open>workHorizon\<close>,
  \<open>reaperAlreadyReported\<close>) over the ledger and the injection buffer, with the messages of
  \<open>src/src/agent/system-reminder.ts\<close>.

  What the sweep reads from outside is the environment of one tick: the resolved compute service
  (\<open>None\<close> when compute is disabled or did not resolve), the SDK's stored label of a subagent run,
  which dedupe keys the buffer write throws on, whether a turn is running, and the clock. The
  random message id is left out. Teardown calls are recorded in order; they run after the
  ledger and the buffer are written, and their failure is swallowed by the source.
\<close>

section \<open>Messages\<close>

record watcher_completion_info =
  wi_title :: string
  wi_command :: string
  wi_processId :: string
  wi_outcome :: work_outcome
  wi_reason :: "work_reason option"
  wi_exitCode :: "int option"
  wi_outputTail :: "string option"

datatype injected_message =
    SystemReminder string
  | WatcherCompletion string watcher_completion_info

definition reminder_text :: "string \<Rightarrow> string" where
  "reminder_text body =
     ''<system-reminder>'' @ [CHR 0x0A] @ body @ [CHR 0x0A] @ ''</system-reminder>''"

definition buildSystemReminderMessage :: "string \<Rightarrow> injected_message" where
  "buildSystemReminderMessage body = SystemReminder (reminder_text body)"

definition buildWatcherCompletionMessage ::
    "string \<Rightarrow> watcher_completion_info \<Rightarrow> injected_message" where
  "buildWatcherCompletionMessage body watcher = WatcherCompletion (reminder_text body) watcher"

section \<open>The tick's environment and state\<close>

text \<open>\<open>cv_reapView\<close> is \<open>processReapView\<close>: \<open>Inl\<close> when it throws, else the label and command.\<close>

record compute_view =
  cv_hasWatcher :: "string \<Rightarrow> bool"
  cv_generation :: current_generation
  cv_reapView :: "string \<Rightarrow> unit + (string \<times> string) option"

record sweep_env =
  se_service :: "compute_view option"
  se_subagentLabel :: "string \<Rightarrow> string option"
  se_bufferThrows :: "string \<Rightarrow> bool"
  se_turnActive :: bool
  se_now :: int
  se_deliveredAt :: int

datatype teardown = CancelSubagentRun string | ReapProcess string bool

record sweep_state =
  ss_ledger :: ledger
  ss_buffer :: "injected_message injection_buffer"
  ss_kicks :: nat
  ss_teardown :: "teardown list"

section \<open>Delivery\<close>

definition workFacts :: "sweep_env \<Rightarrow> string \<Rightarrow> work_kind \<Rightarrow> string \<times> string \<times> compute_view option" where
  "workFacts env i kind =
     (if kind = KSubagent
      then ((case se_subagentLabel env i of None \<Rightarrow> i | Some l \<Rightarrow> l), [], None)
      else case se_service env of
        None \<Rightarrow> (i, [], None)
      | Some service \<Rightarrow>
          (case cv_reapView service i of
             Inl _ \<Rightarrow> (i, [], None)
           | Inr None \<Rightarrow> (i, [], Some service)
           | Inr (Some (label, command)) \<Rightarrow> (label, command, Some service)))"

fun outcome_text :: "work_outcome \<Rightarrow> string" where
  "outcome_text OExited = ''exited''"
| "outcome_text OStopped = ''stopped''"
| "outcome_text OTimeout = ''timeout''"
| "outcome_text OFault = ''fault''"

definition work_dedupeKey :: "work_kind \<Rightarrow> string \<Rightarrow> work_outcome \<Rightarrow> string" where
  "work_dedupeKey kind i oc =
     (if kind = KSubagent then ''subagent'' else ''watcher'') @ '':'' @ i @ '':'' @ outcome_text oc"

definition work_message ::
    "sweep_env \<Rightarrow> string \<Rightarrow> work_terminal \<Rightarrow> work_kind \<Rightarrow> int \<Rightarrow> injected_message" where
  "work_message env i terminal kind lastAliveAt =
     (let silentMs = max 0 (t_at terminal - lastAliveAt);
          (label, command, service) = workFacts env i kind;
          body = buildFaultMessage (t_reason terminal) kind i label silentMs
      in if kind = KSubagent then buildSystemReminderMessage body
         else buildWatcherCompletionMessage body
           \<lparr>wi_title = label, wi_command = command, wi_processId = i,
            wi_outcome = t_outcome terminal, wi_reason = Some (t_reason terminal),
            wi_exitCode = None, wi_outputTail = None\<rparr>)"

text \<open>\<open>deliverInjection\<close>: \<open>None\<close> when the buffer write throws, and then nothing was queued.\<close>

definition deliverInjection ::
    "sweep_env \<Rightarrow> string \<Rightarrow> injection_kind \<Rightarrow> injected_message \<Rightarrow> sweep_state \<Rightarrow> sweep_state option" where
  "deliverInjection env dedupeKey kind message st =
     (if se_bufferThrows env dedupeKey then None
      else case routeInjection enqueue (se_turnActive env) (se_now env) dedupeKey kind message
              (ss_buffer st) of
        (b, kicked) \<Rightarrow> Some (st\<lparr>ss_buffer := b,
                                ss_kicks := ss_kicks st + (if kicked then 1 else 0)\<rparr>))"

definition deliverWorkTerminal ::
    "sweep_env \<Rightarrow> string \<Rightarrow> work_terminal \<Rightarrow> work_kind \<Rightarrow> int \<Rightarrow> sweep_state \<Rightarrow> sweep_state option" where
  "deliverWorkTerminal env i terminal kind lastAliveAt st =
     (case deliverInjection env (work_dedupeKey kind i (t_outcome terminal))
             (if kind = KSubagent then IkSubagentCompletion else IkWatcherCompletion)
             (work_message env i terminal kind lastAliveAt) st of
        None \<Rightarrow> None
      | Some st' \<Rightarrow>
          Some (st'\<lparr>ss_ledger := fst (markDelivered i (se_deliveredAt env) (ss_ledger st'))\<rparr>))"

section \<open>The terminal funnel\<close>

datatype funnel_result = FunnelRefused | FunnelClosed | FunnelThrew

definition terminalizeWork ::
    "sweep_env \<Rightarrow> string \<Rightarrow> work_terminal \<Rightarrow> work_kind \<Rightarrow> sweep_state \<Rightarrow> sweep_state \<times> funnel_result" where
  "terminalizeWork env i terminal kind st =
     (let row = get_row i (ss_ledger st);
          (l, won) = terminalize i terminal (ss_ledger st);
          st1 = st\<lparr>ss_ledger := l\<rparr>
      in if \<not> won then (st1, FunnelRefused)
         else case deliverWorkTerminal env i terminal kind
                (case row of None \<Rightarrow> t_at terminal | Some r \<Rightarrow> wr_lastAliveAt r) st1 of
           None \<Rightarrow> (st1, FunnelThrew)
         | Some st2 \<Rightarrow>
             (st2\<lparr>ss_teardown := ss_teardown st2 @
                (if kind = KSubagent then [CancelSubagentRun i]
                 else case snd (snd (workFacts env i kind)) of
                   None \<Rightarrow> []
                 | Some _ \<Rightarrow> [ReapProcess i (t_reason terminal = RNoLiveness)])\<rparr>,
              FunnelClosed))"

section \<open>The sweep\<close>

fun state_text :: "work_classification \<Rightarrow> string" where
  "state_text WcAlive = ''alive''"
| "state_text WcFault = ''fault''"
| "state_text WcExpired = ''expired''"
| "state_text WcStale = ''stale''"

fun kind_text :: "work_kind \<Rightarrow> string" where
  "kind_text KProcess = ''process''"
| "kind_text KSubagent = ''subagent''"

fun reason_text :: "work_reason \<Rightarrow> string" where
  "reason_text RProcessExit = ''process_exit''"
| "reason_text RProcessStopped = ''process_stopped''"
| "reason_text RWatchTimeout = ''watch_timeout''"
| "reason_text RSandboxReset = ''sandbox_reset''"
| "reason_text RNoLiveness = ''no_liveness''"

definition sweep_terminal :: "int \<Rightarrow> work_row \<Rightarrow> work_classification \<Rightarrow> work_outcome \<Rightarrow> work_reason \<Rightarrow> work_terminal" where
  "sweep_terminal now row c oc re = \<lparr>t_outcome = oc, t_reason = re, t_at = now,
     t_detail = kind_text (wr_kind row) @ '' '' @ state_text c @ '': '' @ reason_text re,
     t_actor = None, t_exitCode = None\<rparr>"

type_synonym sweep_result = "(string \<times> work_classification \<times> work_reason) list \<times> string list"

fun sweepOpenRows ::
    "sweep_env \<Rightarrow> current_generation \<Rightarrow> work_row list \<Rightarrow> sweep_state \<Rightarrow> sweep_state \<times> sweep_result" where
  "sweepOpenRows env gen [] st = (st, [], [])"
| "sweepOpenRows env gen (row # rows) st =
     (let c = classifyWork row gen (se_now env) in
      case wc_verdict c of
        None \<Rightarrow> sweepOpenRows env gen rows st
      | Some (oc, re) \<Rightarrow>
          (let (st1, closed) = terminalizeWork env (wr_id row)
                 (sweep_terminal (se_now env) row c oc re) (wr_kind row) st;
               (st2, classified, terminalized) = sweepOpenRows env gen rows st1
           in (st2, (wr_id row, c, re) # classified,
               (if closed = FunnelClosed then [wr_id row] else []) @ terminalized)))"

fun sweepOwedRows ::
    "sweep_env \<Rightarrow> work_row list \<Rightarrow> sweep_state \<Rightarrow> sweep_state \<times> string list" where
  "sweepOwedRows env [] st = (st, [])"
| "sweepOwedRows env (row # rows) st =
     (case wr_terminal row of
        None \<Rightarrow> sweepOwedRows env rows st
      | Some terminal \<Rightarrow>
          if wr_kind row = KProcess \<and>
             (case se_service env of None \<Rightarrow> False | Some s \<Rightarrow> cv_hasWatcher s (wr_id row))
          then sweepOwedRows env rows st
          else case deliverWorkTerminal env (wr_id row) terminal (wr_kind row)
                 (wr_lastAliveAt row) st of
            None \<Rightarrow> sweepOwedRows env rows st
          | Some st1 \<Rightarrow>
              (let (st2, redelivered) = sweepOwedRows env rows st1
               in (st2, wr_id row # redelivered)))"

definition getCurrentGeneration :: "sweep_env \<Rightarrow> current_generation" where
  "getCurrentGeneration env =
     (case se_service env of None \<Rightarrow> GenUnknown | Some s \<Rightarrow> cv_generation s)"

definition runWorkLedgerSweep ::
    "sweep_env \<Rightarrow> sweep_state \<Rightarrow> sweep_state \<times> sweep_result \<times> string list" where
  "runWorkLedgerSweep env st =
     (let rows = listOpen (ss_ledger st);
          owed = listUndelivered (ss_ledger st)
      in if rows = [] \<and> owed = [] then (st, ([], []), [])
         else
           (let (st1, classified) = sweepOpenRows env (getCurrentGeneration env) rows st;
                (st2, redelivered) = sweepOwedRows env owed st1
            in (st2\<lparr>ss_ledger := prune (se_now env - WORK_ROW_RETENTION_MS) (ss_ledger st2)\<rparr>,
                classified, redelivered)))"

definition workHorizon :: "int \<Rightarrow> ledger \<Rightarrow> int option" where
  "workHorizon now t =
     (let openHorizon = nextSweepAt (listOpen t);
          retryHorizon = (if countUndelivered t > 0 then Some (now + WORK_DELIVERY_RETRY_MS)
                          else None)
      in case openHorizon of
           None \<Rightarrow> retryHorizon
         | Some h \<Rightarrow> (case retryHorizon of None \<Rightarrow> openHorizon | Some r \<Rightarrow> Some (min h r)))"

definition reaperAlreadyReported :: "string \<Rightarrow> ledger \<Rightarrow> bool" where
  "reaperAlreadyReported runId t =
     (case get_row runId t of None \<Rightarrow> False
      | Some row \<Rightarrow> (case wr_terminal row of None \<Rightarrow> False
          | Some terminal \<Rightarrow> t_reason terminal \<in> set REAPER_WORK_REASONS))"


section \<open>What one step does to the ledger\<close>

abbreviation deliverable :: "sweep_env \<Rightarrow> work_kind \<Rightarrow> string \<Rightarrow> work_outcome \<Rightarrow> bool" where
  "deliverable env kind i oc \<equiv> \<not> se_bufferThrows env (work_dedupeKey kind i oc)"

lemma deliverInjection_cases:
  "deliverInjection env k kd m st = None \<and> se_bufferThrows env k \<or>
   (\<exists>st'. deliverInjection env k kd m st = Some st' \<and> \<not> se_bufferThrows env k \<and>
      ss_ledger st' = ss_ledger st \<and> ss_teardown st' = ss_teardown st)"
  by (auto simp: deliverInjection_def split: prod.splits)

lemma deliverWorkTerminal_None:
  "deliverWorkTerminal env i u kind a st = None \<longleftrightarrow> \<not> deliverable env kind i (t_outcome u)"
  using deliverInjection_cases [of env "work_dedupeKey kind i (t_outcome u)"]
  by (auto simp: deliverWorkTerminal_def split: option.splits)
    (metis option.distinct(1))+

lemma deliverWorkTerminal_ledger:
  assumes "deliverWorkTerminal env i u kind a st = Some st'"
  shows "ss_ledger st' = fst (markDelivered i (se_deliveredAt env) (ss_ledger st))"
  using assms deliverInjection_cases [of env "work_dedupeKey kind i (t_outcome u)"]
  by (auto simp: deliverWorkTerminal_def split: option.splits) (metis option.distinct(1) option.sel)+

definition closed_row :: "sweep_env \<Rightarrow> work_terminal \<Rightarrow> work_kind \<Rightarrow> work_row \<Rightarrow> work_row" where
  "closed_row env u kind r = r\<lparr>wr_terminal := Some u,
     wr_deliveredAt := (if deliverable env kind (wr_id r) (t_outcome u)
                        then Some (se_deliveredAt env) else None)\<rparr>"

lemma get_row_id: "get_row i t = Some r \<Longrightarrow> wr_id r = i"
  by (auto simp: get_row_def dest: sql_row_Some_in)

lemma get_row_open_undelivered:
  "ledger_inv t \<Longrightarrow> get_row i t = Some r \<Longrightarrow> wr_open r \<Longrightarrow> wr_deliveredAt r = None"
  by (auto simp: get_row_def ledger_inv_def dest: sql_row_Some_in)

lemma terminalizeWork_row:
  assumes inv: "ledger_inv (ss_ledger st)" and r: "get_row i (ss_ledger st) = Some r" "wr_open r"
  shows "get_row j (ss_ledger (fst (terminalizeWork env i u kind st))) =
      (if j = i then Some (closed_row env u kind r) else get_row j (ss_ledger st))"
    and "ledger_inv (ss_ledger (fst (terminalizeWork env i u kind st)))"
    and "snd (terminalizeWork env i u kind st) =
      (if deliverable env kind i (t_outcome u) then FunnelClosed else FunnelThrew)"
proof -
  obtain l won where t: "terminalize i u (ss_ledger st) = (l, won)" by fastforce
  have won: "won" using gate_terminalize [OF inv, of i u] r t by auto
  have l: "ledger_inv l" using ledger_inv_terminalize [OF inv, of i u] t by simp
  have get_l: "get_row j l = (if j = i then Some (r\<lparr>wr_terminal := Some u\<rparr>)
      else get_row j (ss_ledger st))" for j
    using get_terminalize [of j i u "ss_ledger st"] t r
    by (cases "get_row j (ss_ledger st)") auto
  have none: "wr_deliveredAt r = None" using get_row_open_undelivered [OF inv r] .
  have wid: "wr_id r = i" using r get_row_id by blast
  define a where "a = wr_lastAliveAt r"
  define st1 where "st1 = st\<lparr>ss_ledger := l\<rparr>"
  define more where "more = (if kind = KSubagent then [CancelSubagentRun i]
    else case snd (snd (workFacts env i kind)) of None \<Rightarrow> []
      | Some _ \<Rightarrow> [ReapProcess i (t_reason u = RNoLiveness)])"
  have eq: "terminalizeWork env i u kind st =
      (case deliverWorkTerminal env i u kind a st1 of None \<Rightarrow> (st1, FunnelThrew)
       | Some st2 \<Rightarrow> (st2\<lparr>ss_teardown := ss_teardown st2 @ more\<rparr>, FunnelClosed))"
    unfolding terminalizeWork_def t r st1_def a_def more_def Let_def prod.case option.case
    by (simp add: won)
  have st1: "ss_ledger st1 = l" by (simp add: st1_def)
  note thrown = deliverWorkTerminal_None [of env i u kind a st1]
  have sent: "ss_ledger st2 = fst (markDelivered i (se_deliveredAt env) l)"
    if "deliverWorkTerminal env i u kind a st1 = Some st2" for st2
    using deliverWorkTerminal_ledger [OF that] st1 by simp
  show "get_row j (ss_ledger (fst (terminalizeWork env i u kind st))) =
      (if j = i then Some (closed_row env u kind r) else get_row j (ss_ledger st))"
    using thrown get_l [of j] none wid
    by (auto simp: eq st1 sent closed_row_def get_markDelivered wr_open_def option.map_ident
        split: option.splits)
  show "ledger_inv (ss_ledger (fst (terminalizeWork env i u kind st)))"
    by (auto simp: eq st1 sent l ledger_inv_markDelivered split: option.splits)
  show "snd (terminalizeWork env i u kind st) =
      (if deliverable env kind i (t_outcome u) then FunnelClosed else FunnelThrew)"
    using thrown by (auto simp: eq split: option.splits)
qed

section \<open>What a whole sweep does to each row\<close>

definition swept :: "sweep_env \<Rightarrow> current_generation \<Rightarrow> work_row \<Rightarrow> work_row" where
  "swept env gen r =
     (let c = classifyWork r gen (se_now env) in
      case wc_verdict c of
        None \<Rightarrow> r
      | Some (oc, re) \<Rightarrow> closed_row env (sweep_terminal (se_now env) r c oc re) (wr_kind r) r)"

lemma t_outcome_sweep_terminal [simp]: "t_outcome (sweep_terminal now r c oc re) = oc"
  by (simp add: sweep_terminal_def)

lemma t_at_sweep_terminal [simp]: "t_at (sweep_terminal now r c oc re) = now"
  by (simp add: sweep_terminal_def)

lemma sweepOpenRows_row:
  assumes "ledger_inv (ss_ledger st)" and "distinct (map wr_id rows)"
    and "\<forall>r \<in> set rows. get_row (wr_id r) (ss_ledger st) = Some r \<and> wr_open r"
  shows "ledger_inv (ss_ledger (fst (sweepOpenRows env gen rows st))) \<and>
    get_row j (ss_ledger (fst (sweepOpenRows env gen rows st))) =
      (case find (\<lambda>r. wr_id r = j) rows of None \<Rightarrow> get_row j (ss_ledger st)
       | Some r \<Rightarrow> Some (swept env gen r))"
  using assms
proof (induction rows arbitrary: st)
  case Nil
  then show ?case by simp
next
  case (Cons row rows)
  let ?c = "classifyWork row gen (se_now env)"
  show ?case
  proof (cases "wc_verdict ?c")
    case None
    with Cons have IH: "ledger_inv (ss_ledger (fst (sweepOpenRows env gen rows st))) \<and>
      get_row j (ss_ledger (fst (sweepOpenRows env gen rows st))) =
      (case find (\<lambda>r. wr_id r = j) rows of None \<Rightarrow> get_row j (ss_ledger st)
       | Some r \<Rightarrow> Some (swept env gen r))"
      by simp
    have "find (\<lambda>r. wr_id r = wr_id row) rows = None"
      using Cons.prems(2) by (simp add: find_key_fresh)
    with IH None Cons.prems(3) show ?thesis by (auto simp: swept_def)
  next
    case (Some v)
    then obtain oc re where v: "wc_verdict ?c = Some (oc, re)" by (cases v) auto
    let ?u = "sweep_terminal (se_now env) row ?c oc re"
    let ?st = "fst (terminalizeWork env (wr_id row) ?u (wr_kind row) st)"
    have row: "get_row (wr_id row) (ss_ledger st) = Some row" "wr_open row"
      using Cons.prems(3) by auto
    note step = terminalizeWork_row [OF Cons.prems(1) row, where env = env and u = ?u and kind = "wr_kind row"]
    have rest: "\<forall>r \<in> set rows. get_row (wr_id r) (ss_ledger ?st) = Some r \<and> wr_open r"
      using Cons.prems(2,3) by (auto simp: step(1) image_iff)
    have fresh: "find (\<lambda>r. wr_id r = wr_id row) rows = None"
      using Cons.prems(2) by (simp add: find_key_fresh)
    have eq: "fst (sweepOpenRows env gen (row # rows) st) = fst (sweepOpenRows env gen rows ?st)"
      using v by (simp add: Let_def split: prod.splits)
    have sw: "swept env gen row = closed_row env ?u (wr_kind row) row"
      using v by (simp add: swept_def Let_def)
    from Cons.IH [OF step(2) _ rest] Cons.prems(2) fresh show ?thesis
      unfolding eq by (cases "find (\<lambda>r. wr_id r = j) rows") (auto simp: step(1) sw)
  qed
qed

text \<open>The retry pass only ever discharges an owed notification.\<close>

definition told_or_same :: "int \<Rightarrow> work_row option \<Rightarrow> work_row option \<Rightarrow> bool" where
  "told_or_same at old new \<longleftrightarrow> new = old \<or>
     (\<exists>r. old = Some r \<and> \<not> wr_open r \<and> wr_deliveredAt r = None \<and>
        new = Some (r\<lparr>wr_deliveredAt := Some at\<rparr>))"

lemma told_or_same_refl [simp]: "told_or_same at r r"
  by (simp add: told_or_same_def)

lemma told_or_same_trans:
  "told_or_same at a b \<Longrightarrow> told_or_same at b c \<Longrightarrow> told_or_same at a c"
  by (auto simp: told_or_same_def)

lemma told_or_same_markDelivered:
  "told_or_same at (get_row j t) (get_row j (fst (markDelivered i at t)))"
  by (cases "get_row j t") (auto simp: told_or_same_def get_markDelivered)

lemma sweepOwedRows_row:
  assumes "ledger_inv (ss_ledger st)"
  shows "ledger_inv (ss_ledger (fst (sweepOwedRows env rows st))) \<and>
    told_or_same (se_deliveredAt env) (get_row j (ss_ledger st))
      (get_row j (ss_ledger (fst (sweepOwedRows env rows st))))"
  using assms
proof (induction rows arbitrary: st)
  case Nil
  then show ?case by simp
next
  case (Cons row rows)
  let ?skip = "wr_kind row = KProcess \<and>
    (case se_service env of None \<Rightarrow> False | Some s \<Rightarrow> cv_hasWatcher s (wr_id row))"
  consider (unchanged) "fst (sweepOwedRows env (row # rows) st) = fst (sweepOwedRows env rows st)"
    | (sent) u st1 where "deliverWorkTerminal env (wr_id row) u (wr_kind row)
          (wr_lastAliveAt row) st = Some st1"
        "fst (sweepOwedRows env (row # rows) st) = fst (sweepOwedRows env rows st1)"
  proof (cases "wr_terminal row")
    case None
    then show thesis using that(1) by simp
  next
    case (Some u)
    then show thesis
      using that by (cases "deliverWorkTerminal env (wr_id row) u (wr_kind row) (wr_lastAliveAt row) st";
        cases ?skip) (auto split: prod.splits)
  qed
  then show ?case
  proof cases
    case unchanged
    with Cons show ?thesis by simp
  next
    case sent
    note l1 = deliverWorkTerminal_ledger [OF sent(1)]
    have "ledger_inv (ss_ledger st1)"
      using Cons.prems by (simp add: l1 ledger_inv_markDelivered)
    from Cons.IH [OF this] show ?thesis
      unfolding sent(2)
      using told_or_same_trans told_or_same_markDelivered l1 by metis
  qed
qed


text \<open>Which owed rows the retry pass leaves alone: one a live watcher speaks for, and one whose
  buffer write throws.\<close>

definition retry_skips :: "sweep_env \<Rightarrow> work_row \<Rightarrow> bool" where
  "retry_skips env row \<longleftrightarrow>
     (wr_kind row = KProcess \<and>
       (case se_service env of None \<Rightarrow> False | Some s \<Rightarrow> cv_hasWatcher s (wr_id row))) \<or>
     (case wr_terminal row of None \<Rightarrow> True
      | Some u \<Rightarrow> \<not> deliverable env (wr_kind row) (wr_id row) (t_outcome u))"

lemma sweepOwedRows_Cons:
  "fst (sweepOwedRows env (row # rows) st) =
     fst (sweepOwedRows env rows
       (if retry_skips env row then st
        else the (deliverWorkTerminal env (wr_id row) (the (wr_terminal row)) (wr_kind row)
               (wr_lastAliveAt row) st)))"
proof (cases "wr_terminal row")
  case (Some u)
  then show ?thesis
    using deliverWorkTerminal_None [of env "wr_id row" u "wr_kind row" "wr_lastAliveAt row" st]
    by (cases "deliverWorkTerminal env (wr_id row) u (wr_kind row) (wr_lastAliveAt row) st")
      (auto simp: retry_skips_def split: prod.splits)
qed (simp add: retry_skips_def)

lemma retry_delivers:
  assumes "\<not> retry_skips env row"
  shows "ss_ledger (the (deliverWorkTerminal env (wr_id row) (the (wr_terminal row)) (wr_kind row)
      (wr_lastAliveAt row) st)) = fst (markDelivered (wr_id row) (se_deliveredAt env) (ss_ledger st))"
proof -
  obtain u where u: "wr_terminal row = Some u"
      "deliverable env (wr_kind row) (wr_id row) (t_outcome u)"
    using assms by (cases "wr_terminal row") (auto simp: retry_skips_def)
  then obtain st1 where "deliverWorkTerminal env (wr_id row) u (wr_kind row)
      (wr_lastAliveAt row) st = Some st1"
    using deliverWorkTerminal_None by (metis not_None_eq)
  with u show ?thesis by (simp add: deliverWorkTerminal_ledger)
qed

lemma sweepOwedRows_other:
  assumes "\<forall>row \<in> set rows. wr_id row = j \<longrightarrow> retry_skips env row"
  shows "get_row j (ss_ledger (fst (sweepOwedRows env rows st))) = get_row j (ss_ledger st)"
  using assms
proof (induction rows arbitrary: st)
  case (Cons row rows)
  have "get_row j (fst (markDelivered (wr_id row) at t)) = get_row j t" if "wr_id row \<noteq> j" for at t
    using that by (simp add: get_markDelivered option.map_ident)
  with Cons show ?case
    by (cases "retry_skips env row")
      (auto simp: sweepOwedRows_Cons retry_delivers simp del: sweepOwedRows.simps)
qed simp

lemma sweepOwedRows_retried:
  assumes "distinct (map wr_id rows)" and "row \<in> set rows" and "\<not> retry_skips env row"
    and "get_row (wr_id row) (ss_ledger st) = Some row" and "wr_deliveredAt row = None"
  shows "get_row (wr_id row) (ss_ledger (fst (sweepOwedRows env rows st))) =
    Some (row\<lparr>wr_deliveredAt := Some (se_deliveredAt env)\<rparr>)"
  using assms
proof (induction rows arbitrary: st)
  case (Cons x rows)
  let ?st = "if retry_skips env x then st
    else the (deliverWorkTerminal env (wr_id x) (the (wr_terminal x)) (wr_kind x)
           (wr_lastAliveAt x) st)"
  have row_closed: "\<not> wr_open row"
    using Cons.prems(3) by (auto simp: retry_skips_def wr_open_def split: option.splits)
  show ?case
  proof (cases "x = row")
    case True
    with Cons.prems have "\<forall>r \<in> set rows. wr_id r \<noteq> wr_id row" by (metis distinct.simps(2) image_eqI list.simps(9) set_map)
    then have "get_row (wr_id row) (ss_ledger (fst (sweepOwedRows env (x # rows) st))) =
        get_row (wr_id row) (ss_ledger ?st)"
      using sweepOwedRows_other by (simp add: sweepOwedRows_Cons del: sweepOwedRows.simps)
    with True Cons.prems(3-5) row_closed show ?thesis
      by (simp add: retry_delivers get_markDelivered)
  next
    case False
    then have "wr_id x \<noteq> wr_id row" using Cons.prems(1,2) by force
    then have "get_row (wr_id row) (ss_ledger ?st) = Some row"
      using Cons.prems(4) by (simp add: retry_delivers get_markDelivered)
    with Cons False show ?thesis by (simp add: sweepOwedRows_Cons del: sweepOwedRows.simps)
  qed
qed simp

lemma listOpen_rows:
  assumes "ledger_inv t"
  shows "distinct (map wr_id (listOpen t))"
    and "r \<in> set (listOpen t) \<longleftrightarrow> get_row (wr_id r) t = Some r \<and> wr_open r"
    and "find (\<lambda>r. wr_id r = j) (listOpen t) =
      (case get_row j t of None \<Rightarrow> None | Some r \<Rightarrow> if wr_open r then Some r else None)"
proof -
  have keyed: "sql_keyed lr_id t" using assms by (rule ledger_inv_keyed)
  then have "sql_keyed lr_id (sql_select (\<lambda>r. lr_terminal r = None) t)"
    by (simp add: sql_keyed_def sql_select_def distinct_map_filter)
  then show d: "distinct (map wr_id (listOpen t))"
    by (simp add: listOpen_def comp_def sql_keyed_def)
  show *: "r \<in> set (listOpen t) \<longleftrightarrow> get_row (wr_id r) t = Some r \<and> wr_open r" for r
    using keyed by (auto simp: listOpen_def get_row_def sql_row_keyed set_sql_select)
  show "find (\<lambda>r. wr_id r = j) (listOpen t) =
      (case get_row j t of None \<Rightarrow> None | Some r \<Rightarrow> if wr_open r then Some r else None)"
  proof (cases "find (\<lambda>r. wr_id r = j) (listOpen t)")
    case None
    then have "\<forall>r \<in> set (listOpen t). wr_id r \<noteq> j" by (auto simp: find_None_iff)
    then have "\<not> wr_open r" if "get_row j t = Some r" for r
      using * [of r] get_row_id [OF that] that by auto
    with None show ?thesis by (simp split: option.splits)
  next
    case (Some r)
    then have "r \<in> set (listOpen t) \<and> wr_id r = j" by (auto simp: find_Some_iff)
    with Some show ?thesis by (auto simp: *)
  qed
qed

lemma listUndelivered_rows:
  assumes "ledger_inv t"
  shows "r \<in> set (listUndelivered t) \<longleftrightarrow>
    get_row (wr_id r) t = Some r \<and> \<not> wr_open r \<and> wr_deliveredAt r = None"
  using assms
  by (auto simp: listUndelivered_def get_row_def sql_row_keyed set_sql_select ledger_inv_keyed)

lemma listUndelivered_ids:
  assumes "ledger_inv t" and "get_row j t = Some r" and "wr_open r \<or> wr_deliveredAt r \<noteq> None"
  shows "j \<notin> wr_id ` set (listUndelivered t)"
proof
  assume "j \<in> wr_id ` set (listUndelivered t)"
  then obtain r' where "r' \<in> set (listUndelivered t)" and "wr_id r' = j" by blast
  then have "get_row j t = Some r'" "\<not> wr_open r'" "wr_deliveredAt r' = None"
    using listUndelivered_rows [OF assms(1), of r'] by auto
  with assms(2,3) show False by auto
qed

abbreviation sweep_ledger :: "sweep_env \<Rightarrow> sweep_state \<Rightarrow> ledger" where
  "sweep_ledger env st \<equiv> ss_ledger (fst (runWorkLedgerSweep env st))"

definition before_prune :: "sweep_env \<Rightarrow> sweep_state \<Rightarrow> ledger" where
  "before_prune env st = ss_ledger (fst (sweepOwedRows env (listUndelivered (ss_ledger st))
     (fst (sweepOpenRows env (getCurrentGeneration env) (listOpen (ss_ledger st)) st))))"

lemma sweep_ledger_cases:
  "sweep_ledger env st = prune (se_now env - WORK_ROW_RETENTION_MS) (before_prune env st) \<or>
   (sweep_ledger env st = ss_ledger st \<and> listOpen (ss_ledger st) = [] \<and>
    listUndelivered (ss_ledger st) = [])"
  by (auto simp: runWorkLedgerSweep_def before_prune_def Let_def split: prod.splits)

lemma before_prune_inv:
  assumes "ledger_inv (ss_ledger st)"
  shows "ledger_inv (before_prune env st)"
  unfolding before_prune_def
  using sweepOpenRows_row [OF assms listOpen_rows(1) [OF assms]] listOpen_rows(2) [OF assms]
    sweepOwedRows_row by blast

lemma sweep_ledger_inv: "ledger_inv (ss_ledger st) \<Longrightarrow> ledger_inv (sweep_ledger env st)"
  using sweep_ledger_cases [of env st] by (auto simp: before_prune_inv ledger_inv_prune)

lemma before_prune_row:
  assumes inv: "ledger_inv (ss_ledger st)"
  shows "get_row j (ss_ledger st) = Some r \<Longrightarrow> wr_open r \<Longrightarrow>
      get_row j (before_prune env st) = Some (swept env (getCurrentGeneration env) r)"
    and "get_row j (ss_ledger st) = Some r \<Longrightarrow> \<not> wr_open r \<Longrightarrow>
      told_or_same (se_deliveredAt env) (Some r) (get_row j (before_prune env st))"
    and "get_row j (ss_ledger st) = None \<Longrightarrow> get_row j (before_prune env st) = None"
proof -
  let ?st = "fst (sweepOpenRows env (getCurrentGeneration env) (listOpen (ss_ledger st)) st)"
  have "\<forall>r \<in> set (listOpen (ss_ledger st)). get_row (wr_id r) (ss_ledger st) = Some r \<and> wr_open r"
    using listOpen_rows(2) [OF inv] by blast
  note loop = sweepOpenRows_row [OF inv listOpen_rows(1) [OF inv] this]
  have inv1: "ledger_inv (ss_ledger ?st)" using loop by blast
  have row1: "get_row j (ss_ledger ?st) = (case get_row j (ss_ledger st) of None \<Rightarrow> None
      | Some r \<Rightarrow> if wr_open r then Some (swept env (getCurrentGeneration env) r) else Some r)"
    using loop [THEN conjunct2, of j env "getCurrentGeneration env"]
    unfolding listOpen_rows(3) [OF inv] by (simp split: option.splits if_splits)
  note told = sweepOwedRows_row [OF inv1, of env "listUndelivered (ss_ledger st)" j, THEN conjunct2]
  show "get_row j (before_prune env st) = Some (swept env (getCurrentGeneration env) r)"
    if r: "get_row j (ss_ledger st) = Some r" "wr_open r"
  proof -
    have "j \<notin> wr_id ` set (listUndelivered (ss_ledger st))"
      using listUndelivered_ids [OF inv r(1)] r(2) by blast
    then have "get_row j (before_prune env st) = get_row j (ss_ledger ?st)"
      unfolding before_prune_def by (intro sweepOwedRows_other) auto
    with r row1 show ?thesis by simp
  qed
  show "told_or_same (se_deliveredAt env) (Some r) (get_row j (before_prune env st))"
    if "get_row j (ss_ledger st) = Some r" "\<not> wr_open r"
    using that told row1 by (simp add: before_prune_def)
  show "get_row j (before_prune env st) = None" if "get_row j (ss_ledger st) = None"
    using that told row1 by (simp add: before_prune_def told_or_same_def)
qed

lemma swept_open: "wr_open (swept env gen r) \<Longrightarrow> swept env gen r = r"
  by (auto simp: swept_def Let_def closed_row_def wr_open_def split: option.splits prod.splits)

lemma swept_alive:
  "wr_open (swept env gen r) \<Longrightarrow> classifyWork (swept env gen r) gen (se_now env) = WcAlive"
  by (auto simp: swept_def Let_def closed_row_def wr_open_def split: option.splits prod.splits)

lemma swept_kept:
  assumes "ledger_inv t" and "get_row j t = Some (swept env gen r)" and "wr_open r"
  shows "get_row j (prune (se_now env - WORK_ROW_RETENTION_MS) t) = Some (swept env gen r)"
  using assms
  by (auto simp: get_prune swept_def Let_def closed_row_def wr_open_def WORK_ROW_RETENTION_MS_def
      split: option.splits prod.splits)

lemma sweep_open_row:
  assumes inv: "ledger_inv (ss_ledger st)"
    and r: "get_row j (ss_ledger st) = Some r" "wr_open r"
  shows "get_row j (sweep_ledger env st) = Some (swept env (getCurrentGeneration env) r)"
proof -
  have "r \<in> set (listOpen (ss_ledger st))"
    using r get_row_id [OF r(1)] by (simp add: listOpen_rows(2) [OF inv])
  then have "sweep_ledger env st = prune (se_now env - WORK_ROW_RETENTION_MS) (before_prune env st)"
    using sweep_ledger_cases [of env st] by auto
  then show ?thesis
    using swept_kept [OF before_prune_inv [OF inv] before_prune_row(1) [OF inv r] r(2)] by simp
qed

lemma sweep_closed_row:
  assumes inv: "ledger_inv (ss_ledger st)"
    and r: "get_row j (ss_ledger st) = Some r" "\<not> wr_open r"
  obtains r' where "told_or_same (se_deliveredAt env) (Some r) (Some r')"
    and "get_row j (sweep_ledger env st) = Some r' \<or>
      get_row j (sweep_ledger env st) = None \<and> wr_deliveredAt r' \<noteq> None"
proof -
  obtain r' where r': "get_row j (before_prune env st) = Some r'"
      "told_or_same (se_deliveredAt env) (Some r) (Some r')"
    using before_prune_row(2) [OF inv r, of env] by (auto simp: told_or_same_def)
  show thesis
  proof (cases "sweep_ledger env st = ss_ledger st")
    case True
    with r show thesis using that [of r] by simp
  next
    case False
    then have "sweep_ledger env st =
        prune (se_now env - WORK_ROW_RETENTION_MS) (before_prune env st)"
      using sweep_ledger_cases by blast
    then have "get_row j (sweep_ledger env st) = Some r' \<or>
        get_row j (sweep_ledger env st) = None \<and> wr_deliveredAt r' \<noteq> None"
      using r'(1) by (simp add: get_prune before_prune_inv [OF inv] split: option.split)
    with r'(2) show thesis using that by blast
  qed
qed

lemma sweep_no_new_row:
  assumes "ledger_inv (ss_ledger st)" and "get_row j (ss_ledger st) = None"
  shows "get_row j (sweep_ledger env st) = None"
  using sweep_ledger_cases [of env st] before_prune_row(3) [OF assms, of env] assms
  by (auto simp: get_prune before_prune_inv)


section \<open>Announcements\<close>

definition pending_dedupe_keys :: "sweep_state \<Rightarrow> string set" where
  "pending_dedupe_keys st = set (map pr_dedupe_key (ib_rows (ss_buffer st)))"

lemma append_last_eq: "xs @ [x] = ys @ [y] \<longleftrightarrow> xs = ys \<and> x = y"
  by simp

lemma outcome_text_no_colon: "CHR '':'' \<notin> set (outcome_text oc)"
  by (cases oc) auto

lemma outcome_text_inj: "outcome_text a = outcome_text b \<longleftrightarrow> a = b"
  by (cases a; cases b) auto

lemma split_at_last_colon:
  assumes "CHR '':'' \<notin> set a" and "CHR '':'' \<notin> set b"
    and "xs @ CHR '':'' # a = ys @ CHR '':'' # b"
  shows "xs = ys \<and> a = b"
proof -
  have "takeWhile (\<lambda>c. c \<noteq> CHR '':'') (rev (xs @ CHR '':'' # a)) = rev a"
    using assms(1) by (simp, subst takeWhile_append2) auto
  moreover have "takeWhile (\<lambda>c. c \<noteq> CHR '':'') (rev (ys @ CHR '':'' # b)) = rev b"
    using assms(2) by (simp, subst takeWhile_append2) auto
  ultimately have "rev a = rev b" using assms(3) by simp
  with assms(3) show ?thesis by simp
qed

lemma work_dedupeKey_inj:
  "work_dedupeKey k i oc = work_dedupeKey k' i' oc' \<longleftrightarrow>
     (k = KSubagent) = (k' = KSubagent) \<and> i = i' \<and> oc = oc'"
proof
  let ?p = "\<lambda>k. if k = KSubagent then ''subagent'' else ''watcher''"
  assume eq: "work_dedupeKey k i oc = work_dedupeKey k' i' oc'"
  then have "(?p k @ '':'' @ i) @ CHR '':'' # outcome_text oc =
      (?p k' @ '':'' @ i') @ CHR '':'' # outcome_text oc'"
    by (simp add: work_dedupeKey_def)
  from split_at_last_colon [OF outcome_text_no_colon outcome_text_no_colon this]
  have "?p k @ '':'' @ i = ?p k' @ '':'' @ i'" and "oc = oc'"
    by (auto simp: outcome_text_inj)
  then show "(k = KSubagent) = (k' = KSubagent) \<and> i = i' \<and> oc = oc'"
    by (auto split: if_splits)
qed (auto simp: work_dedupeKey_def)

lemma enqueue_keys:
  "set (map pr_dedupe_key (ib_rows (fst (enqueue k kd m now b)))) =
     insert k (set (map pr_dedupe_key (ib_rows b)))"
  by (auto simp: enqueue_def sql_select_def filter_empty_conv)

lemma deliverWorkTerminal_keys:
  assumes "deliverWorkTerminal env i u kind a st = Some st'"
  shows "pending_dedupe_keys st' =
    insert (work_dedupeKey kind i (t_outcome u)) (pending_dedupe_keys st)"
  using assms
  using enqueue_keys [of "work_dedupeKey kind i (t_outcome u)"
      "if kind = KSubagent then IkSubagentCompletion else IkWatcherCompletion"
      "work_message env i u kind a" "se_now env" "ss_buffer st"]
  by (auto simp: deliverWorkTerminal_def deliverInjection_def routeInjection_def
      pending_dedupe_keys_def split: option.splits if_splits prod.splits)

lemma terminalizeWork_cases:
  obtains (silent) l where "fst (terminalizeWork env i u kind st) = st\<lparr>ss_ledger := l\<rparr>"
  | (sent) l a st2 more where
      "deliverWorkTerminal env i u kind a (st\<lparr>ss_ledger := l\<rparr>) = Some st2"
      "fst (terminalizeWork env i u kind st) = st2\<lparr>ss_teardown := more\<rparr>"
proof -
  obtain l won where t: "terminalize i u (ss_ledger st) = (l, won)" by fastforce
  define a where "a = (case get_row i (ss_ledger st) of None \<Rightarrow> t_at u | Some r \<Rightarrow> wr_lastAliveAt r)"
  show thesis
  proof (cases "won \<and> deliverWorkTerminal env i u kind a (st\<lparr>ss_ledger := l\<rparr>) \<noteq> None")
    case True
    then obtain st2 where st2: "deliverWorkTerminal env i u kind a (st\<lparr>ss_ledger := l\<rparr>) = Some st2"
      by blast
    let ?more = "ss_teardown st2 @ (if kind = KSubagent then [CancelSubagentRun i]
      else case snd (snd (workFacts env i kind)) of None \<Rightarrow> []
        | Some _ \<Rightarrow> [ReapProcess i (t_reason u = RNoLiveness)])"
    have "fst (terminalizeWork env i u kind st) = st2\<lparr>ss_teardown := ?more\<rparr>"
      using True unfolding terminalizeWork_def t Let_def prod.case a_def [symmetric] st2 option.case
      by simp
    with st2 that(2) show thesis by blast
  next
    case False
    with that(1) [of l] show thesis
      by (auto simp: terminalizeWork_def t Let_def a_def [symmetric])
  qed
qed

lemma terminalizeWork_keys:
  "pending_dedupe_keys (fst (terminalizeWork env i u kind st)) \<subseteq>
     (if deliverable env kind i (t_outcome u)
      then {work_dedupeKey kind i (t_outcome u)} else {}) \<union> pending_dedupe_keys st"
proof (cases rule: terminalizeWork_cases [of env i u kind st])
  case silent
  then show ?thesis by (simp add: pending_dedupe_keys_def)
next
  case (sent l a st2 more)
  then have "deliverable env kind i (t_outcome u)"
    using deliverWorkTerminal_None [of env i u kind a "st\<lparr>ss_ledger := l\<rparr>"] by simp
  with sent show ?thesis
    using deliverWorkTerminal_keys [OF sent(1)] by (simp add: pending_dedupe_keys_def)
qed

lemma sweepOpenRows_keys:
  assumes "k \<in> pending_dedupe_keys (fst (sweepOpenRows env gen rows st))"
    and "k \<notin> pending_dedupe_keys st"
  shows "\<exists>r oc re. r \<in> set rows \<and> wc_verdict (classifyWork r gen (se_now env)) = Some (oc, re) \<and>
    deliverable env (wr_kind r) (wr_id r) oc \<and> k = work_dedupeKey (wr_kind r) (wr_id r) oc"
  using assms
proof (induction rows arbitrary: st)
  case (Cons row rows)
  let ?c = "classifyWork row gen (se_now env)"
  show ?case
  proof (cases "wc_verdict ?c")
    case None
    with Cons.prems Cons.IH [of st] show ?thesis by fastforce
  next
    case (Some v)
    then obtain oc re where v: "wc_verdict ?c = Some (oc, re)" by (cases v) auto
    let ?u = "sweep_terminal (se_now env) row ?c oc re"
    let ?st = "fst (terminalizeWork env (wr_id row) ?u (wr_kind row) st)"
    have eq: "fst (sweepOpenRows env gen (row # rows) st) = fst (sweepOpenRows env gen rows ?st)"
      using v by (simp add: Let_def split: prod.splits)
    show ?thesis
    proof (cases "k \<in> pending_dedupe_keys ?st")
      case True
      then show ?thesis
        using terminalizeWork_keys [of env "wr_id row" ?u "wr_kind row" st] v Cons.prems(2)
        by (fastforce split: if_splits)
    next
      case False
      with Cons.IH [of ?st] Cons.prems(1) show ?thesis unfolding eq by auto
    qed
  qed
qed simp

lemma sweepOwedRows_keys:
  assumes "k \<in> pending_dedupe_keys (fst (sweepOwedRows env rows st))"
    and "k \<notin> pending_dedupe_keys st"
  shows "\<exists>r u. r \<in> set rows \<and> wr_terminal r = Some u \<and> \<not> retry_skips env r \<and>
    k = work_dedupeKey (wr_kind r) (wr_id r) (t_outcome u)"
  using assms
proof (induction rows arbitrary: st)
  case (Cons row rows)
  show ?case
  proof (cases "retry_skips env row")
    case True
    then have "k \<in> pending_dedupe_keys (fst (sweepOwedRows env rows st))"
      using Cons.prems(1) by (simp add: sweepOwedRows_Cons del: sweepOwedRows.simps)
    from Cons.IH [OF this Cons.prems(2)] show ?thesis by auto
  next
    case False
    then obtain u where u: "wr_terminal row = Some u"
        "deliverable env (wr_kind row) (wr_id row) (t_outcome u)"
      by (cases "wr_terminal row") (auto simp: retry_skips_def)
    then obtain st1 where st1: "deliverWorkTerminal env (wr_id row) u (wr_kind row)
        (wr_lastAliveAt row) st = Some st1"
      using deliverWorkTerminal_None by (metis not_None_eq)
    have "k \<in> pending_dedupe_keys (fst (sweepOwedRows env rows st1))"
      using Cons.prems(1) False u st1
      by (simp add: sweepOwedRows_Cons del: sweepOwedRows.simps)
    then show ?thesis
      using Cons.IH [of st1] Cons.prems(2) deliverWorkTerminal_keys [OF st1] False u
      by (cases "k \<in> pending_dedupe_keys st1") auto
  qed
qed simp

section \<open>The reaper's guarantees\<close>

lemma sweep_row_origin:
  assumes inv: "ledger_inv (ss_ledger st)" and r: "get_row j (sweep_ledger env st) = Some r"
    and "wr_open r"
  shows "get_row j (ss_ledger st) = Some r \<and>
    r = swept env (getCurrentGeneration env) r"
proof (cases "get_row j (ss_ledger st)")
  case None
  with sweep_no_new_row [OF inv None] r show ?thesis by simp
next
  case (Some r0)
  show ?thesis
  proof (cases "wr_open r0")
    case True
    from sweep_open_row [OF inv Some True] r
    have "r = swept env (getCurrentGeneration env) r0" by simp
    with assms(3) swept_open have "r = r0" by metis
    with Some \<open>r = swept env (getCurrentGeneration env) r0\<close> show ?thesis by simp
  next
    case False
    from sweep_closed_row [OF inv Some False, of env] obtain r' where
      "told_or_same (se_deliveredAt env) (Some r0) (Some r')" "r = r'"
      using r by (metis option.distinct(1) option.inject)
    with False assms(3) show ?thesis by (auto simp: told_or_same_def wr_open_def)
  qed
qed

text \<open>After a sweep, whatever the environment did (deliveries throwing, no compute service, a
  reset sandbox), every row still open is alive: no overdue, silent or reset row is left open.\<close>

theorem sweep_leaves_only_live_rows:
  assumes "ledger_inv (ss_ledger st)"
    and "row \<in> set (listOpen (ss_ledger (fst (runWorkLedgerSweep env st))))"
  shows "classifyWork row (getCurrentGeneration env) (se_now env) = WcAlive"
proof -
  have r: "get_row (wr_id row) (sweep_ledger env st) = Some row" "wr_open row"
    using assms by (auto simp: listOpen_rows(2) sweep_ledger_inv)
  show ?thesis using sweep_row_origin [OF assms(1) r] swept_alive r(2) by metis
qed


lemma workHorizon_None:
  "workHorizon now t = None \<longleftrightarrow> listOpen t = [] \<and> listUndelivered t = []"
proof -
  have "{r \<in> set (listOpen t). wr_open r} = set (listOpen t)"
    by (auto simp: listOpen_def set_sql_select)
  then have "nextSweepAt (listOpen t) = None \<longleftrightarrow> listOpen t = []"
    by (simp add: nextSweepAt_least)
  moreover have "countUndelivered t > 0 \<longleftrightarrow> listUndelivered t \<noteq> []"
    by (simp add: countUndelivered_def listUndelivered_def)
  ultimately show ?thesis
    by (auto simp: workHorizon_def Let_def split: option.splits)
qed



lemma sweep_owed_row:
  assumes "ledger_inv (ss_ledger st)"
    and "row \<in> set (listUndelivered (ss_ledger st))"
    and "wr_terminal row = Some u"
  shows "get_row (wr_id row) (sweep_ledger env st) =
    (if retry_skips env row then Some row
     else if t_at u < se_now env - WORK_ROW_RETENTION_MS then None
     else Some (row\<lparr>wr_deliveredAt := Some (se_deliveredAt env)\<rparr>))"
proof -
  let ?L = "ss_ledger st"
  let ?rows = "listOpen ?L"
  let ?st = "fst (sweepOpenRows env (getCurrentGeneration env) ?rows st)"
  note inv = assms(1)
  have row: "get_row (wr_id row) ?L = Some row" "\<not> wr_open row" "wr_deliveredAt row = None"
    using assms(2) listUndelivered_rows [OF inv, of row] by auto
  have "\<forall>r \<in> set ?rows. get_row (wr_id r) ?L = Some r \<and> wr_open r"
    using listOpen_rows(2) [OF inv] by blast
  note loop = sweepOpenRows_row [OF inv listOpen_rows(1) [OF inv] this]
  have row1: "get_row (wr_id row) (ss_ledger ?st) = Some row"
    using loop [THEN conjunct2, of "wr_id row" env "getCurrentGeneration env"] row
    unfolding listOpen_rows(3) [OF inv] by simp
  have distinct: "distinct (map wr_id (listUndelivered ?L))"
    using ledger_inv_keyed [OF inv]
    by (simp add: listUndelivered_def sql_select_def comp_def sql_keyed_def distinct_map_filter)
  have only: "r = row" if "r \<in> set (listUndelivered ?L)" "wr_id r = wr_id row" for r
    using that row listUndelivered_rows [OF inv, of r] by auto
  have before: "get_row (wr_id row) (before_prune env st) =
      (if retry_skips env row then Some row
       else Some (row\<lparr>wr_deliveredAt := Some (se_deliveredAt env)\<rparr>))"
  proof (cases "retry_skips env row")
    case True
    then have "\<forall>r \<in> set (listUndelivered ?L). wr_id r = wr_id row \<longrightarrow> retry_skips env r"
      using only by blast
    from sweepOwedRows_other [OF this] row1 True show ?thesis by (simp add: before_prune_def)
  next
    case False
    then show ?thesis
      using sweepOwedRows_retried [OF distinct assms(2) _ row1 row(3)]
      by (simp add: before_prune_def)
  qed
  have "sweep_ledger env st = prune (se_now env - WORK_ROW_RETENTION_MS) (before_prune env st)"
    using sweep_ledger_cases [of env st] assms(2) by auto
  then show ?thesis
    using before row(3) assms(3) by (simp add: get_prune before_prune_inv [OF inv])
qed

text \<open>What a sweep does to a terminal row whose notification is owed: it stays owed when a live
  watcher speaks for it or when its delivery throws; otherwise the model is told, and the row is
  kept unless its terminal is older than the retention window, in which case it is dropped in the
  same sweep.\<close>

theorem sweep_retries_owed_row:
  assumes "ledger_inv (ss_ledger st)"
    and "row \<in> set (listUndelivered (ss_ledger st))"
    and "wr_terminal row = Some u"
  shows "get_row (wr_id row) (ss_ledger (fst (runWorkLedgerSweep env st))) =
    (if (wr_kind row = KProcess \<and>
         (case se_service env of None \<Rightarrow> False | Some s \<Rightarrow> cv_hasWatcher s (wr_id row)))
        \<or> se_bufferThrows env (work_dedupeKey (wr_kind row) (wr_id row) (t_outcome u))
     then Some row
     else if t_at u < se_now env - WORK_ROW_RETENTION_MS then None
     else Some (row\<lparr>wr_deliveredAt := Some (se_deliveredAt env)\<rparr>))"
  using sweep_owed_row [OF assms, of env] by (simp add: retry_skips_def assms(3))

text \<open>A sweep announces only news. A dedupe key that enters the injection buffer belongs to a
  row whose notification was owed or not yet due before, and which is discharged afterwards (the
  row is marked delivered, or already dropped); nothing delivered is ever announced again.\<close>

theorem sweep_announces_only_untold_rows:
  assumes "ledger_inv (ss_ledger st)"
    and "work_dedupeKey kind i oc \<in> pending_dedupe_keys (fst (runWorkLedgerSweep env st))"
    and "work_dedupeKey kind i oc \<notin> pending_dedupe_keys st"
  shows "\<not> isDelivered i (ss_ledger st) \<and>
    (case get_row i (ss_ledger (fst (runWorkLedgerSweep env st))) of
       None \<Rightarrow> True | Some r \<Rightarrow> wr_deliveredAt r \<noteq> None)"
proof -
  note inv = assms(1)
  let ?gen = "getCurrentGeneration env"
  let ?st = "fst (sweepOpenRows env ?gen (listOpen (ss_ledger st)) st)"
  let ?k = "work_dedupeKey kind i oc"
  have "?k \<in> pending_dedupe_keys (fst (sweepOwedRows env (listUndelivered (ss_ledger st)) ?st))"
    using assms(2,3)
    by (auto simp: runWorkLedgerSweep_def Let_def pending_dedupe_keys_def
        split: if_splits prod.splits)
  then consider (closed) r oc' re where "r \<in> set (listOpen (ss_ledger st))"
      "wc_verdict (classifyWork r ?gen (se_now env)) = Some (oc', re)"
      "deliverable env (wr_kind r) (wr_id r) oc'" "?k = work_dedupeKey (wr_kind r) (wr_id r) oc'"
    | (owed) r u where "r \<in> set (listUndelivered (ss_ledger st))" "wr_terminal r = Some u"
      "\<not> retry_skips env r" "?k = work_dedupeKey (wr_kind r) (wr_id r) (t_outcome u)"
    using sweepOpenRows_keys [OF _ assms(3), of env ?gen "listOpen (ss_ledger st)"]
      sweepOwedRows_keys [of ?k env "listUndelivered (ss_ledger st)" ?st] by metis
  then show ?thesis
  proof cases
    case closed
    then have i: "i = wr_id r" by (simp add: work_dedupeKey_inj)
    have r: "get_row i (ss_ledger st) = Some r" "wr_open r"
      using closed(1) listOpen_rows(2) [OF inv] i by auto
    with sweep_open_row [OF inv r, of env] closed(2,3) i
      get_row_open_undelivered [OF inv r] show ?thesis
      by (simp add: isDelivered_iff [OF inv] swept_def Let_def closed_row_def)
  next
    case owed
    then have i: "i = wr_id r" by (simp add: work_dedupeKey_inj)
    have "get_row i (ss_ledger st) = Some r" "wr_deliveredAt r = None"
      using owed(1) listUndelivered_rows [OF inv] i by auto
    then show ?thesis
      using sweep_owed_row [OF inv owed(1,2), of env] owed(2,3) i
      by (auto simp: isDelivered_iff [OF inv] retry_skips_def)
  qed
qed


section \<open>A concrete tick\<close>

text \<open>A silent process, a live subagent run and a two-day-old owed terminal, swept with no compute
  service.\<close>

definition demo_row :: "string \<Rightarrow> work_kind \<Rightarrow> int \<Rightarrow> work_terminal option \<Rightarrow> ledger_row" where
  "demo_row i kind alive term = \<lparr>lr_id = i, lr_kind = kind, lr_started_at = 0,
     lr_last_alive_at = alive, lr_stale_after_ms = 180000, lr_deadline_at = 200000000,
     lr_generation = UNKNOWN_GENERATION,
     lr_terminal = map_option (\<lambda>t. \<lparr>tc_outcome = t_outcome t, tc_reason = t_reason t,
       tc_at = t_at t, tc_detail = Some (t_detail t), tc_exit_code = t_exitCode t,
       tc_actor = t_actor t\<rparr>) term,
     lr_delivered_at = None, lr_cleared_at = None, lr_progress = None\<rparr>"

definition demo_terminal :: work_terminal where
  "demo_terminal = \<lparr>t_outcome = OExited, t_reason = RProcessExit, t_at = 10, t_detail = [],
     t_actor = None, t_exitCode = Some 0\<rparr>"

definition demo_state :: sweep_state where
  "demo_state = \<lparr>ss_ledger = [demo_row ''p'' KProcess 0 None, demo_row ''s'' KSubagent 172799000 None,
       demo_row ''d'' KSubagent 0 (Some demo_terminal)],
     ss_buffer = \<lparr>ib_rows = [], ib_last = 0\<rparr>, ss_kicks = 0, ss_teardown = []\<rparr>"

definition demo_env :: sweep_env where
  "demo_env = \<lparr>se_service = None, se_subagentLabel = (\<lambda>_. None), se_bufferThrows = (\<lambda>_. False),
     se_turnActive = False, se_now = 172800000, se_deliveredAt = 172800001\<rparr>"

lemmas demo_defs = demo_row_def demo_terminal_def demo_state_def demo_env_def

lemma demo_inv: "ledger_inv (ss_ledger demo_state)"
  by (simp add: demo_defs ledger_inv_def sql_keyed_def)

theorem sweep_leaves_only_live_rows_witness:
  "get_row ''s'' (ss_ledger (fst (runWorkLedgerSweep demo_env demo_state))) \<noteq> None \<and>
   classifyWork (the (get_row ''s'' (ss_ledger (fst (runWorkLedgerSweep demo_env demo_state)))))
     (getCurrentGeneration demo_env) (se_now demo_env) = WcAlive"
proof -
  have r: "get_row ''s'' (ss_ledger demo_state) = Some (toWorkRow (demo_row ''s'' KSubagent 172799000 None))"
    by (simp add: demo_state_def get_row_def sql_row_def demo_row_def)
  have o: "wr_open (toWorkRow (demo_row ''s'' KSubagent 172799000 None))"
    by (simp add: demo_row_def)
  have s: "get_row ''s'' (sweep_ledger demo_env demo_state) =
      Some (toWorkRow (demo_row ''s'' KSubagent 172799000 None))"
    using sweep_open_row [OF demo_inv r o, of demo_env]
    by (simp add: swept_def demo_defs classifyWork_def toWorkRow_def getCurrentGeneration_def)
  then have "toWorkRow (demo_row ''s'' KSubagent 172799000 None)
      \<in> set (listOpen (ss_ledger (fst (runWorkLedgerSweep demo_env demo_state))))"
    using o by (simp add: listOpen_rows(2) sweep_ledger_inv demo_inv) (simp add: demo_row_def)
  from sweep_leaves_only_live_rows [OF demo_inv this] s show ?thesis by simp
qed



theorem sweep_retries_owed_row_witness:
  "isDelivered ''d'' (ss_ledger demo_state) = False \<and>
   get_row ''d'' (ss_ledger (fst (runWorkLedgerSweep demo_env demo_state))) = None"
proof -
  have r: "toWorkRow (demo_row ''d'' KSubagent 0 (Some demo_terminal))
      \<in> set (listUndelivered (ss_ledger demo_state))"
    by (simp add: demo_state_def listUndelivered_def sql_select_def demo_row_def)
  have t: "wr_terminal (toWorkRow (demo_row ''d'' KSubagent 0 (Some demo_terminal))) =
      Some demo_terminal"
    by (simp add: demo_row_def toWorkRow_def demo_terminal_def)
  from sweep_retries_owed_row [OF demo_inv r t, of demo_env] show ?thesis
    by (simp add: demo_defs WORK_ROW_RETENTION_MS_def isDelivered_def sql_select_def)
qed

theorem sweep_announces_only_untold_rows_witness:
  "\<not> isDelivered ''p'' (ss_ledger demo_state)"
proof -
  have "work_dedupeKey KProcess ''p'' OFault
      \<in> pending_dedupe_keys (fst (runWorkLedgerSweep demo_env demo_state))"
    by (simp add: runWorkLedgerSweep_def Let_def demo_defs listOpen_def listUndelivered_def
        sql_select_def classifyWork_def toWorkRow_def getCurrentGeneration_def terminalizeWork_def
        get_row_def sql_row_def terminalize_def sql_update_def sql_changes_def deliverWorkTerminal_def
        deliverInjection_def routeInjection_def enqueue_def markDelivered_def pending_dedupe_keys_def)
  moreover have "work_dedupeKey KProcess ''p'' OFault \<notin> pending_dedupe_keys demo_state"
    by (simp add: pending_dedupe_keys_def demo_state_def)
  ultimately show ?thesis
    using sweep_announces_only_untold_rows [OF demo_inv] by blast
qed

end
