(* ===== verification/Release_Safety.thy ===== *)
theory Release_Safety
  imports Runtime_Lifecycle
begin

text \<open>
  What the row of the compute store says after a container was released, or the release failed,
  wherever an error strikes: proved once for every outside that keeps the laws of the locale
  \<open>thread_deps\<close>.
\<close>

section \<open>Which operations leave the row alone\<close>

definition core :: "'x service \<Rightarrow> compute_state list \<times>
    (backend_reference \<times> release_disposition \<times> backend_reference option) list" where
  "core s = (cd_state (sv_db s), sv_releases s)"

lemma keeps_core_ext [keeps_intros]: "keeps core (ext m)"
  unfolding ext_def by (rule keeps_on_part) (simp add: core_def)

lemma keeps_core_dbw [keeps_intros]: "keeps cd_state m \<Longrightarrow> keeps core (dbw D m)"
proof -
  assume m: "keeps cd_state m"
  have "keeps core (on_part sv_db (\<lambda>d s. s\<lparr>sv_db := d\<rparr>) m)"
    using m by (simp add: keeps_def on_part_def core_def split: prod.split) (metis fst_conv)
  then show ?thesis unfolding dbw_def by (intro keeps_andThen keeps_core_ext)
qed

lemma keeps_state_updateProcess [keeps_intros]: "keeps cd_state (updateProcess i p)"
  unfolding updateProcess_def by (intro keeps_intros) (simp add: on_processes_def)

lemma keeps_state_deleteWatcher [keeps_intros]: "keeps cd_state (changing (deleteWatcher i))"
  by (intro keeps_intros) (simp add: deleteWatcher_def)

lemma keeps_core_timed [keeps_intros]: "(\<And>t. keeps f (m t)) \<Longrightarrow> keeps f (timed D m)"
  unfolding timed_def by (intro keeps_intros)

lemma keeps_core_quota [keeps_intros]:
  "keeps core (releaseQuotaSlot D)" "keeps core (quotaRefresh D)" "keeps core (quotaAdmit D)"
  unfolding releaseQuotaSlot_def quotaRefresh_def quotaAdmit_def by (intro keeps_intros)+

lemma keeps_core_remind [keeps_intros]: "keeps core (remind D body mode about)"
  unfolding remind_def by (intro keeps_intros) (simp add: core_def)

lemma keeps_core_emit [keeps_intros]: "keeps core (emitLifecycleEvent ev tr ok)"
  unfolding emitLifecycleEvent_def by (intro keeps_intros) (simp add: core_def)

lemma keeps_core_clearAlarm [keeps_intros]: "keeps core (clearAlarm D)"
  unfolding clearAlarm_def by (intro keeps_intros) (simp add: core_def)

lemma keeps_core_setAlarm [keeps_intros]: "keeps core (setAlarm D t)"
  unfolding setAlarm_def by (intro keeps_intros) (simp_all add: core_def)

lemma keeps_core_armAlarm [keeps_intros]: "keeps core (armAlarm D r)"
  unfolding armAlarm_def by (intro keeps_intros) (simp_all add: core_def)

lemma keeps_core_refreshRelease [keeps_intros]: "keeps core (refreshRelease D t)"
  unfolding refreshRelease_def by (intro keeps_intros)

lemma keeps_core_clearLifecycleState [keeps_intros]: "keeps core (clearLifecycleState D)"
  unfolding clearLifecycleState_def by (intro keeps_intros)

lemma keeps_core_stop [keeps_intros]: "keeps core (stopRunningProcesses D now deliver detail)"
  unfolding stopRunningProcesses_def
  by (intro keeps_intros) (simp add: core_def close_work_def split: prod.split)

lemma keeps_core_clearWatchers [keeps_intros]: "keeps core (clearWatchers D)"
  unfolding clearWatchers_def by (intro keeps_intros)

lemma keeps_core_destroy [keeps_intros]: "keeps core (destroyRuntime D r)"
  unfolding destroyRuntime_def by (intro keeps_intros)

section \<open>Writes of the row\<close>

definition row :: "'x service \<Rightarrow> compute_state option" where
  "row s = getComputeState (sv_db s)"

definition row_refs :: "'x service \<Rightarrow>
    (compute_status \<times> backend_reference option \<times> backend_reference option) option" where
  "row_refs s = map_option (\<lambda>c. (cs_status c, cs_runtimeRef c, cs_recoveryRef c)) (row s)"

fun op_refs_ok :: "store_op \<Rightarrow> bool" where
  "op_refs_ok (OpAcquiring x now) = serializable (aq_recoveryRef x)"
| "op_refs_ok (OpActive r now) = valid_reference r"
| "op_refs_ok (OpRecoverable r now expires) = valid_reference r"
| "op_refs_ok _ = True"

lemma op_refs_serializable:
  "state_ok s \<Longrightarrow> op_refs_ok x \<Longrightarrow>
     serializable (cs_runtimeRef (op_update x s)) \<and> serializable (cs_recoveryRef (op_update x s))"
  by (cases x) (simp_all add: state_ok_def state_defs serializable_def orElse_def split: option.splits)

lemma store_exec_accepted:
  assumes "store_ok db" and "op_refs_ok x"
  shows "snd (store_exec x db) = Inr () \<and> store_ok (fst (store_exec x db)) \<and>
     getComputeState (fst (store_exec x db)) = next_state x (getComputeState db)"
proof -
  have keyed: "sql_keyed cs_id (cd_state db)" using assms(1) by (simp add: store_ok_def)
  have "store_exec x db \<noteq> (db, Inl schema_error)"
    using store_exec_cases [of x db]
  proof (elim disjE exE conjE)
    fix s assume s: "next_state x (getComputeState db) = Some s" and eq: "store_exec x db = writeState s db"
    have "state_ok (baseState (getComputeState db) (op_time x))"
      by (rule state_ok_base) (rule store_ok_current [OF assms(1)])
    from op_refs_serializable [OF this assms(2)] next_state_update [OF s]
    show ?thesis by (simp add: eq writeState_def changing_def)
  qed (simp_all add: touch_eq)
  then show ?thesis using store_exec_get [OF keyed, of x] store_ok_exec [OF assms(1)] by auto
qed

section \<open>Outcomes of a release\<close>

text \<open>Where a resolved release leaves the row: the backup on record, or nothing.\<close>

definition settled :: "backend_reference option \<Rightarrow> 'x service \<Rightarrow> 'x service \<Rightarrow> bool" where
  "settled recovery s t \<longleftrightarrow> store_ok (sv_db t) \<and> sv_releases t = sv_releases s \<and>
     row_refs t = Some (case recovery of
        Some r \<Rightarrow> (Recovering, None, Some r) | None \<Rightarrow> (Absent, None, None))"

definition unsettled :: "'x service \<Rightarrow> 'x service \<Rightarrow> bool" where
  "unsettled s t \<longleftrightarrow> store_ok (sv_db t) \<and> sv_releases t = sv_releases s"

text \<open>
  After a release was tried: the call threw and the row is the running container's again, or it
  resolved and the row holds what it returned.
\<close>

definition released ::
    "backend_reference \<Rightarrow> release_disposition \<Rightarrow> 'x service \<Rightarrow> 'x service \<Rightarrow> bool" where
  "released runtime d s t \<longleftrightarrow> store_ok (sv_db t) \<and>
     (sv_releases t = sv_releases s \<and> row_refs t = Some (Active, Some runtime, None) \<or>
      (\<exists>recovery. sv_releases t = sv_releases s @ [(runtime, d, recovery)] \<and>
         (d = Discard \<longrightarrow> recovery = None) \<and>
         row_refs t = Some (case recovery of
            Some r \<Rightarrow> (Recovering, None, Some r) | None \<Rightarrow> (Absent, None, None))))"

definition rolled_back_to :: "backend_reference \<Rightarrow> 'x service \<Rightarrow> 'x service \<Rightarrow> bool" where
  "rolled_back_to runtime s t \<longleftrightarrow> store_ok (sv_db t) \<and> sv_releases t = sv_releases s \<and>
     row_refs t = Some (Active, Some runtime, None)"

definition answered ::
    "backend_reference \<Rightarrow> release_disposition \<Rightarrow> 'x service \<Rightarrow> bool \<Rightarrow> 'x service \<Rightarrow> bool" where
  "answered runtime d s answer t \<longleftrightarrow>
     released runtime d s t \<and> answer = (sv_releases t \<noteq> sv_releases s)"

text \<open>A verified declaration, or a provider that bills an idle runtime and a probe that found nothing to lose.\<close>

definition proven_disposable :: "'x deps \<Rightarrow> bool" where
  "proven_disposable D \<longleftrightarrow> (\<exists>x. snd (sd_isDeclaredClean D x) = Inr True) \<or>
     \<not> rb_nativeIdleSuspend (sd_backend D) \<and>
       (\<exists>s c. snd (sd_probe D s) = Inr c \<and> (c = WsClean \<or> c = WsNoRepo False))"

text \<open>The row as it was, or as the probe's own command left it.\<close>

definition untouched :: "'x deps \<Rightarrow> 'x service \<Rightarrow> 'x service \<Rightarrow> bool" where
  "untouched D s t \<longleftrightarrow> core t = core s \<or> (\<exists>u. core u = core s \<and> core t = core (fst (sd_probe D u)))"

text \<open>The thread's container does nothing and nobody used it lately.\<close>

definition quiescent :: "'x deps \<Rightarrow> int \<Rightarrow> 'x service \<Rightarrow> bool" where
  "quiescent D idle s \<longleftrightarrow> (\<exists>x. snd (sd_hasBlockingWork D (sv_ledger s) x) = Inr False) \<and>
     (\<exists>c x. row s = Some c \<and> idle \<le> sd_now D x - cs_lastUsedAt c)"

definition reclaimed :: "'x deps \<Rightarrow> 'x service \<Rightarrow> backend_reference \<Rightarrow> bool" where
  "reclaimed D s runtime \<longleftrightarrow> active_runtime (row s) = Some runtime \<and> running_processes s = [] \<and>
     listWatchers (sv_db s) = [] \<and> quiescent D RECLAIM_MIN_IDLE_MS s"

definition idle_released :: "'x deps \<Rightarrow> 'x service \<Rightarrow> 'x service \<Rightarrow> bool" where
  "idle_released D s t \<longleftrightarrow> untouched D s t \<or>
     (\<exists>runtime d. active_runtime (row s) = Some runtime \<and> quiescent D (sd_idleTimeoutMs D) s \<and>
        (d = Discard \<longrightarrow> proven_disposable D) \<and> released runtime d s t)"

section \<open>The laws of the outside\<close>

text \<open>
  SQLite accepts the writes; a provider returns references of the documented form, and nothing when
  it was asked to discard; the cleanliness probe runs a command and releases no container.
\<close>

locale thread_deps =
  fixes D :: "'x deps"
  assumes sql_ok: "snd (sd_sql D x) = Inr ()"
    and acquired_valid: "snd (rb_acquire (sd_backend D) spec rec x) = Inr r \<Longrightarrow> valid_reference r"
    and released_valid: "snd (rb_release (sd_backend D) r d x) = Inr (Some r') \<Longrightarrow> valid_reference r'"
    and discard_keeps_nothing: "snd (rb_release (sd_backend D) r Discard x) \<noteq> Inr (Some r')"
    and probe_ok: "store_ok (sv_db s) \<Longrightarrow> store_ok (sv_db (fst (sd_probe D s))) \<and>
      sv_releases (fst (sd_probe D s)) = sv_releases s"
begin

lemma wp_dbw:
  assumes "\<And>x. wp m (\<lambda>a d. Q a (s\<lparr>sv_ext := x, sv_db := d\<rparr>)) (\<lambda>e d. E e (s\<lparr>sv_ext := x, sv_db := d\<rparr>)) (sv_db s)"
  shows "wp (dbw D m) Q E s"
  using assms sql_ok [of "sv_ext s"]
  by (simp add: dbw_def wp_simps ext_def) (simp add: wp_run)

lemma wp_mark:
  assumes "store_ok (sv_db s)" and "op_refs_ok x"
    and "\<And>t. store_ok (sv_db t) \<Longrightarrow> row t = next_state x (row s) \<Longrightarrow> sv_releases t = sv_releases s \<Longrightarrow> Q () t"
  shows "wp (dbw D (store_exec x)) Q E s"
  using store_exec_accepted [OF assms(1,2)]
  by (intro wp_dbw) (auto simp: wp_run row_def intro!: assms(3))

lemmas wp_markReleasing = wp_mark [of _ "OpReleasing now" for now, unfolded store_exec.simps]
lemmas wp_markActive = wp_mark [of _ "OpActive r now" for r now, unfolded store_exec.simps]
lemmas wp_markAbsent = wp_mark [of _ "OpAbsent now" for now, unfolded store_exec.simps]
lemmas wp_markRecoverable = wp_mark [of _ "OpRecoverable r now t" for r now t, unfolded store_exec.simps]

lemma settled_core: "core t = core u \<Longrightarrow> settled r s t = settled r s u"
  by (simp add: settled_def core_def row_refs_def row_def getComputeState_def store_ok_def)

lemma store_ok_core: "core t = core u \<Longrightarrow> store_ok (sv_db t) = store_ok (sv_db u)"
  by (simp add: core_def store_ok_def)

lemma wp_then_settled:
  "(\<And>a. keeps core (g a)) \<Longrightarrow> wp m (\<lambda>_. settled r s) (\<lambda>_. settled r s) u \<Longrightarrow>
   wp (andThen m g) (\<lambda>_. settled r s) (\<lambda>_. settled r s) u"
  by (rule wp_then_keeps [where f = core]) (auto dest: settled_core)

lemma mark_settles:
  assumes "store_ok (sv_db s)"
  shows "wp (dbw D (markAbsent now)) (\<lambda>_. settled None s) E s"
    and "valid_reference r \<Longrightarrow> wp (dbw D (markRecoverable r now t)) (\<lambda>_. settled (Some r) s) E s"
  using assms
  by (auto simp: settled_def row_refs_def next_state_def absent_state_def recoverable_state_def
      intro!: wp_markAbsent wp_markRecoverable)

lemma settle_settles:
  assumes "store_ok (sv_db s)" and "\<And>r. recovery = Some r \<Longrightarrow> valid_reference r"
  shows "wp (settleDestroyedRuntime D recovery now) (\<lambda>_. settled recovery s) (\<lambda>_. settled recovery s) s"
  unfolding settleDestroyedRuntime_def
proof (rule wp_then_settled)
  show "wp (case recovery of
         Some r \<Rightarrow>
           andThen (bestEffort (dbw D (markRecoverable r now (now + sd_recoveryTtlMs D)))) (\<lambda>_.
           andThen (bestEffort (armAlarm D (Some (now + sd_recoveryTtlMs D)))) (\<lambda>_.
           emitLifecycleEvent ''release'' ''active_to_recoverable'' False))
       | None \<Rightarrow>
           andThen (bestEffort (dbw D (markAbsent now))) (\<lambda>_.
           emitLifecycleEvent ''release'' ''active_to_absent'' False))
     (\<lambda>_. settled recovery s) (\<lambda>_. settled recovery s) s"
  proof (cases recovery)
    case None
    show ?thesis unfolding None option.case
      by (intro wp_then_settled keeps_intros)
         (simp add: wp_bestEffort mark_settles [OF assms(1)])
  next
    case (Some r)
    have "valid_reference r" using assms(2) [OF Some] .
    then show ?thesis unfolding Some option.case
      by (intro wp_then_settled keeps_intros)
         (simp add: wp_bestEffort mark_settles [OF assms(1)])
  qed
qed (intro keeps_intros)

lemma discard_None: "snd (rb_release (sd_backend D) r Discard x) = Inr recovery \<Longrightarrow> recovery = None"
  using discard_keeps_nothing [of r x] by (cases recovery) auto

lemma wp_ext:
  assumes "\<And>x a. snd (m (sv_ext s)) = Inr a \<Longrightarrow> Q a (s\<lparr>sv_ext := x\<rparr>)"
    and "\<And>x e. E e (s\<lparr>sv_ext := x\<rparr>)"
  shows "wp (ext m) Q E s"
  using assms by (simp add: ext_def wp_on_part) (simp add: wp_run)

lemma settled_unsettled: "settled r s t \<Longrightarrow> unsettled s t"
  by (simp add: settled_def unsettled_def)

lemma wp_settled_weaken:
  "wp m (\<lambda>_. settled r s) (\<lambda>_. settled r s) u \<Longrightarrow> wp m (\<lambda>_. settled r s) (\<lambda>_. unsettled s) u"
  by (erule wp_conseq) (auto dest: settled_unsettled)

lemma keep_recoverable_settles:
  assumes "store_ok (sv_db s)" and "\<And>r. recovery = Some r \<Longrightarrow> valid_reference r" and "keeps core rest"
  shows "wp (keep_recoverable D now recovery rest) (\<lambda>_. settled recovery s) (\<lambda>_. unsettled s) s"
proof (cases recovery)
  case None
  then show ?thesis using assms(1) by (simp add: keep_recoverable_def wp_simps unsettled_def)
next
  case (Some r)
  have "valid_reference r" using assms(2) [OF Some] .
  then show ?thesis
    unfolding Some keep_recoverable_def option.case
    by (intro wp_settled_weaken wp_then_settled keeps_intros assms(3) mark_settles(2) [OF assms(1)])
qed

lemma after_idle_release_settles:
  assumes "store_ok (sv_db s)" and "\<And>r. recovery = Some r \<Longrightarrow> valid_reference r"
    and "disposition = Discard \<Longrightarrow> recovery = None"
  shows "wp (after_idle_release D now disposition recovery) (\<lambda>_. settled recovery s) (\<lambda>_. unsettled s) s"
proof (cases disposition)
  case Discard
  then show ?thesis
    unfolding after_idle_release_def using assms(3)
    by (simp, intro wp_settled_weaken wp_then_settled keeps_intros mark_settles(1) [OF assms(1)])
next
  case Recoverable
  then show ?thesis
    unfolding after_idle_release_def
    by (simp, intro keep_recoverable_settles assms(1,2) keeps_intros)
qed

lemma rolled_back_core: "core t = core u \<Longrightarrow> rolled_back_to r s t = rolled_back_to r s u"
  by (simp add: rolled_back_to_def core_def row_refs_def row_def getComputeState_def store_ok_def)

lemma released_alt: "released runtime d s t \<longleftrightarrow> rolled_back_to runtime s t \<or>
    (\<exists>recovery. settled recovery (s\<lparr>sv_releases := sv_releases s @ [(runtime, d, recovery)]\<rparr>) t \<and>
       (d = Discard \<longrightarrow> recovery = None))"
  by (auto simp: released_def rolled_back_to_def settled_def)

lemma rollback_answered:
  assumes t: "store_ok (sv_db t)" "sv_releases t = sv_releases s"
    and valid: "valid_reference runtime" and rolled: "keeps core rolled_back"
  shows "wp (andThen (dbw D (markActive runtime now)) (\<lambda>_.
            andThen (emitLifecycleEvent ''release'' ''active_to_active'' False) (\<lambda>_.
            andThen rolled_back (\<lambda>_. ret False))))
      (answered runtime d s) (\<lambda>_. released runtime d s) t" (is "wp ?m _ _ _")
proof -
  have "wp ?m (\<lambda>_. rolled_back_to runtime s) (\<lambda>_. rolled_back_to runtime s) t"
    by (rule wp_then_keeps [where f = core], intro keeps_intros rolled, erule rolled_back_core,
        rule wp_markActive [OF t(1)])
       (auto simp: rolled_back_to_def t(2) row_refs_def next_state_def active_state_def valid)
  moreover have "wp ?m (\<lambda>a _. \<not> a) (\<lambda>_ _. True) t"
    by (simp add: wp_simps wp_run)
  ultimately have "wp ?m (\<lambda>a t. rolled_back_to runtime s t \<and> \<not> a) (\<lambda>_ t. rolled_back_to runtime s t \<and> True) t"
    by (rule wp_conj)
  then show ?thesis
    by (rule wp_conseq) (auto simp: answered_def released_alt, auto simp: rolled_back_to_def)
qed

lemma resolved_answered:
  assumes t: "store_ok (sv_db t)" "sv_releases t = sv_releases s"
    and v: "\<And>r. recovery = Some r \<Longrightarrow> valid_reference r" and n: "d = Discard \<Longrightarrow> recovery = None"
    and after: "\<And>u. store_ok (sv_db u) \<Longrightarrow>
      wp (after recovery) (\<lambda>_. settled recovery u) (\<lambda>_. unsettled u) u"
  shows "wp (andThen (changing (\<lambda>s. s\<lparr>sv_releases := sv_releases s @ [(runtime, d, recovery)]\<rparr>)) (\<lambda>_.
          andThen (catching (after recovery) (\<lambda>_. settleDestroyedRuntime D recovery now)) (\<lambda>_. ret True)))
      (answered runtime d s) (\<lambda>_. released runtime d s) t"
proof -
  define u where "u = t\<lparr>sv_releases := sv_releases t @ [(runtime, d, recovery)]\<rparr>"
  have u: "store_ok (sv_db u)" using t by (simp add: u_def)
  have fin: "released runtime d s w \<and> sv_releases w \<noteq> sv_releases s" if "settled recovery u w" for w
    using that n t(2) by (auto simp: released_alt settled_def u_def)
  have settle: "wp (settleDestroyedRuntime D recovery now) (\<lambda>_. settled recovery u) (\<lambda>_. settled recovery u) w"
    if "unsettled u w" for w
  proof -
    have "store_ok (sv_db w)" using that by (simp add: unsettled_def)
    then have "wp (settleDestroyedRuntime D recovery now) (\<lambda>_. settled recovery w) (\<lambda>_. settled recovery w) w"
      using v by (rule settle_settles)
    then show ?thesis
      by (rule wp_conseq) (use that in \<open>auto simp: settled_def unsettled_def\<close>)
  qed
  have "wp (catching (after recovery) (\<lambda>_. settleDestroyedRuntime D recovery now))
      (\<lambda>_. settled recovery u) (\<lambda>_. settled recovery u) u"
    unfolding wp_catching by (rule wp_conseq [OF after [OF u]]) (auto intro: settle)
  then show ?thesis
    unfolding wp_andThen wp_changing u_def [symmetric] wp_ret
    by (rule wp_conseq) (auto dest: fin simp: answered_def)
qed

lemma release_with_answered:
  assumes ok: "store_ok (sv_db s)" and valid: "valid_reference runtime"
    and rolled: "keeps core rolled_back"
    and after: "\<And>recovery t. store_ok (sv_db t) \<Longrightarrow> (\<And>r. recovery = Some r \<Longrightarrow> valid_reference r) \<Longrightarrow>
      (d = Discard \<Longrightarrow> recovery = None) \<Longrightarrow>
      wp (after recovery) (\<lambda>_. settled recovery t) (\<lambda>_. unsettled t) t"
  shows "wp (release_with D runtime now d rolled_back after)
     (answered runtime d s) (\<lambda>_. released runtime d s) s"
  unfolding release_with_def wp_andThen [of "dbw D (markReleasing now)"] wp_tryThen
proof (rule wp_markReleasing [OF ok])
  fix t :: "'x service" assume t: "store_ok (sv_db t)" "sv_releases t = sv_releases s"
  show "wp (ext (rb_release (sd_backend D) runtime d))
      (\<lambda>recovery. wp (andThen (changing (\<lambda>s. s\<lparr>sv_releases := sv_releases s @ [(runtime, d, recovery)]\<rparr>)) (\<lambda>_.
        andThen (catching (after recovery) (\<lambda>_. settleDestroyedRuntime D recovery now)) (\<lambda>_. ret True)))
        (answered runtime d s) (\<lambda>_. released runtime d s))
      (\<lambda>e. wp (andThen (dbw D (markActive runtime now)) (\<lambda>_.
          andThen (emitLifecycleEvent ''release'' ''active_to_active'' False) (\<lambda>_.
          andThen rolled_back (\<lambda>_. ret False))))
        (answered runtime d s) (\<lambda>_. released runtime d s)) t"
    using t
    by (intro wp_ext resolved_answered rollback_answered valid rolled after)
       (auto dest: released_valid discard_None)
qed simp

lemma active_runtime_valid:
  "store_ok (sv_db s) \<Longrightarrow> active_runtime (row s) = Some r \<Longrightarrow> valid_reference r"
  by (auto simp: active_runtime_def row_def state_ok_def serializable_def
      split: option.splits if_splits dest: store_ok_current)

lemma released_core: "core u = core s \<Longrightarrow> released r d u t = released r d s t"
  by (simp add: released_def core_def)

lemma untouched_unsettled: "store_ok (sv_db s) \<Longrightarrow> untouched D s t \<Longrightarrow> unsettled s t"
  using probe_ok unfolding untouched_def unsettled_def core_def store_ok_def by (metis prod.inject)

lemma disposition_proven:
  "wp (resolveIdleDisposition D) (\<lambda>d t. untouched D s t \<and> (d = Discard \<longrightarrow> proven_disposable D))
     (\<lambda>_. untouched D s) (s\<lparr>sv_ext := x\<rparr>)"
proof -
  have same: "core (s\<lparr>sv_ext := x\<rparr>) = core s" for x by (simp add: core_def)
  have probe: "wp (sd_probe D) (\<lambda>c t. untouched D s t \<and>
        ((if c = WsClean \<or> empty_workspace c then Discard else Recoverable) = Discard \<longrightarrow> proven_disposable D))
      (\<lambda>_. untouched D s) t" if "core t = core s" "\<not> rb_nativeIdleSuspend (sd_backend D)" for t
    using that
    by (auto simp: wp_run untouched_def proven_disposable_def empty_workspace_def
        split: workspace_cleanliness.splits)
  show ?thesis
    unfolding resolveIdleDisposition_def wp_andThen wp_if wp_ret
    by (rule wp_ext) (use probe same in \<open>auto simp: untouched_def proven_disposable_def wp_simps\<close>)
qed

lemma answered_core: "core u = core s \<Longrightarrow> answered r d u b t = answered r d s b t"
  using released_core [of u s r d t] by (simp add: answered_def) (simp add: core_def)

lemma answered_released: "answered r d s b t \<Longrightarrow> released r d s t"
  by (simp add: answered_def)

lemma reclaim_post:
  assumes ok: "store_ok (sv_db s)"
  shows "wp (releaseIfReclaimable D)
     (\<lambda>answer t. core t = core s \<and> \<not> answer \<or>
        (\<exists>runtime. reclaimed D s runtime \<and> answered runtime Recoverable s answer t))
     (\<lambda>_ t. core t = core s \<or> (\<exists>runtime. reclaimed D s runtime \<and> released runtime Recoverable s t)) s"
    (is "wp _ ?Q ?E s")
proof -
  have inner: "wp (release_with D runtime now Recoverable (ret ())
      (\<lambda>recovery. keep_recoverable D now recovery
         (andThen (armAlarm D (Some (now + sd_recoveryTtlMs D))) (\<lambda>_.
          andThen (emitLifecycleEvent ''release'' ''active_to_recoverable'' True) (\<lambda>_.
          remind D RECLAIMED_REMINDER Deferred None))))) ?Q ?E u"
    if r: "reclaimed D s runtime" and u: "core u = core s" for runtime now u
  proof -
    have ok_u: "store_ok (sv_db u)" using ok store_ok_core [OF u] by simp
    have valid: "valid_reference runtime"
      using active_runtime_valid [OF ok] r by (simp add: reclaimed_def)
    show ?thesis
      by (rule wp_conseq [OF release_with_answered [OF ok_u valid]])
         (use r u in \<open>auto intro!: keeps_intros keep_recoverable_settles
            simp: answered_core [OF u] released_core [OF u]\<close>)
  qed
  show ?thesis
  proof (cases "active_runtime (row s)")
    case None
    then show ?thesis
      by (cases "getComputeState (sv_db s)")
         (simp_all add: releaseIfReclaimable_def on_state_def wp_simps row_def)
  next
    case (Some runtime)
    then obtain c where c: "row s = Some c" by (auto simp: active_runtime_def split: option.splits)
    have same: "core (s\<lparr>sv_ext := x\<rparr>) = core s" for x by (simp add: core_def)
    note state = c [unfolded row_def] Some [unfolded c]
    consider "sd_attachedRuntime D \<noteq> None"
      | "sd_attachedRuntime D = None" "running_processes s \<noteq> [] \<or> countWatchers (sv_db s) > 0"
      | "sd_attachedRuntime D = None" "running_processes s = []" "listWatchers (sv_db s) = []"
      by (auto simp: countWatchers_def listWatchers_def)
    then show ?thesis
    proof cases
      case 3
      have "wp (ext (sd_hasBlockingWork D (sv_ledger s)))
          (\<lambda>blocking. wp (if blocking then ret False
              else timed D (\<lambda>now.
                if now - cs_lastUsedAt c < RECLAIM_MIN_IDLE_MS then ret False
                else release_with D runtime now Recoverable (ret ())
                  (\<lambda>recovery. keep_recoverable D now recovery
                    (andThen (armAlarm D (Some (now + sd_recoveryTtlMs D))) (\<lambda>_.
                     andThen (emitLifecycleEvent ''release'' ''active_to_recoverable'' True) (\<lambda>_.
                     remind D RECLAIMED_REMINDER Deferred None)))))) ?Q ?E) ?E s"
      proof (rule wp_ext)
        fix x blocking
        assume b: "snd (sd_hasBlockingWork D (sv_ledger s) (sv_ext s)) = Inr blocking"
        show "wp (if blocking then ret False
              else timed D (\<lambda>now.
                if now - cs_lastUsedAt c < RECLAIM_MIN_IDLE_MS then ret False
                else release_with D runtime now Recoverable (ret ())
                  (\<lambda>recovery. keep_recoverable D now recovery
                    (andThen (armAlarm D (Some (now + sd_recoveryTtlMs D))) (\<lambda>_.
                     andThen (emitLifecycleEvent ''release'' ''active_to_recoverable'' True) (\<lambda>_.
                     remind D RECLAIMED_REMINDER Deferred None)))))) ?Q ?E (s\<lparr>sv_ext := x\<rparr>)"
        proof (cases "blocking \<or> sd_now D x - cs_lastUsedAt c < RECLAIM_MIN_IDLE_MS")
          case True
          then show ?thesis by (auto simp: wp_simps timed_def the_time_def same)
        next
          case False
          have "quiescent D RECLAIM_MIN_IDLE_MS s"
            unfolding quiescent_def using b False c by (auto simp: not_less)
          with 3 Some have "reclaimed D s runtime" by (simp add: reclaimed_def)
          from inner [OF this same] False show ?thesis
            by (simp add: wp_simps timed_def the_time_def)
        qed
      qed (simp add: same)
      then show ?thesis
        by (simp add: releaseIfReclaimable_def on_state_def wp_reading 3 state countWatchers_def
            wp_andThen 3(3) [unfolded listWatchers_def])
    qed (use state in \<open>auto simp: releaseIfReclaimable_def on_state_def wp_simps\<close>)
  qed
qed

lemma untouched_released:
  "unsettled s u \<Longrightarrow> released runtime d u t \<Longrightarrow> released runtime d s t"
  by (simp add: unsettled_def released_def)

lemma idle_post:
  assumes ok: "store_ok (sv_db s)"
  shows "wp (releaseIfIdle D) (\<lambda>_. idle_released D s) (\<lambda>_. idle_released D s) s"
proof -
  have kept: "wp m (\<lambda>_. idle_released D s) (\<lambda>_. idle_released D s) u"
    if "keeps core m" "core u = core s" for m :: "('x service, unit) act" and u
    by (rule wp_keeps [OF that(1)]) (use that(2) in \<open>simp_all add: idle_released_def untouched_def\<close>)
  have same: "core (s\<lparr>sv_ext := x\<rparr>) = core s" for x by (simp add: core_def)
  have self: "idle_released D s s" by (simp add: idle_released_def untouched_def)
  have final: "wp (andThen (release_with D runtime now d rolled_back (after_idle_release D now d)) (\<lambda>_. ret ()))
      (\<lambda>_. idle_released D s) (\<lambda>_. idle_released D s) u"
    if r: "active_runtime (row s) = Some runtime" "quiescent D (sd_idleTimeoutMs D) s"
      and u: "untouched D s u" and d: "d = Discard \<longrightarrow> proven_disposable D" and k: "keeps core rolled_back"
    for runtime now d rolled_back u
  proof -
    have un: "unsettled s u" using untouched_unsettled [OF ok u] .
    then have ok_u: "store_ok (sv_db u)" by (simp add: unsettled_def)
    show ?thesis
      unfolding wp_andThen wp_ret
      by (rule wp_conseq [OF release_with_answered [OF ok_u active_runtime_valid [OF ok r(1)] k]])
         (use r d un in \<open>auto intro!: after_idle_release_settles
            dest!: answered_released untouched_released [OF un] simp: idle_released_def\<close>)
  qed
  show ?thesis
  proof (cases "active_runtime (row s)")
    case None
    then show ?thesis
      by (cases "getComputeState (sv_db s)")
         (simp_all add: releaseIfIdle_def on_state_def wp_simps row_def idle_released_def untouched_def)
  next
    case (Some runtime)
    then obtain c where c: "row s = Some c" by (auto simp: active_runtime_def split: option.splits)
    note state = c [unfolded row_def] Some [unfolded c]
    define now where "now = the_time D s"
    consider "sd_attachedRuntime D \<noteq> None"
      | "sd_attachedRuntime D = None" "now - cs_lastUsedAt c < sd_idleTimeoutMs D"
      | "sd_attachedRuntime D = None" "sd_idleTimeoutMs D \<le> now - cs_lastUsedAt c"
      by linarith
    then show ?thesis
    proof cases
      case 3
      have "wp (ext (sd_hasBlockingWork D (sv_ledger s)))
          (\<lambda>blocking. wp (if blocking then armAlarm D (Some (now + sd_idleTimeoutMs D))
              else andThen (resolveIdleDisposition D) (\<lambda>disposition.
                andThen (release_with D runtime now disposition
                    (armAlarm D (Some (now + sd_idleTimeoutMs D)))
                    (after_idle_release D now disposition)) (\<lambda>_. ret ())))
            (\<lambda>_. idle_released D s) (\<lambda>_. idle_released D s)) (\<lambda>_. idle_released D s) s"
      proof (rule wp_ext)
        fix x blocking
        assume b: "snd (sd_hasBlockingWork D (sv_ledger s) (sv_ext s)) = Inr blocking"
        show "wp (if blocking then armAlarm D (Some (now + sd_idleTimeoutMs D))
              else andThen (resolveIdleDisposition D) (\<lambda>disposition.
                andThen (release_with D runtime now disposition
                    (armAlarm D (Some (now + sd_idleTimeoutMs D)))
                    (after_idle_release D now disposition)) (\<lambda>_. ret ())))
            (\<lambda>_. idle_released D s) (\<lambda>_. idle_released D s) (s\<lparr>sv_ext := x\<rparr>)"
        proof (cases blocking)
          case True
          then show ?thesis by (simp add: kept keeps_core_armAlarm same)
        next
          case False
          have "quiescent D (sd_idleTimeoutMs D) s"
            unfolding quiescent_def using b False c 3(2) by (auto simp: now_def the_time_def)
          note settled_idle = final [OF Some this]
          from False show ?thesis
            unfolding wp_if wp_andThen [of "resolveIdleDisposition D"]
            by (simp, intro wp_conseq [OF disposition_proven])
               (auto intro!: settled_idle keeps_core_armAlarm simp: idle_released_def)
        qed
      qed (simp add: idle_released_def untouched_def same)
      then show ?thesis
        using 3(2) unfolding now_def
        by (simp add: releaseIfIdle_def on_state_def wp_reading 3(1) state timed_def wp_andThen)
    qed (use state in \<open>auto simp: releaseIfIdle_def on_state_def wp_simps timed_def now_def
           intro!: kept keeps_core_refreshRelease self\<close>)
  qed
qed

end

section \<open>Properties\<close>



end
