(* ===== verification/Container_Ledger.thy ===== *)
theory Container_Ledger
  imports Prelude
begin

text \<open>
  \<open>src/src/compute/container-ledger.ts\<close> and \<open>container-quota.ts\<close>: the workspace-wide cap on
  live sandboxes. A row of \<open>active_containers\<close> is a lease; the conditional insert is the admission.
  The gate is written over any ledger, so its lemmas are proved once inside the locale
  \<open>container_ledger\<close>, which the D1 table interprets. Time stamps come from the clocks of
  different objects: nothing below assumes they agree or increase.
\<close>

section \<open>The ledger\<close>

record container_row =
  cr_thread_id :: string
  cr_workspace_id :: string
  cr_provider :: string
  cr_profile :: string
  cr_last_used_at :: int
  cr_expires_at :: int

type_synonym containers = "container_row list"

record admit_input =
  ai_threadId :: string
  ai_workspaceId :: string
  ai_provider :: string
  ai_profile :: string
  ai_now :: int
  ai_ttlMs :: int
  ai_limit :: int

definition holdsSlot :: "string \<Rightarrow> int \<Rightarrow> containers \<Rightarrow> bool" where
  "holdsSlot threadId now t \<longleftrightarrow>
     sql_select (\<lambda>r. cr_thread_id r = threadId \<and> cr_expires_at r > now) t \<noteq> []"

definition admit_row :: "admit_input \<Rightarrow> container_row" where
  "admit_row x = \<lparr>cr_thread_id = ai_threadId x, cr_workspace_id = ai_workspaceId x,
     cr_provider = ai_provider x, cr_profile = ai_profile x, cr_last_used_at = ai_now x,
     cr_expires_at = ai_now x + ai_ttlMs x\<rparr>"

text \<open>
  \<open>reported\<close> says whether D1 answered \<open>meta.changes\<close> with a number; it is then the number of rows
  the statement wrote. The count inside the \<open>INSERT ... SELECT\<close> is evaluated by the statement
  itself, on the table the prune left.
\<close>

definition tryAdmit :: "bool \<Rightarrow> admit_input \<Rightarrow> containers \<Rightarrow> containers \<times> bool" where
  "tryAdmit reported x t =
     (let pruned = sql_delete (\<lambda>r. cr_workspace_id r = ai_workspaceId x \<and>
                                    cr_expires_at r \<le> ai_now x) t;
          under = int (length (sql_select (\<lambda>r. cr_workspace_id r = ai_workspaceId x \<and>
                    cr_expires_at r > ai_now x \<and> cr_thread_id r \<noteq> ai_threadId x) pruned))
                    < ai_limit x;
          t' = (if under
                then sql_upsert cr_thread_id (admit_row x)
                       (\<lambda>r. r\<lparr>cr_last_used_at := ai_now x, cr_expires_at := ai_now x + ai_ttlMs x,
                              cr_provider := ai_provider x, cr_profile := ai_profile x,
                              cr_workspace_id := ai_workspaceId x\<rparr>) pruned
                else pruned)
      in (t', if reported then under else holdsSlot (ai_threadId x) (ai_now x) t'))"

definition refresh :: "bool \<Rightarrow> admit_input \<Rightarrow> containers \<Rightarrow> containers \<times> bool" where
  "refresh reported x t =
     (let t' = sql_update (\<lambda>r. cr_thread_id r = ai_threadId x)
                 (\<lambda>r. r\<lparr>cr_last_used_at := ai_now x, cr_expires_at := ai_now x + ai_ttlMs x\<rparr>) t
      in if holdsSlot (ai_threadId x) (ai_now x) t' then (t', True)
         else tryAdmit reported x t')"

definition release :: "string \<Rightarrow> containers \<Rightarrow> containers" where
  "release threadId t = sql_delete (\<lambda>r. cr_thread_id r = threadId) t"

definition countActive :: "string \<Rightarrow> int \<Rightarrow> containers \<Rightarrow> nat" where
  "countActive workspaceId now t =
     length (sql_select (\<lambda>r. cr_workspace_id r = workspaceId \<and> cr_expires_at r > now) t)"

definition listReclaimCandidates :: "string \<Rightarrow> string \<Rightarrow> int \<Rightarrow> containers \<Rightarrow> container_row list" where
  "listReclaimCandidates workspaceId excludeThreadId now t =
     sort_key cr_last_used_at
       (sql_select (\<lambda>r. cr_workspace_id r = workspaceId \<and> cr_thread_id r \<noteq> excludeThreadId \<and>
                        cr_expires_at r > now) t)"

section \<open>The quota gate\<close>

definition DEFAULT_MAX_ACTIVE_CONTAINERS :: int where
  "DEFAULT_MAX_ACTIVE_CONTAINERS = 10"

definition LEDGER_GRACE_MS :: int where
  "LEDGER_GRACE_MS = 60000"

definition MAX_RECLAIM_ATTEMPTS :: nat where
  "MAX_RECLAIM_ATTEMPTS = 3"

record quota_input =
  qi_workspaceId :: string
  qi_threadId :: string
  qi_provider :: string
  qi_profile :: string
  qi_idleTimeoutMs :: int
  qi_limit :: int

definition gate_input :: "quota_input \<Rightarrow> int \<Rightarrow> admit_input" where
  "gate_input q now = \<lparr>ai_threadId = qi_threadId q, ai_workspaceId = qi_workspaceId q,
     ai_provider = qi_provider q, ai_profile = qi_profile q, ai_now = now,
     ai_ttlMs = qi_idleTimeoutMs q + LEDGER_GRACE_MS, ai_limit = qi_limit q\<rparr>"

definition quota_exhausted_message :: "nat \<Rightarrow> int \<Rightarrow> string" where
  "quota_exhausted_message active limit =
     ''All '' @ nat_digits active @
     '' sandbox slots for this workspace are busy running work in other threads '' @
     ''(limit '' @ int_string limit @
     ''). Slots free up automatically as that work finishes; '' @
     ''retry shortly, or stop work in another thread to free one now.''"

text \<open>
  \<open>reclaim\<close> is the call to the candidate's own object. It is given the table as it was sent and
  returns the table as it is when the call settles (the candidate's release and whatever other
  threads did meanwhile), its answer (\<open>None\<close> when it threw or timed out) and the clock then.
\<close>

fun reclaimLoop ::
    "(int \<Rightarrow> 's \<Rightarrow> 's \<times> bool) \<Rightarrow> (string \<Rightarrow> 's \<Rightarrow> 's) \<Rightarrow> (string \<Rightarrow> 's \<Rightarrow> 's \<times> bool option \<times> int) \<Rightarrow>
     string list \<Rightarrow> int \<Rightarrow> 's \<Rightarrow> 's \<times> int \<times> bool" where
  "reclaimLoop try_admit rel reclaim [] now s = (s, now, False)"
| "reclaimLoop try_admit rel reclaim (c # cs) now s =
     (case reclaim c s of (s1, answer, now1) \<Rightarrow>
        if answer \<noteq> Some True then reclaimLoop try_admit rel reclaim cs now1 s1
        else case try_admit now1 (rel c s1) of (s2, admitted) \<Rightarrow>
          if admitted then (s2, now1, True)
          else reclaimLoop try_admit rel reclaim cs now1 s2)"

definition admit ::
    "(admit_input \<Rightarrow> 's \<Rightarrow> 's \<times> bool) \<Rightarrow> (string \<Rightarrow> 's \<Rightarrow> 's) \<Rightarrow>
     (string \<Rightarrow> string \<Rightarrow> int \<Rightarrow> 's \<Rightarrow> container_row list) \<Rightarrow> (string \<Rightarrow> int \<Rightarrow> 's \<Rightarrow> nat) \<Rightarrow>
     (string \<Rightarrow> 's \<Rightarrow> 's \<times> bool option \<times> int) \<Rightarrow> quota_input \<Rightarrow> int \<Rightarrow> 's \<Rightarrow> 's \<times> int \<times> (string + unit)" where
  "admit try_admit rel candidates active reclaim q now s =
     (case try_admit (gate_input q now) s of (s1, admitted) \<Rightarrow>
        if admitted then (s1, now, Inr ())
        else case reclaimLoop (\<lambda>n. try_admit (gate_input q n)) rel reclaim
            (map cr_thread_id (take MAX_RECLAIM_ATTEMPTS
               (candidates (qi_workspaceId q) (qi_threadId q) now s1))) now s1 of
          (s2, now2, reclaimed) \<Rightarrow>
            if reclaimed then (s2, now2, Inr ())
            else case try_admit (gate_input q now2) s2 of (s3, last_try) \<Rightarrow>
              if last_try then (s3, now2, Inr ())
              else (s3, now2, Inl (quota_exhausted_message (active (qi_workspaceId q) now2 s3)
                                     (qi_limit q))))"

definition refresh_gate ::
    "(admit_input \<Rightarrow> 's \<Rightarrow> 's \<times> bool) \<Rightarrow> quota_input \<Rightarrow> int \<Rightarrow> 's \<Rightarrow> 's \<times> bool" where
  "refresh_gate ref q now s = ref (gate_input q now) s"

definition release_gate :: "(string \<Rightarrow> 's \<Rightarrow> 's) \<Rightarrow> quota_input \<Rightarrow> 's \<Rightarrow> 's" where
  "release_gate rel q s = rel (qi_threadId q) s"

section \<open>What a ledger promises, and what the gate then delivers\<close>

locale container_ledger =
  fixes try_admit :: "admit_input \<Rightarrow> 's \<Rightarrow> 's \<times> bool"
    and refresh_slot :: "admit_input \<Rightarrow> 's \<Rightarrow> 's \<times> bool"
    and rel :: "string \<Rightarrow> 's \<Rightarrow> 's"
    and candidates :: "string \<Rightarrow> string \<Rightarrow> int \<Rightarrow> 's \<Rightarrow> container_row list"
    and active :: "string \<Rightarrow> int \<Rightarrow> 's \<Rightarrow> nat"
    and holds :: "string \<Rightarrow> int \<Rightarrow> 's \<Rightarrow> bool"
    and leases :: "string \<Rightarrow> 's \<Rightarrow> nat"
    and cap :: "string \<Rightarrow> int"
    and inv :: "'s \<Rightarrow> bool"
  assumes inv_admit: "inv s \<Longrightarrow> ai_limit x = cap (ai_workspaceId x) \<Longrightarrow> inv (fst (try_admit x s))"
    and inv_refresh: "inv s \<Longrightarrow> ai_limit x = cap (ai_workspaceId x) \<Longrightarrow> inv (fst (refresh_slot x s))"
    and inv_release: "inv s \<Longrightarrow> inv (rel k s)"
    and leases_capped: "inv s \<Longrightarrow> int (leases w s) \<le> max 0 (cap w)"
    and active_leases: "active w now s \<le> leases w s"
    and admitted_holds: "inv s \<Longrightarrow> 0 < ai_ttlMs x \<Longrightarrow> snd (try_admit x s) \<Longrightarrow>
      holds (ai_threadId x) (ai_now x) (fst (try_admit x s))"
    and refused_full: "inv s \<Longrightarrow> 0 < ai_ttlMs x \<Longrightarrow> \<not> snd (try_admit x s) \<Longrightarrow>
      ai_limit x \<le> int (active (ai_workspaceId x) (ai_now x) (fst (try_admit x s)))"
    and refreshed_holds: "inv s \<Longrightarrow> 0 < ai_ttlMs x \<Longrightarrow>
      snd (refresh_slot x s) = holds (ai_threadId x) (ai_now x) (fst (refresh_slot x s))"
    and released: "\<not> holds k now (rel k s)"
    and candidates_other: "k \<notin> cr_thread_id ` set (candidates w k now s)"
begin

lemma reclaimLoop_sound:
  assumes "inv s" and "qi_limit q = cap (qi_workspaceId q)" and "0 \<le> qi_idleTimeoutMs q"
    and "\<And>c s. inv s \<Longrightarrow> inv (fst (reclaim c s))"
    and "reclaimLoop (\<lambda>n. try_admit (gate_input q n)) rel reclaim cs now s = (s', now', ok)"
  shows "inv s' \<and> (ok \<longrightarrow> holds (qi_threadId q) now' s')"
  using assms(1,5)
proof (induction cs arbitrary: s now)
  case (Cons c cs)
  obtain s1 answer now1 where r: "reclaim c s = (s1, answer, now1)" by (cases "reclaim c s")
  have inv1: "inv s1" using assms(4) [OF Cons.prems(1), of c] r by simp
  show ?case
  proof (cases "answer = Some True")
    case False
    with Cons.IH [OF inv1, of now1] Cons.prems(2) r show ?thesis by simp
  next
    case True
    obtain s2 got where t: "try_admit (gate_input q now1) (rel c s1) = (s2, got)" by fastforce
    have inv2: "inv s2"
      using inv_admit [OF inv_release [OF inv1], of "gate_input q now1" c] t assms(2)
      by (simp add: gate_input_def)
    have "got \<Longrightarrow> holds (qi_threadId q) now1 s2"
      using admitted_holds [OF inv_release [OF inv1], of "gate_input q now1" c] t assms(3)
      by (simp add: gate_input_def LEDGER_GRACE_MS_def)
    with Cons.IH [OF inv2] Cons.prems(2) r t True inv2 show ?thesis by (auto split: if_splits)
  qed
qed simp

lemma gate_sound:
  assumes "inv s" and "qi_limit q = cap (qi_workspaceId q)" and "0 \<le> qi_idleTimeoutMs q"
    and reclaim: "\<And>c s. inv s \<Longrightarrow> inv (fst (reclaim c s))"
    and run: "admit try_admit rel candidates active reclaim q now s = (s', now', r)"
  shows "inv s'"
    and "r = Inr () \<Longrightarrow> holds (qi_threadId q) now' s'"
    and "r = Inl msg \<Longrightarrow> qi_limit q \<le> int (active (qi_workspaceId q) now' s') \<and>
      msg = quota_exhausted_message (active (qi_workspaceId q) now' s') (qi_limit q)"
proof -
  have ttl: "0 < ai_ttlMs (gate_input q n)" for n
    using assms(3) by (simp add: gate_input_def LEDGER_GRACE_MS_def)
  have input: "ai_limit (gate_input q n) = cap (ai_workspaceId (gate_input q n))"
    "ai_threadId (gate_input q n) = qi_threadId q" "ai_now (gate_input q n) = n"
    "ai_workspaceId (gate_input q n) = qi_workspaceId q" "ai_limit (gate_input q n) = qi_limit q" for n
    using assms(2) by (simp_all add: gate_input_def)
  obtain s1 b1 where t1: "try_admit (gate_input q now) s = (s1, b1)" by fastforce
  have inv1: "inv s1" using inv_admit [OF assms(1) input(1), of now] t1 by simp
  have held1: "b1 \<Longrightarrow> holds (qi_threadId q) now s1"
    using admitted_holds [OF assms(1) ttl, of now] t1 by (simp add: input)
  obtain s2 now2 b2 where loop: "reclaimLoop (\<lambda>n. try_admit (gate_input q n)) rel reclaim
      (map cr_thread_id (take MAX_RECLAIM_ATTEMPTS
         (candidates (qi_workspaceId q) (qi_threadId q) now s1))) now s1 = (s2, now2, b2)"
    using prod_cases3 by blast
  note sound2 = reclaimLoop_sound [OF inv1 assms(2,3) reclaim loop]
  obtain s3 b3 where t3: "try_admit (gate_input q now2) s2 = (s3, b3)" by fastforce
  have inv3: "inv s3" using inv_admit [of s2 "gate_input q now2"] sound2 t3 input(1) by force
  have held3: "b3 \<Longrightarrow> holds (qi_threadId q) now2 s3"
    using admitted_holds [of s2 "gate_input q now2"] ttl sound2 t3 by (simp add: input)
  have full3: "\<not> b3 \<Longrightarrow> qi_limit q \<le> int (active (qi_workspaceId q) now2 s3)"
    using refused_full [of s2 "gate_input q now2"] ttl sound2 t3 by (simp add: input(2-5))
  have "(s', now', r) = (if b1 then (s1, now, Inr ()) else if b2 then (s2, now2, Inr ())
      else if b3 then (s3, now2, Inr ())
      else (s3, now2, Inl (quota_exhausted_message (active (qi_workspaceId q) now2 s3) (qi_limit q))))"
    using run unfolding admit_def by (simp add: t1 loop t3 cong del: if_weak_cong)
  with inv1 inv3 held1 held3 full3 sound2
  show "inv s'" and "r = Inr () \<Longrightarrow> holds (qi_threadId q) now' s'"
    and "r = Inl msg \<Longrightarrow> qi_limit q \<le> int (active (qi_workspaceId q) now' s') \<and>
      msg = quota_exhausted_message (active (qi_workspaceId q) now' s') (qi_limit q)"
    by (auto split: if_splits)
qed

end

section \<open>The D1 table is such a ledger\<close>

definition leasesOf :: "string \<Rightarrow> containers \<Rightarrow> nat" where
  "leasesOf w t = length (sql_select (\<lambda>r. cr_workspace_id r = w) t)"

definition within_caps :: "(string \<Rightarrow> int) \<Rightarrow> containers \<Rightarrow> bool" where
  "within_caps cap t \<longleftrightarrow> sql_keyed cr_thread_id t \<and> (\<forall>w. int (leasesOf w t) \<le> max 0 (cap w))"

lemma leasesOf_card:
  "sql_keyed cr_thread_id t \<Longrightarrow> leasesOf w t = card {r \<in> set t. cr_workspace_id r = w}"
  by (simp add: leasesOf_def sql_select_def length_filter_keyed)

lemma leasesOf_update:
  assumes "\<And>r. cr_workspace_id (f r) = cr_workspace_id r"
  shows "leasesOf w (sql_update P f t) = leasesOf w t"
  using assms
  by (simp add: leasesOf_def sql_select_def sql_update_def filter_map comp_def if_distrib cong: if_cong)

lemma leasesOf_delete: "leasesOf w (sql_delete P t) \<le> leasesOf w t"
  by (induction t) (auto simp: leasesOf_def sql_select_def sql_delete_def)

lemma within_caps_delete: "within_caps cap t \<Longrightarrow> within_caps cap (sql_delete P t)"
  using leasesOf_delete [of _ P t] unfolding within_caps_def
  by (meson of_nat_mono order_trans sql_keyed_delete)

lemma within_caps_empty [simp]: "within_caps cap []"
  by (simp add: within_caps_def leasesOf_def sql_select_def)

definition pruned :: "admit_input \<Rightarrow> containers \<Rightarrow> containers" where
  "pruned x t = sql_delete (\<lambda>r. cr_workspace_id r = ai_workspaceId x \<and> cr_expires_at r \<le> ai_now x) t"

definition others :: "admit_input \<Rightarrow> containers \<Rightarrow> container_row set" where
  "others x t = {r \<in> set (pruned x t). cr_workspace_id r = ai_workspaceId x \<and>
     cr_thread_id r \<noteq> ai_threadId x}"

lemma others_live: "r \<in> others x t \<Longrightarrow> cr_expires_at r > ai_now x"
  by (auto simp: others_def pruned_def set_sql_delete)

definition admitted :: "admit_input \<Rightarrow> containers \<Rightarrow> containers" where
  "admitted x t = sql_upsert cr_thread_id (admit_row x)
     (\<lambda>r. r\<lparr>cr_last_used_at := ai_now x, cr_expires_at := ai_now x + ai_ttlMs x,
            cr_provider := ai_provider x, cr_profile := ai_profile x,
            cr_workspace_id := ai_workspaceId x\<rparr>) (pruned x t)"

lemma set_admitted:
  "set (admitted x t) = insert (admit_row x) {r \<in> set (pruned x t). cr_thread_id r \<noteq> ai_threadId x}"
  unfolding admitted_def
  by (subst set_sql_upsert_replace) (auto simp: admit_row_def)

lemma keyed_pruned: "sql_keyed cr_thread_id t \<Longrightarrow> sql_keyed cr_thread_id (pruned x t)"
  by (simp add: pruned_def sql_keyed_delete)

lemma keyed_admitted: "sql_keyed cr_thread_id t \<Longrightarrow> sql_keyed cr_thread_id (admitted x t)"
  unfolding admitted_def by (intro sql_keyed_upsert keyed_pruned) auto

text \<open>The admission decision, with the pruned rows gone from its count.\<close>

lemma tryAdmit_cases:
  assumes "sql_keyed cr_thread_id t"
  shows "tryAdmit reported x t =
    (if int (card (others x t)) < ai_limit x
     then (admitted x t, reported \<or> holdsSlot (ai_threadId x) (ai_now x) (admitted x t))
     else (pruned x t, \<not> reported \<and> holdsSlot (ai_threadId x) (ai_now x) (pruned x t)))"
proof -
  have "length (sql_select (\<lambda>r. cr_workspace_id r = ai_workspaceId x \<and>
      cr_expires_at r > ai_now x \<and> cr_thread_id r \<noteq> ai_threadId x) (pruned x t)) = card (others x t)"
    unfolding sql_select_def length_filter_keyed [OF keyed_pruned [OF assms]]
    by (rule arg_cong [where f = card]) (auto simp: others_def pruned_def set_sql_delete)
  then show ?thesis
    by (simp add: tryAdmit_def Let_def pruned_def [symmetric] admitted_def [symmetric])
qed

lemma leasesOf_admitted:
  assumes "sql_keyed cr_thread_id t"
  shows "leasesOf (ai_workspaceId x) (admitted x t) = Suc (card (others x t))"
    and "w \<noteq> ai_workspaceId x \<Longrightarrow> leasesOf w (admitted x t) \<le> leasesOf w t"
proof -
  have "{r \<in> set (admitted x t). cr_workspace_id r = ai_workspaceId x} =
      insert (admit_row x) (others x t)"
    by (auto simp: set_admitted others_def admit_row_def)
  moreover have "admit_row x \<notin> others x t" "finite (others x t)"
    by (auto simp: others_def admit_row_def)
  ultimately show "leasesOf (ai_workspaceId x) (admitted x t) = Suc (card (others x t))"
    by (simp add: leasesOf_card keyed_admitted assms)
next
  assume "w \<noteq> ai_workspaceId x"
  then have "{r \<in> set (admitted x t). cr_workspace_id r = w} \<subseteq> {r \<in> set t. cr_workspace_id r = w}"
    by (auto simp: set_admitted admit_row_def pruned_def set_sql_delete)
  then show "leasesOf w (admitted x t) \<le> leasesOf w t"
    by (simp add: leasesOf_card keyed_admitted assms card_mono)
qed

lemma within_caps_tryAdmit:
  assumes "within_caps cap t" and "ai_limit x = cap (ai_workspaceId x)"
  shows "within_caps cap (fst (tryAdmit reported x t))"
proof -
  have keyed: "sql_keyed cr_thread_id t" using assms(1) by (simp add: within_caps_def)
  have "within_caps cap (admitted x t)" if "int (card (others x t)) < ai_limit x"
    unfolding within_caps_def
  proof (intro conjI allI keyed_admitted keyed)
    fix w
    show "int (leasesOf w (admitted x t)) \<le> max 0 (cap w)"
    proof (cases "w = ai_workspaceId x")
      case True
      with that assms(2) show ?thesis by (simp add: leasesOf_admitted(1) [OF keyed])
    next
      case False
      have "int (leasesOf w t) \<le> max 0 (cap w)" using assms(1) by (simp add: within_caps_def)
      with leasesOf_admitted(2) [OF keyed False] show ?thesis by (meson of_nat_mono order_trans)
    qed
  qed
  moreover have "within_caps cap (pruned x t)"
    unfolding pruned_def using assms(1) by (rule within_caps_delete)
  ultimately show ?thesis by (simp add: tryAdmit_cases [OF keyed])
qed

lemma within_caps_refresh:
  assumes "within_caps cap t" and "ai_limit x = cap (ai_workspaceId x)"
  shows "within_caps cap (fst (refresh reported x t))"
proof -
  have "within_caps cap (sql_update (\<lambda>r. cr_thread_id r = ai_threadId x)
      (\<lambda>r. r\<lparr>cr_last_used_at := ai_now x, cr_expires_at := ai_now x + ai_ttlMs x\<rparr>) t)"
    using assms(1) by (simp add: within_caps_def leasesOf_update sql_keyed_update)
  then show ?thesis using assms(2) by (simp add: refresh_def Let_def within_caps_tryAdmit)
qed

lemma holdsSlot_iff:
  "holdsSlot k now t \<longleftrightarrow> (\<exists>r \<in> set t. cr_thread_id r = k \<and> cr_expires_at r > now)"
  by (auto simp: holdsSlot_def sql_select_def filter_empty_conv)

lemma holdsSlot_admitted:
  "0 < ai_ttlMs x \<Longrightarrow> holdsSlot (ai_threadId x) (ai_now x) (admitted x t)"
  by (auto simp: holdsSlot_iff set_admitted admit_row_def)

lemma others_le_active: "card (others x t) \<le> countActive (ai_workspaceId x) (ai_now x) (pruned x t)"
  if "sql_keyed cr_thread_id t"
proof -
  have "others x t \<subseteq> {r \<in> set (pruned x t). cr_workspace_id r = ai_workspaceId x \<and>
      cr_expires_at r > ai_now x}"
    using others_live by (auto simp: others_def)
  then have "card (others x t) \<le> card {r \<in> set (pruned x t).
      cr_workspace_id r = ai_workspaceId x \<and> cr_expires_at r > ai_now x}"
    by (rule card_mono [rotated]) simp
  then show ?thesis
    by (simp add: countActive_def sql_select_def length_filter_keyed [OF keyed_pruned [OF that]])
qed

lemma refresh_answer:
  assumes "sql_keyed cr_thread_id t" and "0 < ai_ttlMs x"
  shows "snd (refresh reported x t) =
    holdsSlot (ai_threadId x) (ai_now x) (fst (refresh reported x t))"
proof -
  let ?u = "sql_update (\<lambda>r. cr_thread_id r = ai_threadId x)
      (\<lambda>r. r\<lparr>cr_last_used_at := ai_now x, cr_expires_at := ai_now x + ai_ttlMs x\<rparr>) t"
  have keyed: "sql_keyed cr_thread_id ?u" using assms(1) by (simp add: sql_keyed_update)
  have "snd (tryAdmit reported x ?u) =
      holdsSlot (ai_threadId x) (ai_now x) (fst (tryAdmit reported x ?u))"
    if "\<not> holdsSlot (ai_threadId x) (ai_now x) ?u"
  proof -
    have "\<not> holdsSlot (ai_threadId x) (ai_now x) (pruned x ?u)"
      using that by (auto simp: holdsSlot_iff pruned_def set_sql_delete)
    then show ?thesis by (simp add: tryAdmit_cases keyed holdsSlot_admitted assms(2))
  qed
  then show ?thesis by (simp add: refresh_def Let_def)
qed

lemma countActive_leases: "countActive w now t \<le> leasesOf w t"
  by (induction t) (auto simp: countActive_def leasesOf_def sql_select_def)

interpretation d1: container_ledger "tryAdmit reported" "refresh reported" release
  listReclaimCandidates countActive holdsSlot leasesOf cap "within_caps cap"
  for reported cap
proof unfold_locales
  fix s :: containers and x :: admit_input and k w :: string and now :: int
  assume caps: "within_caps cap s"
  then have keyed: "sql_keyed cr_thread_id s" by (simp add: within_caps_def)
  show "within_caps cap (release k s)"
    unfolding release_def using caps by (rule within_caps_delete)
  show "int (leasesOf w s) \<le> max 0 (cap w)" using caps by (simp add: within_caps_def)
  assume ttl: "0 < ai_ttlMs x"
  show "holdsSlot (ai_threadId x) (ai_now x) (fst (tryAdmit reported x s))"
    if "snd (tryAdmit reported x s)"
    using that by (auto simp: tryAdmit_cases keyed holdsSlot_admitted ttl split: if_splits)
  show "ai_limit x \<le> int (countActive (ai_workspaceId x) (ai_now x) (fst (tryAdmit reported x s)))"
    if "\<not> snd (tryAdmit reported x s)"
    using that others_le_active [OF keyed, of x]
    by (auto simp: tryAdmit_cases keyed holdsSlot_admitted ttl split: if_splits)
  show "snd (refresh reported x s) =
      holdsSlot (ai_threadId x) (ai_now x) (fst (refresh reported x s))"
    by (rule refresh_answer [OF keyed ttl])
qed (auto simp: within_caps_tryAdmit within_caps_refresh countActive_leases
    sql_select_def listReclaimCandidates_def release_def holdsSlot_iff set_sql_delete)

section \<open>Guarantees\<close>

datatype container_op =
    AdmitSlot bool admit_input
  | RefreshSlot bool admit_input
  | ReleaseSlot string

fun container_input :: "container_op \<Rightarrow> admit_input option" where
  "container_input (AdmitSlot _ x) = Some x"
| "container_input (RefreshSlot _ x) = Some x"
| "container_input (ReleaseSlot _) = None"

fun container_step :: "container_op \<Rightarrow> containers \<Rightarrow> containers" where
  "container_step (AdmitSlot reported x) t = fst (tryAdmit reported x t)"
| "container_step (RefreshSlot reported x) t = fst (refresh reported x t)"
| "container_step (ReleaseSlot k) t = release k t"

definition container_run :: "container_op list \<Rightarrow> containers \<Rightarrow> containers" where
  "container_run ops t = fold container_step ops t"

lemma container_run_caps:
  assumes "within_caps cap t"
    and "\<forall>x \<in> Option.these (container_input ` set ops). ai_limit x = cap (ai_workspaceId x)"
  shows "within_caps cap (container_run ops t)"
  using assms
proof (induction ops arbitrary: t)
  case (Cons a ops)
  have "within_caps cap (container_step a t)"
    using Cons.prems
    by (cases a) (auto simp: within_caps_tryAdmit within_caps_refresh d1.inv_release in_these_eq)
  with Cons show ?case by (simp add: container_run_def in_these_eq)
qed (simp add: container_run_def)


definition demo_quota :: "string \<Rightarrow> quota_input" where
  "demo_quota k = \<lparr>qi_workspaceId = ''w'', qi_threadId = k, qi_provider = ''p'', qi_profile = ''s'',
     qi_idleTimeoutMs = 1000, qi_limit = 1\<rparr>"


text \<open>A thread that holds a live slot of its workspace is always admitted again, whatever the
  load, and takes no second slot for it.\<close>

theorem holder_readmitted:
  assumes "within_caps cap t" and "ai_limit x = cap (ai_workspaceId x)" and "0 < ai_ttlMs x"
    and "r \<in> set t" and "cr_thread_id r = ai_threadId x" and "cr_workspace_id r = ai_workspaceId x"
    and "cr_expires_at r > ai_now x"
  shows "snd (tryAdmit reported x t) \<and>
    leasesOf (ai_workspaceId x) (fst (tryAdmit reported x t)) \<le> leasesOf (ai_workspaceId x) t"
proof -
  have keyed: "sql_keyed cr_thread_id t" using assms(1) by (simp add: within_caps_def)
  have "insert r (others x t) \<subseteq> {r \<in> set t. cr_workspace_id r = ai_workspaceId x}"
    using assms(4,6) by (auto simp: others_def pruned_def set_sql_delete)
  then have "card (insert r (others x t)) \<le> leasesOf (ai_workspaceId x) t"
    unfolding leasesOf_card [OF keyed] by (rule card_mono [rotated]) simp
  then have one_more: "Suc (card (others x t)) \<le> leasesOf (ai_workspaceId x) t"
    using assms(5) by (simp add: others_def card_insert_if)
  moreover have "int (leasesOf (ai_workspaceId x) t) \<le> max 0 (ai_limit x)"
    using assms(1,2) by (simp add: within_caps_def)
  ultimately have "int (card (others x t)) < ai_limit x" by linarith
  with one_more show ?thesis
    by (simp add: tryAdmit_cases [OF keyed] leasesOf_admitted [OF keyed] holdsSlot_admitted assms(3))
qed

definition demo_table :: containers where
  "demo_table = [admit_row (gate_input (demo_quota ''a'') 5)]"

lemma demo_table_caps: "within_caps (\<lambda>_. 1) demo_table"
  by (simp add: demo_table_def within_caps_def leasesOf_def sql_select_def sql_keyed_def)

theorem holder_readmitted_witness:
  "snd (tryAdmit False (gate_input (demo_quota ''a'') 9) demo_table)"
  using holder_readmitted [OF demo_table_caps, of "gate_input (demo_quota ''a'') 9"
      "admit_row (gate_input (demo_quota ''a'') 5)" False]
  by (simp add: demo_table_def admit_row_def gate_input_def demo_quota_def LEDGER_GRACE_MS_def)

text \<open>The quota gate over the D1 ledger, whatever the reclaim calls do or fail to do: it keeps
  every workspace within its limit; when it returns, the thread holds a live slot; and it throws
  \<open>quota_exhausted\<close> only when live leases really fill the workspace's limit, saying how many.\<close>

theorem admit_outcome:
  assumes "within_caps cap t" and "qi_limit q = cap (qi_workspaceId q)"
    and "0 \<le> qi_idleTimeoutMs q"
    and "\<And>c s. within_caps cap s \<Longrightarrow> within_caps cap (fst (reclaim c s))"
    and "admit (tryAdmit reported) release listReclaimCandidates countActive reclaim q now t =
      (t', now', r)"
  shows "within_caps cap t' \<and>
    (case r of
       Inr _ \<Rightarrow> holdsSlot (qi_threadId q) now' t'
     | Inl msg \<Rightarrow> cap (qi_workspaceId q) \<le> int (countActive (qi_workspaceId q) now' t') \<and>
         msg = quota_exhausted_message (countActive (qi_workspaceId q) now' t') (qi_limit q))"
  using d1.gate_sound [OF assms] assms(2) by (cases r) simp_all

theorem admit_outcome_witness:
  "holdsSlot ''b'' 9 (fst (admit (tryAdmit False) release listReclaimCandidates countActive
     (\<lambda>c t. (release c t, Some True, 9)) (demo_quota ''b'') 7 demo_table))"
proof -
  have run: "admit (tryAdmit False) release listReclaimCandidates countActive
      (\<lambda>c t. (release c t, Some True, 9)) (demo_quota ''b'') 7 demo_table =
      ([admit_row (gate_input (demo_quota ''b'') 9)], 9, Inr ())"
    by (simp add: admit_def tryAdmit_def Let_def demo_table_def admit_row_def gate_input_def
        demo_quota_def LEDGER_GRACE_MS_def sql_delete_def sql_select_def sql_upsert_def release_def
        holdsSlot_def listReclaimCandidates_def MAX_RECLAIM_ATTEMPTS_def)
  have limit: "qi_limit (demo_quota ''b'') = 1" and idle: "0 \<le> qi_idleTimeoutMs (demo_quota ''b'')"
    and "qi_threadId (demo_quota ''b'') = ''b''"
    by (simp_all add: demo_quota_def)
  with admit_outcome [OF demo_table_caps limit idle _ run] show ?thesis
    by (simp add: run d1.inv_release)
qed

end
