(* ===== verification/Fake_Thread.thy ===== *)
theory Fake_Thread
  imports Release_Safety Container_Ledger
begin

text \<open>
  A thread whose outside is made of models: the fake backend as its provider, the container ledger
  behind the quota gate, a clock that ticks with every call. It keeps the laws of \<open>thread_deps\<close>, so
  what is proved there holds of it, and its runs are concrete instances of the properties.
\<close>

section \<open>The outside\<close>

record outside =
  ow_fake :: fake
  ow_containers :: containers
  ow_now :: int
  ow_uuids :: nat
  ow_declaredClean :: bool
  ow_verdict :: workspace_cleanliness

definition tick :: "outside \<Rightarrow> outside" where
  "tick w = w\<lparr>ow_now := ow_now w + 1\<rparr>"

definition on_fake :: "(fake, 'a) act \<Rightarrow> (outside, 'a) act" where
  "on_fake m w = (case m (ow_fake w) of (f, r) \<Rightarrow> (tick (w\<lparr>ow_fake := f\<rparr>), r))"

definition look_fake :: "(fake \<Rightarrow> compute_error + 'a) \<Rightarrow> (outside, 'a) act" where
  "look_fake f w = (tick w, f (ow_fake w))"

fun of_fake_status :: "fake_process_status \<Rightarrow> process_status" where
  "of_fake_status FpRunning = PsRunning"
| "of_fake_status FpExited = PsExited"
| "of_fake_status FpFailed = PsFailed"
| "of_fake_status FpStopped = PsStopped"

definition map_result :: "('a \<Rightarrow> 'b) \<Rightarrow> ('s, 'a) act \<Rightarrow> ('s, 'b) act" where
  "map_result f m = andThen m (\<lambda>a. ret (f a))"

definition fake_provider :: "outside runtime_backend" where
  "fake_provider = \<lparr>rb_id = fake_id, rb_nativeIdleSuspend = False,
     rb_acquire = (\<lambda>spec recovery. on_fake (acquire spec recovery)),
     rb_release = (\<lambda>r d. on_fake (release_runtime r d)),
     rb_destroy = (\<lambda>r. on_fake (destroy r)),
     rb_createDirectory = (\<lambda>r p. on_fake (createDirectory r p)),
     rb_writeFile = (\<lambda>r p b parents ow. on_fake (writeFile r p b parents ow)),
     rb_readFile = (\<lambda>r p n w. readFile r p n (ow_fake w)),
     rb_listDirectory = (\<lambda>r p w. listDirectory r p (ow_fake w)),
     rb_runCommand = Some (\<lambda>r c. on_fake (runCommand r c None None)),
     rb_backstopProbe = None, rb_releaseHold = None,
     rb_getProcessStatus = (\<lambda>r p. map_result (map_prod of_fake_status id)
       (look_fake (getProcessStatus r p))),
     rb_readProcessOutput = (\<lambda>r p. map_result (map_prod Some Some)
       (look_fake (readProcessOutput r p))),
     rb_stopProcess = (\<lambda>r p mode. map_result (map_prod of_fake_status id)
       (on_fake (stopProcess r p)))\<rparr>"

text \<open>The gate of a workspace none of whose other threads gives its slot up.\<close>

definition ledger_gate :: "quota_input \<Rightarrow> outside quota_gate" where
  "ledger_gate q = \<lparr>
     qg_admit = (\<lambda>w. case admit (tryAdmit True) release listReclaimCandidates countActive
           (\<lambda>c t. (t, Some False, ow_now w)) q (ow_now w) (ow_containers w) of
         (t, _, Inl m) \<Rightarrow> (tick (w\<lparr>ow_containers := t\<rparr>), Inl (ComputeError CeQuotaExhausted m))
       | (t, _, Inr u) \<Rightarrow> (tick (w\<lparr>ow_containers := t\<rparr>), Inr ())),
     qg_refresh = (\<lambda>w. case refresh_gate (refresh True) q (ow_now w) (ow_containers w) of
         (t, held) \<Rightarrow> (tick (w\<lparr>ow_containers := t\<rparr>), Inr held)),
     qg_release = (\<lambda>w. (tick (w\<lparr>ow_containers := release_gate release q (ow_containers w)\<rparr>), Inr ()))\<rparr>"

definition schedule_outside :: "int \<Rightarrow> (outside, unit) act" where
  "schedule_outside t w = (tick w, Inr ())"

definition fake_deps :: "outside deps" where
  "fake_deps = \<lparr>sd_backend = fake_provider, sd_attachedRuntime = None,
     sd_supportsProcessMonitor = True, sd_provider = fake_id,
     sd_providerConfig = MockConfig, sd_resourceProfile = Small, sd_allowedHosts = None,
     sd_idleTimeoutMs = 600000, sd_recoveryTtlMs = 86400000, sd_maxProcessRuntimeMs = 3600000,
     sd_acquireDeadlineMs = ACQUIRE_DEADLINE_MS,
     sd_monitorPollIntervalMs = DEFAULT_MONITOR_POLL_INTERVAL_MS,
     sd_limits = \<lparr>ol_maxProcessOutputBytes = 20000000, ol_maxThreadOutputBytes = 100000000\<rparr>,
     sd_environmentId = ''fake:small'', sd_env = [],
     sd_quota = Some (ledger_gate \<lparr>qi_workspaceId = ''w'', qi_threadId = ''t'', qi_provider = fake_id,
       qi_profile = ''small'', qi_idleTimeoutMs = 600000, qi_limit = 1\<rparr>),
     sd_schedule = schedule_outside, sd_cancelSchedule = (\<lambda>w. (tick w, Inr ())),
     sd_now = ow_now,
     sd_uuid = (\<lambda>w. (''nonce-'' @ nat_digits (ow_uuids w), w\<lparr>ow_uuids := ow_uuids w + 1\<rparr>)),
     sd_sql = (\<lambda>w. (w, Inr ())),
     sd_reminder = (\<lambda>body mode card w. (tick w, Inr ())),
     sd_hasBlockingWork = (\<lambda>l w. (tick w, Inr (\<exists>r \<in> set (listOpen l). wr_kind r = KSubagent))),
     sd_workHorizon = (\<lambda>w l. nextSweepAt (listOpen l)),
     sd_markSandboxDirty = (\<lambda>w. (w\<lparr>ow_declaredClean := False\<rparr>, Inr ())),
     sd_isDeclaredClean = (\<lambda>w. (w, Inr (ow_declaredClean w))),
     sd_probe = (\<lambda>s. (s, Inr (ow_verdict (sv_ext s)))),
     sd_onFreshRuntime = ret ()\<rparr>"

section \<open>It keeps the laws\<close>

lemma valid_fake_references [simp]:
  "valid_reference (runtimeReference i)" "valid_reference (recoveryReference i)"
  by (simp_all add: valid_reference_def runtimeReference_def recoveryReference_def fake_id_def)

lemma acquire_valid: "acquire spec recovery f = (f', Inr r) \<Longrightarrow> valid_reference r"
  by (auto simp: acquire_def Let_def split: option.splits sum.splits if_splits)

lemma release_valid: "release_runtime r d f = (f', Inr (Some r')) \<Longrightarrow> valid_reference r' \<and> d \<noteq> Discard"
  by (auto simp: release_runtime_def split: option.splits sum.splits if_splits prod.splits)

interpretation fake_thread: thread_deps fake_deps
proof
  fix spec :: compute_spec and recovery x r
  assume "snd (rb_acquire (sd_backend fake_deps) spec recovery x) = Inr r"
  then show "valid_reference r"
    using acquire_valid by (cases "acquire spec recovery (ow_fake x)")
      (auto simp: fake_deps_def fake_provider_def on_fake_def)
next
  fix r d x r'
  assume "snd (rb_release (sd_backend fake_deps) r d x) = Inr (Some r')"
  then show "valid_reference r'"
    using release_valid by (cases "release_runtime r d (ow_fake x)")
      (auto simp: fake_deps_def fake_provider_def on_fake_def)
next
  fix r x r'
  show "snd (rb_release (sd_backend fake_deps) r Discard x) \<noteq> Inr (Some r')"
    by (cases "release_runtime r Discard (ow_fake x)")
      (auto dest: release_valid simp: fake_deps_def fake_provider_def on_fake_def)
qed (simp_all add: fake_deps_def)

section \<open>A thread from scratch\<close>

definition new_outside :: outside where
  "new_outside = \<lparr>ow_fake = new_fake, ow_containers = [], ow_now = 1000, ow_uuids = 0,
     ow_declaredClean = False, ow_verdict = WsDirty []\<rparr>"

definition new_thread :: "outside service" where
  "new_thread = \<lparr>sv_db = empty_store\<lparr>cd_processes := Some []\<rparr>, sv_ledger = [], sv_ext = new_outside,
     sv_alarm = None, sv_armCount = 0, sv_workspaceRootEnsured = False,
     sv_acquisitionInFlight = False, sv_events = [], sv_reminders = [], sv_releases = []\<rparr>"

definition wait_until :: "int \<Rightarrow> outside service \<Rightarrow> outside service" where
  "wait_until t s = s\<lparr>sv_ext := (sv_ext s)\<lparr>ow_now := t\<rparr>\<rparr>"

text \<open>A container acquired, a file written, ten minutes passed.\<close>

definition idle_thread :: "outside service" where
  "idle_thread = wait_until 1000000 (fst (ensureRuntime fake_deps new_thread))"


lemma new_thread_ok: "store_ok (sv_db new_thread)"
  by (simp add: new_thread_def empty_store_def store_ok_def)

lemma idle_thread_ok: "store_ok (sv_db idle_thread)"
  by code_simp



end
