(* ===== verification/Compute_Alarm.thy ===== *)
theory Compute_Alarm
  imports Watcher_Polling Work_Sweep Fake_Thread
begin

text \<open>
  The thread's one alarm: \<open>runComputeTick\<close> of \<open>src/compute/thread-service.ts\<close> and the callback
  around it, \<open>runSandboxEviction\<close> of \<open>src/agent/think-thread-agent.ts\<close>: the tick, then the sweep of
  the work ledger, then a fallback that arms the alarm when the tick did not.
\<close>

section \<open>The tick\<close>

definition row_status_in :: "compute_status set \<Rightarrow> compute_state option \<Rightarrow> bool" where
  "row_status_in S state = (case state of None \<Rightarrow> False | Some c \<Rightarrow> cs_status c \<in> S)"

definition tick_active :: "'x deps \<Rightarrow> ('x service, unit) act" where
  "tick_active D =
     andThen (on_state (\<lambda>state. if row_status_in {Active} state then quotaRefresh D else ret ())) (\<lambda>_.
     andThen (pollDueWatchers D) (\<lambda>_.
     reading (\<lambda>s. countWatchers (sv_db s) > 0) (\<lambda>watching.
       if watching then reading nextWatcherWakeAt (armAlarm D) else releaseIfIdle D)))"

definition runComputeTick :: "'x deps \<Rightarrow> ('x service, unit) act" where
  "runComputeTick D = on_state (\<lambda>state.
     if state = None \<or> sd_attachedRuntime D \<noteq> None
     then andThen (if sd_attachedRuntime D \<noteq> None then pollDueWatchers D else ret ()) (\<lambda>_. armAlarm D None)
     else timed D (\<lambda>now.
       andThen (cleanupExpiredRecovery D False now) (\<lambda>cleaned.
         if cleaned \<or> row_status_in {Recovering, Absent, Failed} state then armAlarm D None
         else tick_active D)))"

section \<open>The alarm callback\<close>

text \<open>
  The thread's object around the service. \<open>ah_resolved\<close> is what \<open>resolveComputeService\<close> answered
  (\<open>None\<close> when compute is off or it threw), \<open>ah_sweep_service\<close> the sweep's own answer when that was
  nothing. \<open>setSandboxDeclaredClean(false)\<close> is \<open>sd_markSandboxDirty\<close>.
\<close>

record 'x alarm_host =
  ah_resolved :: "'x deps option"
  ah_sweep_service :: "'x deps option"
  ah_schedule :: "'x deps"
  ah_subagentLabel :: "string \<Rightarrow> string option"
  ah_bufferThrows :: "string \<Rightarrow> bool"
  ah_turnActive :: bool

record 'x thread_object =
  to_service :: "'x service"
  to_buffer :: "injected_message injection_buffer"
  to_kicks :: nat

definition service_view :: "'x service \<Rightarrow> compute_view" where
  "service_view s = \<lparr>cv_hasWatcher = (\<lambda>i. hasWatcher i s), cv_generation = getGenerationView (sv_db s),
     cv_reapView = (\<lambda>i. Inr (processReapView i s))\<rparr>"

definition sweep_env_of :: "'x alarm_host \<Rightarrow> 'x service \<Rightarrow> sweep_env" where
  "sweep_env_of H s = \<lparr>
     se_service = (if ah_resolved H \<noteq> None \<or> ah_sweep_service H \<noteq> None then Some (service_view s) else None),
     se_subagentLabel = ah_subagentLabel H, se_bufferThrows = ah_bufferThrows H,
     se_turnActive = ah_turnActive H, se_now = the_time (ah_schedule H) s,
     se_deliveredAt = the_time (ah_schedule H) s\<rparr>"

text \<open>\<open>reapProcess\<close> for every row the sweep closed, failures swallowed.\<close>

definition run_teardown :: "'x alarm_host \<Rightarrow> teardown \<Rightarrow> ('x service, unit) act" where
  "run_teardown H td =
     (case (td, orElse (ah_resolved H) (ah_sweep_service H)) of
        (ReapProcess i kill, Some D) \<Rightarrow> bestEffort (reapProcess D i kill)
      | _ \<Rightarrow> ret ())"

definition sweep_thread :: "'x alarm_host \<Rightarrow> 'x thread_object \<Rightarrow> 'x thread_object" where
  "sweep_thread H o1 =
     (case runWorkLedgerSweep (sweep_env_of H (to_service o1))
             \<lparr>ss_ledger = sv_ledger (to_service o1), ss_buffer = to_buffer o1,
              ss_kicks = to_kicks o1, ss_teardown = []\<rparr> of
        (st, _) \<Rightarrow>
          \<lparr>to_service = fst (forEach (run_teardown H) (ss_teardown st)
                          ((to_service o1)\<lparr>sv_ledger := ss_ledger st\<rparr>)),
           to_buffer = ss_buffer st, to_kicks = ss_kicks st\<rparr>)"

text \<open>The guarded tick: the service afterwards, whatever it threw.\<close>

definition guarded_tick :: "'x deps \<Rightarrow> 'x service \<Rightarrow> 'x service" where
  "guarded_tick D s = fst (bestEffort (andThen (runComputeTick D) (\<lambda>_.
     reading isComputeLive (\<lambda>live. if live then ret () else ext (sd_markSandboxDirty D)))) s)"

definition fallback_horizon :: "'x alarm_host \<Rightarrow> 'x service \<Rightarrow> int option" where
  "fallback_horizon H s =
     (let now = the_time (ah_schedule H) s;
          raw = (if ah_resolved H = None then None else nextWatcherWakeAt s);
          work = workHorizon now (sv_ledger s);
          watcher = map_option (\<lambda>t. if t \<le> now then now + DEFAULT_MONITOR_POLL_INTERVAL_MS else t) raw
      in case work of
           None \<Rightarrow> watcher
         | Some h \<Rightarrow> (case watcher of None \<Rightarrow> work | Some t \<Rightarrow> if t < h then watcher else work))"

definition runSandboxEviction :: "'x alarm_host \<Rightarrow> 'x thread_object \<Rightarrow> 'x thread_object" where
  "runSandboxEviction H o0 =
     (let s1 = (case ah_resolved H of None \<Rightarrow> to_service o0 | Some D \<Rightarrow> guarded_tick D (to_service o0));
          armed = (ah_resolved H \<noteq> None \<and> sv_armCount s1 > sv_armCount (to_service o0));
          o2 = sweep_thread H (o0\<lparr>to_service := s1\<rparr>)
      in if armed then o2
         else case fallback_horizon H (to_service o2) of
           None \<Rightarrow> o2
         | Some t \<Rightarrow> o2\<lparr>to_service := fst (setAlarm (ah_schedule H) t (to_service o2))\<rparr>)"

end
