(* ===== verification/Alarm_Liveness.thy ===== *)
theory Alarm_Liveness
  imports Compute_Alarm
begin

text \<open>
  No wake-up is lost: after the alarm callback of \<open>Compute_Alarm\<close> the thread has an alarm whenever
  work or a watcher is left. What matters of a service is its schedule and the count of the alarms
  it armed; the locales say which operations leave them alone.
\<close>

section \<open>Operations that leave the alarm alone\<close>

locale alarm_part =
  fixes f :: "'x service \<Rightarrow> 'p"
  assumes db [simp]: "f (s\<lparr>sv_db := d\<rparr>) = f s"
    and ledger [simp]: "f (s\<lparr>sv_ledger := l\<rparr>) = f s"
    and outside [simp]: "f (s\<lparr>sv_ext := x\<rparr>) = f s"
    and events [simp]: "f (s\<lparr>sv_events := ev\<rparr>) = f s"
    and reminders [simp]: "f (s\<lparr>sv_reminders := re\<rparr>) = f s"
    and releases [simp]: "f (s\<lparr>sv_releases := rl\<rparr>) = f s"
    and root [simp]: "f (sv_workspaceRootEnsured_update g s) = f s"
    and latch [simp]: "f (sv_acquisitionInFlight_update g s) = f s"
begin

lemma leaf: "keeps f (ext m)" "keeps f (dbw D m')" "keeps f (emitLifecycleEvent ev tr ok)"
  "keeps f (emitCommandEvent ev i)" "keeps f (on_ledger h)" "keeps f (changing (close_work i now dl de))"
  unfolding ext_def dbw_def emitLifecycleEvent_def emitCommandEvent_def on_ledger_def
  by (intro keeps_intros; simp add: close_work_def split: prod.split)+

lemma flags: "keeps f (changing (sv_workspaceRootEnsured_update g))"
  "keeps f (changing (sv_acquisitionInFlight_update g))"
  by (intro keeps_intros; simp)+

lemma nonce: "(\<And>u. keeps f (m u)) \<Longrightarrow> keeps f (randomUUID D m)"
  by (simp add: keeps_def randomUUID_def split: prod.split)

lemma calls: "keeps f (quotaRefresh D)" "keeps f (releaseQuotaSlot D)" "keeps f (clearLifecycleState D)"
  "keeps f (remind D b mo ab)"
  unfolding quotaRefresh_def releaseQuotaSlot_def clearLifecycleState_def remind_def
  by (intro keeps_intros leaf; simp)+

lemma teardown: "keeps f (destroyRuntime D r)" "keeps f (stopRunningProcesses D now dl de)"
  "keeps f (clearWatchers D)"
  unfolding destroyRuntime_def stopRunningProcesses_def clearWatchers_def
  by (intro keeps_intros leaf)+

lemma probing: "keeps f (restoreGenerationAfterWipe D r now)" "keeps f (probeAndRecordGeneration D r now)"
proof -
  show restore: "keeps f (restoreGenerationAfterWipe D r now)" for now
    unfolding restoreGenerationAfterWipe_def writeNonce_def timed_def
    by (intro keeps_intros leaf nonce)
  show "keeps f (probeAndRecordGeneration D r now)"
    unfolding probeAndRecordGeneration_def
    by (rule keeps_reading) (auto split: generation_probe.split intro!: leaf restore)
qed

lemma processes: "keeps f (updateTerminalProcess D i r)" "keeps f (service_appendOutput D i st t)"
  "keeps f (releaseWorkHold D i)" "keeps f (pollProcessStatus D run ref)" "keeps f (postpone D now w)"
  unfolding updateTerminalProcess_def service_appendOutput_def releaseWorkHold_def
    pollProcessStatus_def postpone_def timed_def on_state_def
  by (auto intro!: keeps_intros leaf split: option.split)

lemma stopping: "keeps f (stopProcessDirect D i mode)" "keeps f (reapProcess D i k)"
proof -
  show stop: "keeps f (stopProcessDirect D i mode)" for i mode
    unfolding stopProcessDirect_def on_state_def
    by (auto intro!: keeps_intros leaf processes split: option.split)
  show "keeps f (reapProcess D i k)"
    unfolding reapProcess_def by (intro keeps_intros leaf processes stop)
qed

lemma ingest: "keeps f (ingestCumulativeOutput D i st c)"
  unfolding ingestCumulativeOutput_def
  by (auto intro!: keeps_intros processes split: option.split)

end


text \<open>The count of alarms armed survives a cleared alarm too.\<close>

locale count_part = alarm_part +
  assumes alarm [simp]: "f (sv_alarm_update g s) = f s"
begin

lemma clear: "keeps f (clearAlarm D)"
  unfolding clearAlarm_def by (intro keeps_intros leaf) simp

lemma missing: "keeps f (markRuntimeMissing D)"
  unfolding markRuntimeMissing_def timed_def by (intro keeps_intros leaf calls teardown clear)

lemma reads: "keeps f (refreshProcessOutput D i)"
  unfolding refreshProcessOutput_def on_state_def
  by (auto intro!: keeps_intros leaf ingest missing split: option.split)

lemma expiry: "keeps f (cleanupExpiredRecovery D b now)"
  unfolding cleanupExpiredRecovery_def on_state_def
  by (auto intro!: keeps_intros leaf calls teardown clear split: option.split)

lemma settle: "keeps f (settle_watch D w p c code now)"
  unfolding settle_watch_def watch_reminder_def Let_def
  by (intro keeps_intros leaf calls processes reads)

lemma poll: "keeps f (pollWatcher D w r now)"
  unfolding pollWatcher_def Let_def
  by (auto intro!: keeps_intros leaf processes settle split: option.split)

lemma poll_each: "keeps f (pollEach D r now ws probed told)"
  by (induction ws arbitrary: probed told) (auto intro!: keeps_intros poll probing processes)

end

definition alarms :: "'x service \<Rightarrow> int option \<times> nat" where
  "alarms s = (sv_alarm s, sv_armCount s)"

interpretation on_alarms: alarm_part alarms
  by unfold_locales (simp_all add: alarms_def)

interpretation on_count: count_part sv_armCount
  by unfold_locales simp_all

section \<open>A tick that armed leaves an alarm\<close>

definition armed_since :: "nat \<Rightarrow> 'x service \<Rightarrow> bool" where
  "armed_since n s \<longleftrightarrow> (sv_armCount s > n \<longrightarrow> sv_alarm s \<noteq> None)"

definition armed :: "nat \<Rightarrow> ('x service, 'a) act \<Rightarrow> bool" where
  "armed n m \<longleftrightarrow> (\<forall>s. armed_since n s \<longrightarrow> armed_since n (fst (m s)))"

lemma armed_keeps: "keeps alarms m \<Longrightarrow> armed n m"
  by (simp add: armed_def keeps_def alarms_def armed_since_def)

lemma armed_andThen: "armed n m \<Longrightarrow> (\<And>a. armed n (g a)) \<Longrightarrow> armed n (andThen m g)"
  unfolding armed_def andThen_def by (simp split: prod.split sum.split) (metis fst_conv)

lemma armed_tryThen: "armed n m \<Longrightarrow> (\<And>e. armed n (h e)) \<Longrightarrow> (\<And>a. armed n (g a)) \<Longrightarrow> armed n (tryThen m h g)"
  unfolding armed_def tryThen_def by (simp split: prod.split sum.split) (metis fst_conv)

lemma armed_catching: "armed n m \<Longrightarrow> (\<And>e. armed n (h e)) \<Longrightarrow> armed n (catching m h)"
  unfolding armed_def catching_def by (simp split: prod.split sum.split) (metis fst_conv)

lemma armed_bestEffort: "armed n m \<Longrightarrow> armed n (bestEffort m)"
  unfolding bestEffort_def by (rule armed_catching) (simp_all add: armed_keeps keeps_ret)

lemma armed_reading: "(\<And>x. armed n (g x)) \<Longrightarrow> armed n (reading h g)"
  by (simp add: armed_def reading_def)

lemma armed_if: "armed n m \<Longrightarrow> armed n m' \<Longrightarrow> armed n (if b then m else m')"
  by simp

text \<open>
  The scheduler does not throw, and the cleanliness probe works on its own service object, so it
  counts its alarms there.
\<close>

locale scheduled_deps =
  fixes D :: "'x deps"
  assumes schedule_ok: "snd (sd_schedule D t x) = Inr ()"
    and probe_counts: "sv_armCount (fst (sd_probe D s)) = sv_armCount s"
begin

lemma schedule: "wp (sd_schedule D t) Q E x = Q () (fst (sd_schedule D t x))"
  using schedule_ok [of t x] by (auto simp: wp_def split: prod.split sum.split)

lemma armed_arm: "armed n (armAlarm D r)"
  unfolding armed_def
proof (intro allI impI)
  fix s :: "'x service" assume "armed_since n s"
  then have "wp (armAlarm D r) (\<lambda>_. armed_since n) (\<lambda>_. armed_since n) s"
    by (auto simp: armAlarm_def setAlarm_def wp_simps ext_def armed_since_def schedule split: option.split)
  then show "armed_since n (fst (armAlarm D r s))" by (simp add: wp_final)
qed

lemmas armed_intros = armed_andThen armed_tryThen armed_catching armed_bestEffort armed_if armed_arm

lemma armed_settle: "armed n (settleDestroyedRuntime D rec now)"
  unfolding settleDestroyedRuntime_def
  by (cases rec) (auto intro!: armed_intros intro: armed_keeps on_alarms.leaf on_alarms.calls on_alarms.teardown)

lemma armed_after_idle: "armed n (after_idle_release D now d rec)"
  unfolding after_idle_release_def keep_recoverable_def
  by (cases rec) (auto intro!: armed_intros
      intro: armed_keeps on_alarms.leaf on_alarms.calls on_alarms.teardown keeps_raise)

lemma armed_release: "(\<And>rec. armed n (after rec)) \<Longrightarrow> armed n (release_with D r now d (armAlarm D t) after)"
  unfolding release_with_def
  by (intro armed_intros armed_settle armed_keeps [OF on_alarms.leaf(1)] armed_keeps [OF on_alarms.leaf(2)]
      armed_keeps [OF on_alarms.leaf(3)] armed_keeps [OF keeps_ret] armed_keeps [OF keeps_changing]) simp_all

lemma armed_disposition: "keeps sv_armCount (resolveIdleDisposition D)"
  unfolding resolveIdleDisposition_def
  by (intro keeps_intros on_count.leaf) (simp add: keeps_def probe_counts)

end

section \<open>The tick arms at most once, at its end\<close>

text \<open>Nothing was armed before, so whatever is armed by \<open>m\<close> is the alarm.\<close>

definition fresh :: "('x service, 'a) act \<Rightarrow> bool" where
  "fresh m \<longleftrightarrow> (\<forall>s. armed_since (sv_armCount s) (fst (m s)))"

lemma fresh_armed: "(\<And>n. armed n m) \<Longrightarrow> fresh m"
proof -
  assume m: "\<And>n. armed n m"
  have "armed_since (sv_armCount s) (fst (m s))" for s
    using m [of "sv_armCount s"] by (simp add: armed_def armed_since_def)
  then show "fresh m" by (simp add: fresh_def)
qed

lemma fresh_keeps: "keeps sv_armCount m \<Longrightarrow> fresh m"
  by (simp add: keeps_def fresh_def armed_since_def)

text \<open>What comes before leaves the count alone.\<close>

lemma fresh_at:
  assumes "wp m (\<lambda>_ t. sv_armCount t = sv_armCount s) (\<lambda>_ t. sv_armCount t = sv_armCount s) s"
    and "\<And>a. fresh (g a)"
  shows "armed_since (sv_armCount s) (fst (andThen m g s))"
proof -
  have "wp (andThen m g) (\<lambda>_. armed_since (sv_armCount s)) (\<lambda>_. armed_since (sv_armCount s)) s"
    unfolding wp_andThen
    by (rule wp_conseq [OF assms(1)]) (use assms(2) in \<open>auto simp: wp_final fresh_def armed_since_def\<close>)
  then show ?thesis by (simp add: wp_final)
qed

lemma fresh_andThen: "keeps sv_armCount m \<Longrightarrow> (\<And>a. fresh (g a)) \<Longrightarrow> fresh (andThen m g)"
  using fresh_at [of m _ g] unfolding fresh_def [of "andThen m g"] keeps_wp by blast

lemma fresh_reading: "(\<And>x. fresh (g x)) \<Longrightarrow> fresh (reading h g)"
  by (simp add: fresh_def reading_def)

lemma fresh_if: "fresh m \<Longrightarrow> fresh m' \<Longrightarrow> fresh (if b then m else m')"
  by simp

lemma fresh_option: "fresh m \<Longrightarrow> (\<And>x. fresh (g x)) \<Longrightarrow> fresh (case x of None \<Rightarrow> m | Some y \<Rightarrow> g y)"
  by (cases x) simp_all

lemmas fresh_intros = fresh_andThen fresh_reading fresh_if fresh_option

text \<open>A running container is used as it is.\<close>

lemma running_untouched:
  assumes "active_runtime (row s) = Some r"
  shows "wp (readOrAcquireRuntime D) (\<lambda>_ t. t = s) (\<lambda>_ t. t = s) s"
proof -
  obtain c where c: "getComputeState (sv_db s) = Some c" "cs_status c = Active" "cs_runtimeRef c = Some r"
    using assms by (auto simp: row_def active_runtime_def split: option.splits if_splits)
  then have "recovery_expired now (getComputeState (sv_db s)) = None" for now
    by (auto simp: recovery_expired_def split: option.split)
  with c show ?thesis
    by (simp add: readOrAcquireRuntime_def timed_def on_state_def wp_simps cleanupExpiredRecovery_def
        acquire_from_def active_runtime_def)
qed

lemma ensure_counts:
  assumes "sd_attachedRuntime D \<noteq> None \<or> active_runtime (row s) \<noteq> None"
  shows "wp (ensureRuntime D) (\<lambda>_ t. sv_armCount t = sv_armCount s) (\<lambda>_ t. sv_armCount t = sv_armCount s) s"
proof (cases "sd_attachedRuntime D")
  case (Some r)
  have "keeps sv_armCount (ensureRuntime D)"
    unfolding ensureRuntime_def Some option.case ensureWorkspaceRootOnce_def timed_def
    by (intro keeps_intros on_count.leaf on_count.flags)
  then show ?thesis by (simp add: keeps_wp)
next
  case None
  define latch where "latch b = sv_acquisitionInFlight_update (\<lambda>_. b) s" for b
  obtain r where r: "active_runtime (row s) = Some r" using assms None by auto
  have root: "keeps sv_armCount (ensureWorkspaceRootOnce D r)" for r
    unfolding ensureWorkspaceRootOnce_def by (intro keeps_intros on_count.leaf on_count.flags)
  have "wp (readOrAcquireRuntime D) (\<lambda>_ t. t = latch True) (\<lambda>_ t. t = latch True) (latch True)"
    by (rule running_untouched [of _ r]) (use r in \<open>simp add: latch_def row_def\<close>)
  then have "wp (latched (readOrAcquireRuntime D)) (\<lambda>_ t. t = latch False) (\<lambda>_ t. t = latch False) s"
    unfolding latched_def wp_simps latch_def [symmetric] by (rule wp_conseq) (auto simp: latch_def wp_simps)
  then have "wp (boundedAcquisition D (readOrAcquireRuntime D)) (\<lambda>_ t. t = latch False) (\<lambda>_ t. t = latch False) s"
    unfolding boundedAcquisition_def timed_def wp_simps by (rule wp_conseq) (auto simp: wp_simps)
  then show ?thesis
    unfolding ensureRuntime_def None option.case wp_simps
    by (rule wp_conseq) (auto intro!: wp_keeps [OF root] simp: latch_def)
qed

lemma poll_counts:
  assumes "sd_attachedRuntime D \<noteq> None \<or> active_runtime (row s) \<noteq> None \<or> listWatchers (sv_db s) = []"
  shows "wp (pollDueWatchers D) (\<lambda>_ t. sv_armCount t = sv_armCount s) (\<lambda>_ t. sv_armCount t = sv_armCount s) s"
proof (cases "filter (\<lambda>w. w_nextPollAt w \<le> the_time D s) (listWatchers (sv_db s)) = []")
  case True
  then show ?thesis by (simp add: pollDueWatchers_def timed_def wp_simps)
next
  case False
  then have "sd_attachedRuntime D \<noteq> None \<or> active_runtime (row s) \<noteq> None" using assms by auto
  note ensured = ensure_counts [OF this]
  have late: "keeps sv_armCount (forEach (postpone D now) due)" for now due
    by (intro keeps_intros on_count.processes)
  have polled: "keeps sv_armCount (andThen (pollEach D r now due False False) (\<lambda>delivered.
            if delivered then dbw D (touchLastUsed now) else ret ()))" for now due r
    by (intro keeps_intros on_count.poll_each on_count.leaf)
  show ?thesis
    unfolding pollDueWatchers_def timed_def wp_reading wp_if wp_tryThen
    by (simp only: False if_False, rule wp_conseq [OF ensured])
       (auto intro!: wp_keeps [OF late] wp_keeps [OF polled])
qed

context scheduled_deps begin

lemma fresh_arm: "fresh (armAlarm D r)"
  by (rule fresh_armed) (rule armed_arm)

lemma fresh_refresh: "fresh (refreshRelease D t)"
  unfolding refreshRelease_def timed_def
  by (intro fresh_if fresh_andThen fresh_reading fresh_arm on_count.calls fresh_keeps keeps_ret)

lemma fresh_idle: "fresh (releaseIfIdle D)"
proof -
  have release: "fresh (andThen (release_with D r now d (armAlarm D t) (after_idle_release D now d)) (\<lambda>_. ret ()))"
    for r now d t
    by (intro fresh_armed armed_andThen armed_release armed_after_idle armed_keeps [OF keeps_ret])
  show ?thesis
    unfolding releaseIfIdle_def on_state_def timed_def
    by (auto intro!: fresh_intros fresh_refresh fresh_arm release armed_disposition
        keeps_reading on_count.leaf fresh_keeps [OF keeps_ret] split: option.split)
qed

end

text \<open>A tick that does not have to acquire a container.\<close>

definition tick_settled :: "'x deps \<Rightarrow> 'x service \<Rightarrow> bool" where
  "tick_settled D s \<longleftrightarrow> sd_attachedRuntime D \<noteq> None \<or> row s = None \<or>
     row_status_in {Recovering, Absent, Failed} (row s) \<or> active_runtime (row s) \<noteq> None \<or>
     listWatchers (sv_db s) = []"

context scheduled_deps begin

lemma poll_then_arm:
  "fresh (reading (\<lambda>s. countWatchers (sv_db s) > 0) (\<lambda>watching.
       if watching then reading nextWatcherWakeAt (armAlarm D) else releaseIfIdle D))"
  by (intro fresh_reading fresh_if fresh_arm fresh_idle)

lemma tick_active_armed:
  assumes "active_runtime (row s) \<noteq> None \<or> listWatchers (sv_db s) = []"
  shows "armed_since (sv_armCount s) (fst (tick_active D s))"
proof -
  let ?Q = "\<lambda>_. armed_since (sv_armCount s)"
  have quiet: "keeps (\<lambda>s. (sv_armCount s, sv_db s))
      (on_state (\<lambda>state. if row_status_in {Active} state then quotaRefresh D else ret ()))"
    unfolding on_state_def quotaRefresh_def ext_def by (intro keeps_intros) simp_all
  have "wp (tick_active D) ?Q ?Q s"
    unfolding tick_active_def wp_andThen [of "on_state _"]
  proof (rule wp_keeps [OF quiet])
    fix t :: "'x service" assume t: "(sv_armCount t, sv_db t) = (sv_armCount s, sv_db s)"
    then have "row t = row s" by (simp add: row_def)
    with assms t have "wp (pollDueWatchers D) (\<lambda>_ u. sv_armCount u = sv_armCount t) (\<lambda>_ u. sv_armCount u = sv_armCount t) t"
      by (intro poll_counts) auto
    from fresh_at [OF this poll_then_arm] t
    show "wp (andThen (pollDueWatchers D) (\<lambda>_. reading (\<lambda>s. countWatchers (sv_db s) > 0) (\<lambda>watching.
       if watching then reading nextWatcherWakeAt (armAlarm D) else releaseIfIdle D))) ?Q ?Q t"
      by (simp add: wp_final)
  qed (simp add: armed_since_def)
  then show ?thesis by (simp add: wp_final)
qed

lemma tick_armed:
  assumes "tick_settled D s"
  shows "armed_since (sv_armCount s) (fst (runComputeTick D s))"
proof -
  have here: "getComputeState (sv_db s) = row s" by (simp add: row_def)
  consider (alone) "row s = None \<or> sd_attachedRuntime D \<noteq> None"
    | (ended) "row s \<noteq> None" "sd_attachedRuntime D = None" "row_status_in {Recovering, Absent, Failed} (row s)"
    | (live) "row s \<noteq> None" "sd_attachedRuntime D = None" "\<not> row_status_in {Recovering, Absent, Failed} (row s)"
    by blast
  then show ?thesis
  proof cases
    case alone
    have "wp (if sd_attachedRuntime D \<noteq> None then pollDueWatchers D else ret ())
        (\<lambda>_ t. sv_armCount t = sv_armCount s) (\<lambda>_ t. sv_armCount t = sv_armCount s) s"
      by (auto simp: wp_simps intro: poll_counts)
    from fresh_at [OF this fresh_arm] alone show ?thesis
      by (auto simp: runComputeTick_def on_state_def reading_def here)
  next
    case ended
    have "fresh (timed D (\<lambda>now. andThen (cleanupExpiredRecovery D False now) (\<lambda>cleaned. armAlarm D None)))"
      unfolding timed_def by (intro fresh_intros fresh_arm on_count.expiry)
    with ended show ?thesis
      by (auto simp: runComputeTick_def on_state_def reading_def here fresh_def)
  next
    case live
    then have "recovery_expired now (row s) = None" for now
      by (auto simp: recovery_expired_def row_status_in_def split: option.split)
    then have "cleanupExpiredRecovery D False now s = (s, Inr False)" for now
      by (simp add: cleanupExpiredRecovery_def on_state_def reading_def ret_def here)
    with live show ?thesis
      using tick_active_armed [of s] assms
      by (auto simp: runComputeTick_def on_state_def reading_def timed_def andThen_def here tick_settled_def)
  qed
qed

lemma guarded_tick_armed:
  assumes "tick_settled D s"
  shows "armed_since (sv_armCount s) (guarded_tick D s)"
proof -
  let ?Q = "\<lambda>_. armed_since (sv_armCount s)"
  have dirty: "keeps alarms (reading isComputeLive (\<lambda>live. if live then ret () else ext (sd_markSandboxDirty D)))"
    by (intro keeps_intros on_alarms.leaf)
  have "wp (runComputeTick D) ?Q ?Q s" using tick_armed [OF assms] by (simp add: wp_final)
  then have "wp (bestEffort (andThen (runComputeTick D) (\<lambda>_.
      reading isComputeLive (\<lambda>live. if live then ret () else ext (sd_markSandboxDirty D))))) ?Q ?Q s"
    unfolding wp_bestEffort wp_andThen
    by (rule wp_conseq) (auto intro!: wp_keeps [OF dirty] simp: alarms_def armed_since_def)
  then show ?thesis by (simp add: guarded_tick_def wp_final)
qed

lemma setAlarm_sets: "sv_alarm (fst (setAlarm D t s)) = Some t \<and>
    sv_db (fst (setAlarm D t s)) = sv_db s \<and> sv_ledger (fst (setAlarm D t s)) = sv_ledger s"
proof -
  have "wp (setAlarm D t) (\<lambda>_ u. sv_alarm u = Some t \<and> sv_db u = sv_db s \<and> sv_ledger u = sv_ledger s)
      (\<lambda>_ u. sv_alarm u = Some t \<and> sv_db u = sv_db s \<and> sv_ledger u = sv_ledger s) s"
    by (simp add: setAlarm_def ext_def wp_simps schedule)
  then show ?thesis by (simp add: wp_final)
qed

end

section \<open>The callback\<close>

lemma sweep_keeps_alarms: "alarms (to_service (sweep_thread H o1)) = alarms (to_service o1)"
proof -
  have teardown: "keeps alarms (run_teardown H td)" for td
    by (cases td) (auto simp: run_teardown_def split: option.split
        intro!: keeps_intros on_alarms.stopping)
  have "keeps alarms (forEach (run_teardown H) tds)" for tds
    by (intro keeps_intros teardown)
  then show ?thesis
    by (simp add: sweep_thread_def keeps_def alarms_def split: prod.split)
qed

lemma no_fallback:
  assumes "fallback_horizon H s = None"
  shows "listOpen (sv_ledger s) = [] \<and> listUndelivered (sv_ledger s) = [] \<and>
    (ah_resolved H \<noteq> None \<longrightarrow> listWatchers (sv_db s) = [])"
proof -
  have "workHorizon (the_time (ah_schedule H) s) (sv_ledger s) = None"
    "ah_resolved H \<noteq> None \<longrightarrow> nextWatcherWakeAt s = None"
    using assms by (auto simp: fallback_horizon_def Let_def split: option.splits if_splits)
  then show ?thesis
    by (auto simp: workHorizon_None nextWatcherWakeAt_def nextWakeAt_least least_time_def split: if_splits)
qed

lemma eviction_arms:
  assumes "scheduled_deps (ah_schedule H)"
    and "\<And>D. ah_resolved H = Some D \<Longrightarrow> scheduled_deps D \<and> tick_settled D (to_service o1)"
    and "fallback_horizon H (to_service (runSandboxEviction H o1)) \<noteq> None"
  shows "sv_alarm (to_service (runSandboxEviction H o1)) \<noteq> None"
proof -
  define s1 where "s1 = (case ah_resolved H of None \<Rightarrow> to_service o1 | Some D \<Rightarrow> guarded_tick D (to_service o1))"
  define o2 where "o2 = sweep_thread H (o1\<lparr>to_service := s1\<rparr>)"
  define armed where "armed = (ah_resolved H \<noteq> None \<and> sv_armCount s1 > sv_armCount (to_service o1))"
  have run: "runSandboxEviction H o1 = (if armed then o2 else case fallback_horizon H (to_service o2) of
      None \<Rightarrow> o2 | Some t \<Rightarrow> o2\<lparr>to_service := fst (setAlarm (ah_schedule H) t (to_service o2))\<rparr>)"
    unfolding runSandboxEviction_def Let_def s1_def [symmetric] o2_def [symmetric] armed_def [symmetric] ..
  show ?thesis
  proof (cases armed)
    case True
    then obtain D where D: "ah_resolved H = Some D" by (auto simp: armed_def)
    have "armed_since (sv_armCount (to_service o1)) s1"
      unfolding s1_def D option.case using scheduled_deps.guarded_tick_armed assms(2) [OF D] by blast
    then have "sv_alarm s1 \<noteq> None" using True by (simp add: armed_def armed_since_def)
    then show ?thesis
      using True sweep_keeps_alarms [of H "o1\<lparr>to_service := s1\<rparr>"] by (simp add: run o2_def alarms_def)
  next
    case False
    then show ?thesis
      using assms(3) scheduled_deps.setAlarm_sets [OF assms(1)]
      by (auto simp: run split: option.splits)
  qed
qed

text \<open>C12: The alarm callback never strands work. Whatever the sandbox provider, the quota ledger, SQLite
  and the message buffer do, after it the thread has an alarm whenever an open row, a terminal the
  model was not told of, or (unless compute could not be resolved) a watcher is left. The scheduler
  is assumed not to throw, and a tick with watchers not to start between two containers, where it
  would acquire one first: see \<open>acquiring_tick_strands\<close>.
\<close>

theorem alarm_never_strands:
  assumes "scheduled_deps (ah_schedule H)"
    and "\<And>D. ah_resolved H = Some D \<Longrightarrow> scheduled_deps D \<and> tick_settled D (to_service o1)"
    and "s = to_service (runSandboxEviction H o1)"
    and "listOpen (sv_ledger s) \<noteq> [] \<or> listUndelivered (sv_ledger s) \<noteq> [] \<or>
      (ah_resolved H \<noteq> None \<and> listWatchers (sv_db s) \<noteq> [])"
  shows "sv_alarm s \<noteq> None"
proof -
  have "fallback_horizon H s \<noteq> None" using no_fallback [of H s] assms(4) by auto
  then show ?thesis using eviction_arms [OF assms(1,2)] assms(3) by simp
qed

section \<open>Instances\<close>

interpretation fake_schedule: scheduled_deps fake_deps
  by unfold_locales (simp_all add: fake_deps_def schedule_outside_def)

text \<open>
  An idle container with two child agents, one silent for long, and a quota refresh that fails: the
  tick throws before it arms, the sweep closes the stale row, and the callback arms for the other.
\<close>

definition child_row :: "string \<Rightarrow> int \<Rightarrow> work_row" where
  "child_row i started = \<lparr>wr_id = i, wr_kind = KSubagent, wr_startedAt = started,
     wr_lastAliveAt = started, wr_staleAfterMs = 180000, wr_deadlineAt = started + 3600000,
     wr_generation = UNKNOWN_GENERATION, wr_terminal = None, wr_deliveredAt = None,
     wr_clearedAt = None, wr_progress = None\<rparr>"

definition failing_refresh :: "outside deps" where
  "failing_refresh = fake_deps\<lparr>sd_quota := Some \<lparr>qg_admit = ret (),
     qg_refresh = raise (OtherError ''D1''), qg_release = ret ()\<rparr>\<rparr>"

definition demo_host :: "outside deps \<Rightarrow> outside alarm_host" where
  "demo_host D = \<lparr>ah_resolved = Some D, ah_sweep_service = None, ah_schedule = D,
     ah_subagentLabel = (\<lambda>_. None), ah_bufferThrows = (\<lambda>_. False), ah_turnActive = False\<rparr>"

definition demo_object :: "outside service \<Rightarrow> outside thread_object" where
  "demo_object s = \<lparr>to_service = s, to_buffer = \<lparr>ib_rows = [], ib_last = 0\<rparr>, to_kicks = 0\<rparr>"

definition parent_thread :: "outside service" where
  "parent_thread = idle_thread\<lparr>sv_ledger := register (child_row ''old'' 1000) (register (child_row ''young'' 900000) []),
     sv_alarm := None\<rparr>"

lemma failing_scheduled: "scheduled_deps failing_refresh"
  by unfold_locales (simp_all add: failing_refresh_def fake_deps_def schedule_outside_def)

theorem alarm_never_strands_witness:
  "sv_alarm (to_service (runSandboxEviction (demo_host failing_refresh) (demo_object parent_thread)))
     = Some 1080000 \<and>
   sv_armCount (to_service (runSandboxEviction (demo_host failing_refresh) (demo_object parent_thread)))
     = sv_armCount parent_thread \<and>
   sv_alarm (to_service (runSandboxEviction (demo_host failing_refresh) (demo_object parent_thread))) \<noteq> None"
proof (intro conjI)
  show "sv_alarm (to_service (runSandboxEviction (demo_host failing_refresh) (demo_object parent_thread))) \<noteq> None"
  proof (rule alarm_never_strands [where H = "demo_host failing_refresh" and ?o1.0 = "demo_object parent_thread"])
    have "tick_settled failing_refresh parent_thread" by code_simp
    then show "scheduled_deps D \<and> tick_settled D (to_service (demo_object parent_thread))"
      if "ah_resolved (demo_host failing_refresh) = Some D" for D
      using that failing_scheduled by (simp add: demo_host_def demo_object_def)
    show "listOpen (sv_ledger (to_service (runSandboxEviction (demo_host failing_refresh)
          (demo_object parent_thread)))) \<noteq> [] \<or>
        listUndelivered (sv_ledger (to_service (runSandboxEviction (demo_host failing_refresh)
          (demo_object parent_thread)))) \<noteq> [] \<or>
        ah_resolved (demo_host failing_refresh) \<noteq> None \<and>
        listWatchers (sv_db (to_service (runSandboxEviction (demo_host failing_refresh)
          (demo_object parent_thread)))) \<noteq> []"
      by (rule disjI1) code_simp
  qed (simp_all add: demo_host_def failing_scheduled)
qed code_simp+

text \<open>
  Between two containers the count misleads: the poll of a due watcher acquires one, which arms;
  the container turns out to be gone, which cancels the alarm; and the callback, seeing that
  something was armed, arms nothing. A child agent's open row is then never swept.
\<close>

definition vanishing :: "outside deps" where
  "vanishing = fake_deps\<lparr>sd_backend := fake_provider\<lparr>
     rb_getProcessStatus := (\<lambda>_ _. ret (PsExited, Some 0)),
     rb_readProcessOutput := (\<lambda>_ _. raise (compute_error CeRuntimeMissing))\<rparr>\<rparr>"

definition watched_process :: process_row where
  "watched_process = \<lparr>cp_id = ''p'', cp_backendProcessRef = Some (processReference ''f'' ''p''), cp_command = ''make'',
     cp_cwd = None, cp_status = PsRunning, cp_exitCode = None, cp_startedAt = 1, cp_finishedAt = None,
     cp_stdoutBytes = 0, cp_stderrBytes = 0, cp_stdoutLines = 0, cp_stderrLines = 0,
     cp_outputTruncated = False, cp_label = None, pr_sessionId = None, pr_commandId = None\<rparr>"

definition acquiring_thread :: "outside service" where
  "acquiring_thread = new_thread\<lparr>
     sv_db := (fst (markAcquiring demo_acquire 900 (sv_db new_thread)))\<lparr>
       cd_processes := Some [watched_process],
       cd_watchers := [\<lparr>w_processId = ''p'', w_deadlineAt = 5000, w_pollIntervalMs = 5000,
         w_nextPollAt = 500, w_label = None, w_createdAt = 1\<rparr>]\<rparr>,
     sv_ledger := register (child_row ''child'' 900) []\<rparr>"

lemma acquiring_tick_strands:
  "store_ok (sv_db acquiring_thread)"
  "sv_alarm (to_service (runSandboxEviction (demo_host vanishing) (demo_object acquiring_thread))) = None"
  "map wr_id (listOpen (sv_ledger (to_service
     (runSandboxEviction (demo_host vanishing) (demo_object acquiring_thread))))) = [''child'']"
  by code_simp+

end
