(* ===== verification/Command_Execution.thy ===== *)
theory Command_Execution
  imports Watcher_Polling
begin

text \<open>
  Running commands in \<open>src/compute/thread-service.ts\<close>: \<open>exec\<close>, \<open>execStart\<close> and \<open>execRun\<close> with the
  foreground wait, the hand-over to a watcher, the timeout kill and the completion callback. The
  wait polls the provider in a loop; here it takes the number of rounds it may make, and \<open>None\<close> is a
  wait that used them up. \<open>Command_Termination\<close> shows that this never happens.
\<close>

section \<open>Inputs and results\<close>

record exec_input =
  xi_command :: string
  xi_cwd :: "string option"
  xi_env :: "(string \<times> string) list option"
  xi_stdin :: "string option"
  xi_timeoutMs :: "int option"
  xi_label :: "string option"

record start_input =
  si_command :: string
  si_cwd :: string
  si_env :: "(string \<times> string) list option"
  si_stdin :: "string option"
  si_completionCallback :: "string option"
  si_timeoutMs :: int

record start_result =
  sr_process :: backend_reference
  sr_status :: process_status
  sr_exitCode :: "int option"
  sr_stdout :: "string option"
  sr_stderr :: "string option"

record tail_limits =
  tl_tailMaxLines :: int
  tl_tailMaxBytes :: nat

text \<open>
  What these operations use beside \<open>deps\<close>. \<open>ce_waitForProcessExit\<close> gives the chunks it passed to the
  sink and how it ended; \<open>ce_hostname\<close> is the host of a URL that parses; \<open>ce_signToken\<close> signs a
  completion token with the key derived from the secret.
\<close>

record 'x command_env =
  ce_deps :: "'x deps"
  ce_startProcess :: "backend_reference \<Rightarrow> start_input \<Rightarrow> ('x, start_result) act"
  ce_runCommand :: "(backend_reference \<Rightarrow> start_input \<Rightarrow> ('x, run_command_result) act) option"
  ce_waitForProcessExit :: "(backend_reference \<Rightarrow> backend_reference \<Rightarrow>
    'x \<Rightarrow> 'x \<times> (out_stream \<times> string) list \<times> (compute_error + process_status \<times> int option)) option"
  ce_consumesCompletionCallback :: bool
  ce_callbackDelaysCompletion :: bool
  ce_backgroundLongRunningExec :: bool
  ce_foregroundTimeoutMs :: int
  ce_foregroundPollIntervalMs :: int
  ce_sleep :: "int \<Rightarrow> ('x, unit) act"
  ce_appBaseUrl :: "string option"
  ce_betterAuthSecret :: "string option"
  ce_threadId :: "string option"
  ce_hostname :: "string \<Rightarrow> string option"
  ce_signToken :: "string \<Rightarrow> string \<Rightarrow> string \<Rightarrow> int \<Rightarrow> string"
  ce_limits :: tail_limits

record exec_preview =
  pv_stdout :: string
  pv_stderr :: string
  pv_stdoutTruncated :: bool
  pv_stderrTruncated :: bool

text \<open>\<open>ec_timedOut\<close> is the timeout of a command that was stopped for it.\<close>

record completed_exec =
  ec_status :: process_status
  ec_processId :: string
  ec_command :: string
  ec_label :: "string option"
  ec_exitCode :: "int option"
  ec_timedOut :: "int option"
  ec_message :: "string option"
  ec_preview :: exec_preview

text \<open>The deadline of its watcher, when the process is watched.\<close>

record backgrounded_exec =
  eb_processId :: string
  eb_command :: string
  eb_label :: "string option"
  eb_watcherDeadlineAt :: "int option"
  eb_backgroundedAfterMs :: int
  eb_preview :: exec_preview
  eb_message :: string
  eb_nextActions :: "string list"

datatype exec_result = Completed completed_exec | Backgrounded backgrounded_exec

text \<open>What \<open>startAndStoreProcess\<close> hands to its callers.\<close>

record started =
  st_processId :: string
  st_status :: process_status
  st_exitCode :: "int option"
  st_stdoutPreview :: string
  st_stderrPreview :: string
  st_timeoutMs :: int

record run_result =
  rn_processId :: string
  rn_status :: process_status
  rn_exitCode :: int
  rn_stdout :: string
  rn_stderr :: string
  rn_stdoutTruncated :: bool

section \<open>The completion callback\<close>

definition EXEC_FOREGROUND_TIMEOUT_MS :: int where "EXEC_FOREGROUND_TIMEOUT_MS = 10000"
definition EXEC_FOREGROUND_POLL_INTERVAL_MS :: int where "EXEC_FOREGROUND_POLL_INTERVAL_MS = 500"
definition COMPLETION_TOKEN_MARGIN_MS :: int where "COMPLETION_TOKEN_MARGIN_MS = 300000"

definition isUnreachableFromASandbox :: "(string \<Rightarrow> string option) \<Rightarrow> string \<Rightarrow> bool" where
  "isUnreachableFromASandbox host origin =
     (case host origin of
        None \<Rightarrow> False
      | Some h \<Rightarrow> h \<in> {''localhost'', ''127.0.0.1'', ''::1'', ''[::1]'', ''0.0.0.0''})"

datatype callback_unavailable = NoBaseUrl | NoSecret | NoThreadId | UnreachableBaseUrl

definition given :: "string option \<Rightarrow> bool" where
  "given v \<longleftrightarrow> v \<noteq> None \<and> v \<noteq> Some []"

definition completionCallbackUnavailableReason :: "'x command_env \<Rightarrow> callback_unavailable option" where
  "completionCallbackUnavailableReason E =
     (if \<not> given (ce_appBaseUrl E) then Some NoBaseUrl
      else if \<not> given (ce_betterAuthSecret E) then Some NoSecret
      else if \<not> given (ce_threadId E) then Some NoThreadId
      else if \<not> ce_consumesCompletionCallback E then None
      else if ce_hostname E (the (ce_appBaseUrl E)) = None then None
      else if isUnreachableFromASandbox (ce_hostname E) (the (ce_appBaseUrl E))
      then Some UnreachableBaseUrl
      else None)"

definition shouldRefuseBackgrounding :: "'x command_env \<Rightarrow> bool" where
  "shouldRefuseBackgrounding E \<longleftrightarrow>
     ce_consumesCompletionCallback E \<and> completionCallbackUnavailableReason E \<noteq> None"

definition drop_final_slash :: "string \<Rightarrow> string" where
  "drop_final_slash s = (if s \<noteq> [] \<and> last s = CHR ''/'' then butlast s else s)"

definition callback_command :: "string \<Rightarrow> string \<Rightarrow> string \<Rightarrow> string \<Rightarrow> string" where
  "callback_command bounds origin token i =
     ''curl -sf '' @ bounds @ '' -X POST '' @ origin @ ''/api/compute/completion '' @
     ''-H '' @ [CHR 0x27] @ ''Authorization: Bearer '' @ token @ [CHR 0x27] @
     '' -H '' @ [CHR 0x27] @ ''Content-Type: application/json'' @ [CHR 0x27] @ '' -d '' @
     [CHR 0x22] @ ''{'' @ [CHR 0x5C, CHR 0x22] @ ''processId'' @ [CHR 0x5C, CHR 0x22] @ '':'' @
     [CHR 0x5C, CHR 0x22] @ i @ [CHR 0x5C, CHR 0x22] @ '','' @
     [CHR 0x5C, CHR 0x22] @ ''exitCode'' @ [CHR 0x5C, CHR 0x22] @ '':$NADI_EXIT_CODE}'' @ [CHR 0x22]"

definition buildCompletionCallback ::
    "'x command_env \<Rightarrow> string \<Rightarrow> int \<Rightarrow> 'x service \<Rightarrow> string option" where
  "buildCompletionCallback E i timeoutMs s =
     (if \<not> sd_supportsProcessMonitor (ce_deps E) then None
      else if completionCallbackUnavailableReason E \<noteq> None then None
      else let expires = the_time (ce_deps E) s + max timeoutMs MAX_WATCH_TIMEOUT_MS + COMPLETION_TOKEN_MARGIN_MS;
               token = ce_signToken E (the (ce_betterAuthSecret E)) (the (ce_threadId E)) i expires;
               bounds = (if ce_callbackDelaysCompletion E then ''--connect-timeout 3 -m 5'' else ''-m 25'')
           in Some (callback_command bounds (drop_final_slash (the (ce_appBaseUrl E))) token i))"

section \<open>Starting a process\<close>

definition stored_process :: "string \<Rightarrow> exec_input \<Rightarrow> string \<Rightarrow> start_result \<Rightarrow> int \<Rightarrow> compute_process" where
  "stored_process i inp cwd r now = \<lparr>cp_id = i, cp_backendProcessRef = Some (sr_process r),
     cp_command = xi_command inp, cp_cwd = Some cwd, cp_status = sr_status r, cp_exitCode = sr_exitCode r,
     cp_startedAt = now, cp_finishedAt = (if sr_status r = PsRunning then None else Some now),
     cp_stdoutBytes = 0, cp_stderrBytes = 0, cp_stdoutLines = 0, cp_stderrLines = 0,
     cp_outputTruncated = False, cp_label = xi_label inp\<rparr>"

definition appendIfAny :: "'x deps \<Rightarrow> string \<Rightarrow> out_stream \<Rightarrow> string option \<Rightarrow> ('x service, unit) act" where
  "appendIfAny D i stream t = (case t of
       None \<Rightarrow> ret () | Some t \<Rightarrow> if t = [] then ret () else service_appendOutput D i stream t)"

definition capped_timeout :: "'x deps \<Rightarrow> exec_input \<Rightarrow> int" where
  "capped_timeout D inp = min (or_else (xi_timeoutMs inp) (sd_maxProcessRuntimeMs D)) (sd_maxProcessRuntimeMs D)"

text \<open>The provider's start; a runtime it no longer has is forgotten and replaced once.\<close>

definition start_on_runtime ::
    "'x command_env \<Rightarrow> backend_reference \<Rightarrow> start_input \<Rightarrow> ('x service, start_result) act" where
  "start_on_runtime E runtime si = (let D = ce_deps E in
     catching (ext (ce_startProcess E runtime si)) (\<lambda>e.
       if \<not> isRuntimeMissing e \<or> sd_attachedRuntime D \<noteq> None then raise e
       else andThen (markRuntimeMissing D) (\<lambda>_. andThen (ensureRuntime D) (\<lambda>runtime'.
         ext (ce_startProcess E runtime' si)))))"

definition store_started ::
    "'x command_env \<Rightarrow> string \<Rightarrow> exec_input \<Rightarrow> start_input \<Rightarrow> start_result \<Rightarrow> ('x service, started) act" where
  "store_started E i inp si r = (let D = ce_deps E in timed D (\<lambda>now.
     andThen (dbw D (createProcess (stored_process i inp (si_cwd si) r now))) (\<lambda>_.
     andThen (appendIfAny D i Stdout (sr_stdout r)) (\<lambda>_.
     andThen (appendIfAny D i Stderr (sr_stderr r)) (\<lambda>_.
     andThen (dbw D (touchLastUsed now)) (\<lambda>_.
     andThen (refreshRelease D (sd_idleTimeoutMs D)) (\<lambda>_.
     andThen (if sr_status r \<noteq> PsRunning then emitCommandEvent ''command_completion'' i else ret ()) (\<lambda>_.
     ret \<lparr>st_processId = i, st_status = sr_status r, st_exitCode = sr_exitCode r,
       st_stdoutPreview = or_else (sr_stdout r) [], st_stderrPreview = or_else (sr_stderr r) [],
       st_timeoutMs = si_timeoutMs si\<rparr>))))))))"

definition startAndStoreProcess :: "'x command_env \<Rightarrow> exec_input \<Rightarrow> ('x service, started) act" where
  "startAndStoreProcess E inp = (let D = ce_deps E in
     andThen (ensureRuntime D) (\<lambda>runtime. randomUUID D (\<lambda>u.
       let i = ''proc_'' @ u; timeoutMs = capped_timeout D inp
       in reading (buildCompletionCallback E i timeoutMs) (\<lambda>callback.
         let si = \<lparr>si_command = xi_command inp, si_cwd = or_else (xi_cwd inp) WORKSPACE_ROOT,
               si_env = xi_env inp, si_stdin = xi_stdin inp, si_completionCallback = callback,
               si_timeoutMs = timeoutMs\<rparr>
         in andThen (start_on_runtime E runtime si) (store_started E i inp si)))))"

section \<open>Waiting\<close>

definition buildPreview :: "'x command_env \<Rightarrow> string \<Rightarrow> 'x service \<Rightarrow> exec_preview" where
  "buildPreview E i s =
     (let tail = (\<lambda>stream. tailOutputChunks stream (tl_tailMaxLines (ce_limits E)) (tl_tailMaxBytes (ce_limits E))
            (listOutputChunks i (Some stream) (cd_chunks (sv_db s))));
          dropped = (case getProcess i (sv_db s) of None \<Rightarrow> False | Some p \<Rightarrow> cp_outputTruncated p)
      in \<lparr>pv_stdout = fst (tail Stdout), pv_stderr = fst (tail Stderr),
          pv_stdoutTruncated = (snd (tail Stdout) \<noteq> None \<or> dropped),
          pv_stderrTruncated = (snd (tail Stderr) \<noteq> None \<or> dropped)\<rparr>)"

definition buildCompletedExecResult ::
    "'x command_env \<Rightarrow> string \<Rightarrow> string \<Rightarrow> string option \<Rightarrow> ('x service, completed_exec) act" where
  "buildCompletedExecResult E i command label =
     andThen (requireProcess_service i) (\<lambda>p.
       if cp_status p = PsRunning then raise (OtherError ''compute_process_still_running'')
       else reading (buildPreview E i) (\<lambda>preview.
         ret \<lparr>ec_status = cp_status p, ec_processId = i, ec_command = command, ec_label = label,
           ec_exitCode = cp_exitCode p, ec_timedOut = None, ec_message = None, ec_preview = preview\<rparr>))"

definition stopTimedOutProcess :: "'x command_env \<Rightarrow> string \<Rightarrow> ('x service, unit) act" where
  "stopTimedOutProcess E i = (let D = ce_deps E in
     andThen (requireProcessReference i) (\<lambda>(_, ref).
     andThen (ensureRuntime D) (\<lambda>runtime.
     andThen (ext (rb_stopProcess (sd_backend D) runtime ref Kill)) (\<lambda>result.
     andThen (updateTerminalProcess D i result) (\<lambda>_.
     emitCommandEvent ''command_timeout'' i)))))"

definition backgroundWithoutWatcher ::
    "string \<Rightarrow> string \<Rightarrow> string option \<Rightarrow> int \<Rightarrow> exec_preview \<Rightarrow> backgrounded_exec" where
  "backgroundWithoutWatcher i command label timeoutMs preview =
     \<lparr>eb_processId = i, eb_command = command, eb_label = label, eb_watcherDeadlineAt = None,
      eb_backgroundedAfterMs = timeoutMs, eb_preview = preview,
      eb_message = ''Command is still running in the background without a watcher.'',
      eb_nextActions = [''Use exec_output to inspect it.'', ''Use exec_stop to cancel.'']\<rparr>"

definition background_watcher :: "'x deps \<Rightarrow> string \<Rightarrow> string option \<Rightarrow> int \<Rightarrow> watcher_row" where
  "background_watcher D i label now = \<lparr>w_processId = i, w_deadlineAt = now + DEFAULT_WATCH_TIMEOUT_MS,
     w_pollIntervalMs = sd_monitorPollIntervalMs D, w_nextPollAt = now + sd_monitorPollIntervalMs D,
     w_label = label, w_createdAt = now\<rparr>"

definition backgroundResult ::
    "'x command_env \<Rightarrow> string \<Rightarrow> string \<Rightarrow> string option \<Rightarrow> int \<Rightarrow> ('x service, backgrounded_exec) act" where
  "backgroundResult E i command label timeoutMs = (let D = ce_deps E in
     reading (buildPreview E i) (\<lambda>preview.
     reading (\<lambda>s. canAddWatcher (int (countWatchers (sv_db s)))) (\<lambda>room.
       if \<not> ce_backgroundLongRunningExec E \<or> \<not> sd_supportsProcessMonitor D \<or> \<not> room
       then ret (backgroundWithoutWatcher i command label timeoutMs preview)
       else andThen (refreshGeneration D) (\<lambda>_. timed D (\<lambda>now.
         andThen (dbw D (changing (upsertWatcher (background_watcher D i label now)))) (\<lambda>_.
         andThen (dbw D (changing (markProcessAutoWatched i now))) (\<lambda>_.
         reading (buildProcessWorkRow i now) (\<lambda>work.
         andThen (on_ledger (register work)) (\<lambda>_.
         andThen (refreshWorkAlarm D) (\<lambda>_.
         ret \<lparr>eb_processId = i, eb_command = command, eb_label = label,
           eb_watcherDeadlineAt = Some (now + DEFAULT_WATCH_TIMEOUT_MS),
           eb_backgroundedAfterMs = timeoutMs, eb_preview = preview,
           eb_message = ''Command is running in the background. A message will be delivered to this thread when it finishes. If you have nothing else to do, end your turn now '' @ em_dash @ '' do not poll for completion.'',
           eb_nextActions = [''Use exec_stop to cancel.'']\<rparr>))))))))))"

text \<open>
  The polling loop: \<open>Some True\<close> when the process no longer runs, \<open>Some False\<close> when the foreground
  time is over, \<open>None\<close> when the rounds are used up.
\<close>

fun wait_rounds :: "nat \<Rightarrow> 'x command_env \<Rightarrow> string \<Rightarrow> int \<Rightarrow> int \<Rightarrow> ('x service, bool option) act" where
  "wait_rounds 0 E i startedAt foregroundMs = ret None"
| "wait_rounds (Suc n) E i startedAt foregroundMs = timed (ce_deps E) (\<lambda>t.
     if t - startedAt \<ge> foregroundMs then ret (Some False)
     else timed (ce_deps E) (\<lambda>t'.
       andThen (ext (ce_sleep E (min (max 1 (ce_foregroundPollIntervalMs E)) (foregroundMs - (t' - startedAt))))) (\<lambda>_.
       andThen (refreshProcessStatus (ce_deps E) i) (\<lambda>_.
       andThen (requireProcess_service i) (\<lambda>p.
         if cp_status p \<noteq> PsRunning then ret (Some True)
         else wait_rounds n E i startedAt foregroundMs)))))"

definition foreground_time :: "'x command_env \<Rightarrow> int \<Rightarrow> bool \<Rightarrow> int" where
  "foreground_time E processTimeoutMs toCompletion =
     min (if toCompletion then processTimeoutMs else ce_foregroundTimeoutMs E) processTimeoutMs"

definition after_wait ::
    "'x command_env \<Rightarrow> string \<Rightarrow> string \<Rightarrow> string option \<Rightarrow> int \<Rightarrow> int \<Rightarrow> bool \<Rightarrow> ('x service, exec_result) act" where
  "after_wait E i command label processTimeoutMs foregroundMs ended =
     (if ended then andThen (buildCompletedExecResult E i command label) (\<lambda>r. ret (Completed r))
      else if foregroundMs \<ge> processTimeoutMs then
        andThen (stopTimedOutProcess E i) (\<lambda>_.
        andThen (buildCompletedExecResult E i command label) (\<lambda>r.
        ret (Completed (r\<lparr>ec_timedOut := Some processTimeoutMs,
          ec_message := Some (''Command timed out after '' @ int_string processTimeoutMs @
            ''ms and was stopped.'')\<rparr>))))
      else andThen (backgroundResult E i command label foregroundMs) (\<lambda>r. ret (Backgrounded r)))"

definition waitForForegroundOrBackground ::
    "nat \<Rightarrow> 'x command_env \<Rightarrow> string \<Rightarrow> string \<Rightarrow> string option \<Rightarrow> int \<Rightarrow> bool \<Rightarrow>
     ('x service, exec_result option) act" where
  "waitForForegroundOrBackground rounds E i command label processTimeoutMs toCompletion =
     (let foregroundMs = foreground_time E processTimeoutMs toCompletion
      in timed (ce_deps E) (\<lambda>startedAt.
        andThen (wait_rounds rounds E i startedAt foregroundMs) (\<lambda>outcome. case outcome of
          None \<Rightarrow> ret None
        | Some ended \<Rightarrow> andThen (after_wait E i command label processTimeoutMs foregroundMs ended)
            (\<lambda>r. ret (Some r)))))"

section \<open>The three ways to run a command\<close>

definition background_refused :: compute_error where
  "background_refused = ComputeError CeComputeUnavailable
     ''background_unavailable_no_callback: background work is unavailable in this deployment; run the command in the foreground instead.''"

definition execStart :: "'x command_env \<Rightarrow> exec_input \<Rightarrow> ('x service, started) act" where
  "execStart E inp = andThen (ext (sd_markSandboxDirty (ce_deps E))) (\<lambda>_.
     if shouldRefuseBackgrounding E then raise background_refused else startAndStoreProcess E inp)"

definition run_stored_process :: "string \<Rightarrow> exec_input \<Rightarrow> string \<Rightarrow> run_command_result \<Rightarrow> int \<Rightarrow> compute_process" where
  "run_stored_process i inp cwd r now = \<lparr>cp_id = i, cp_backendProcessRef = None,
     cp_command = xi_command inp, cp_cwd = Some cwd,
     cp_status = (if rc_exited r then PsExited else PsFailed), cp_exitCode = Some (rc_exitCode r),
     cp_startedAt = now, cp_finishedAt = Some now, cp_stdoutBytes = 0, cp_stderrBytes = 0,
     cp_stdoutLines = 0, cp_stderrLines = 0, cp_outputTruncated = rc_stdoutTruncated r,
     cp_label = xi_label inp\<rparr>"

text \<open>The path through \<open>backend.runCommand\<close>, and the one of a provider that has none.\<close>

definition run_directly ::
    "'x command_env \<Rightarrow> (backend_reference \<Rightarrow> start_input \<Rightarrow> ('x, run_command_result) act) \<Rightarrow>
     exec_input \<Rightarrow> ('x service, run_result) act" where
  "run_directly E run inp = (let D = ce_deps E; cwd = or_else (xi_cwd inp) WORKSPACE_ROOT in
     andThen (ensureRuntime D) (\<lambda>runtime.
     andThen (ext (run runtime \<lparr>si_command = xi_command inp, si_cwd = cwd, si_env = xi_env inp,
       si_stdin = xi_stdin inp, si_completionCallback = None, si_timeoutMs = capped_timeout D inp\<rparr>)) (\<lambda>r.
     randomUUID D (\<lambda>u. let i = ''proc_'' @ u in timed D (\<lambda>now.
       andThen (dbw D (createProcess (run_stored_process i inp cwd r now))) (\<lambda>_.
       andThen (appendIfAny D i Stdout (Some (rc_stdout r))) (\<lambda>_.
       andThen (appendIfAny D i Stderr (Some (rc_stderr r))) (\<lambda>_.
       andThen (dbw D (touchLastUsed now)) (\<lambda>_.
       andThen (refreshRelease D (sd_idleTimeoutMs D)) (\<lambda>_.
       andThen (emitCommandEvent ''command_completion'' i) (\<lambda>_.
       ret \<lparr>rn_processId = i, rn_status = (if rc_exited r then PsExited else PsFailed),
         rn_exitCode = rc_exitCode r, rn_stdout = rc_stdout r, rn_stderr = rc_stderr r,
         rn_stdoutTruncated = rc_stdoutTruncated r\<rparr>)))))))))))"

definition run_by_waiting ::
    "nat \<Rightarrow> 'x command_env \<Rightarrow> exec_input \<Rightarrow> ('x service, run_result option) act" where
  "run_by_waiting rounds E inp =
     andThen (execStart E inp) (\<lambda>st. let i = st_processId st in
     andThen (waitForForegroundOrBackground rounds E i (xi_command inp) (xi_label inp) (st_timeoutMs st) True) (\<lambda>waited.
     case waited of
       None \<Rightarrow> ret None
     | Some _ \<Rightarrow>
         andThen (requireProcess_service i) (\<lambda>p.
         reading (buildPreview E i) (\<lambda>preview.
           if cp_status p = PsRunning
           then raise (ComputeError CeProviderTransient ''exec_run_did_not_complete'')
           else ret (Some \<lparr>rn_processId = i, rn_status = cp_status p,
             rn_exitCode = or_else (cp_exitCode p) (- 1), rn_stdout = pv_stdout preview,
             rn_stderr = pv_stderr preview,
             rn_stdoutTruncated = (pv_stdoutTruncated preview \<or>
               cp_stdoutLines p > tl_tailMaxLines (ce_limits E))\<rparr>)))))"

definition execRun :: "nat \<Rightarrow> 'x command_env \<Rightarrow> exec_input \<Rightarrow> ('x service, run_result option) act" where
  "execRun rounds E inp = andThen (ext (sd_markSandboxDirty (ce_deps E))) (\<lambda>_.
     case ce_runCommand E of
       None \<Rightarrow> run_by_waiting rounds E inp
     | Some run \<Rightarrow> andThen (run_directly E run inp) (\<lambda>r. ret (Some r)))"

definition runExecToCompletion ::
    "nat \<Rightarrow> 'x command_env \<Rightarrow> exec_input \<Rightarrow> ('x service, exec_result option) act" where
  "runExecToCompletion rounds E inp = andThen (execRun rounds E inp) (\<lambda>run. ret (map_option (\<lambda>r.
     Completed \<lparr>ec_status = rn_status r, ec_processId = rn_processId r, ec_command = xi_command inp,
       ec_label = xi_label inp, ec_exitCode = Some (rn_exitCode r), ec_timedOut = None,
       ec_message = None, ec_preview = \<lparr>pv_stdout = rn_stdout r, pv_stderr = rn_stderr r,
         pv_stdoutTruncated = rn_stdoutTruncated r, pv_stderrTruncated = False\<rparr>\<rparr>) run))"

text \<open>What the sink was given is stored as it came, also when the wait then throws.\<close>

definition await_exit ::
    "'x deps \<Rightarrow> (backend_reference \<Rightarrow> backend_reference \<Rightarrow>
       'x \<Rightarrow> 'x \<times> (out_stream \<times> string) list \<times> (compute_error + process_status \<times> int option)) \<Rightarrow>
     backend_reference \<Rightarrow> backend_reference \<Rightarrow> string \<Rightarrow> ('x service, process_status \<times> int option) act" where
  "await_exit D wait runtime ref i s =
     (case wait runtime ref (sv_ext s) of (x, chunks, outcome) \<Rightarrow>
        andThen (forEach (\<lambda>(stream, t). service_appendOutput D i stream t) chunks)
          (\<lambda>_. case outcome of Inl e \<Rightarrow> raise e | Inr status \<Rightarrow> ret status) (s\<lparr>sv_ext := x\<rparr>))"

definition runCancellableExecToCompletion ::
    "'x command_env \<Rightarrow> (backend_reference \<Rightarrow> backend_reference \<Rightarrow>
       'x \<Rightarrow> 'x \<times> (out_stream \<times> string) list \<times> (compute_error + process_status \<times> int option)) \<Rightarrow>
     exec_input \<Rightarrow> ('x service, exec_result) act" where
  "runCancellableExecToCompletion E wait inp = (let D = ce_deps E in
     andThen (startAndStoreProcess E inp) (\<lambda>st. let i = st_processId st in
       andThen (if st_status st \<noteq> PsRunning then ret ()
         else andThen (requireProcessReference i) (\<lambda>(_, ref).
           andThen (ensureRuntime D) (\<lambda>runtime.
           andThen (await_exit D wait runtime ref i) (\<lambda>status.
           andThen (updateTerminalProcess D i status) (\<lambda>_.
           emitCommandEvent ''command_completion'' i))))) (\<lambda>_.
       andThen (buildCompletedExecResult E i (xi_command inp) (xi_label inp)) (\<lambda>r. ret (Completed r)))))"

definition exec :: "nat \<Rightarrow> 'x command_env \<Rightarrow> exec_input \<Rightarrow> ('x service, exec_result option) act" where
  "exec rounds E inp = andThen (ext (sd_markSandboxDirty (ce_deps E))) (\<lambda>_.
     if \<not> ce_backgroundLongRunningExec E \<or> shouldRefuseBackgrounding E then
       (case ce_waitForProcessExit E of
          Some wait \<Rightarrow> andThen (runCancellableExecToCompletion E wait inp) (\<lambda>r. ret (Some r))
        | None \<Rightarrow> runExecToCompletion rounds E inp)
     else andThen (startAndStoreProcess E inp) (\<lambda>st. let i = st_processId st in
       if st_status st \<noteq> PsRunning
       then andThen (buildCompletedExecResult E i (xi_command inp) (xi_label inp)) (\<lambda>r. ret (Some (Completed r)))
       else waitForForegroundOrBackground rounds E i (xi_command inp) (xi_label inp) (st_timeoutMs st) False))"

section \<open>What the pieces return\<close>

text \<open>The clock and the random ids.\<close>

lemma ends_timed: "(\<And>x. ends Q (g x)) \<Longrightarrow> ends Q (timed D g)"
  unfolding timed_def by (rule ends_reading)

lemma ends_uuid: "(\<And>x. ends Q (g x)) \<Longrightarrow> ends Q (randomUUID D g)"
  unfolding ends_def randomUUID_def wp_def split_def by blast

lemmas run_intros = ends_intros ends_timed ends_uuid

lemma started_timeout: "ends (\<lambda>st _. st_timeoutMs st \<le> sd_maxProcessRuntimeMs (ce_deps E)) (startAndStoreProcess E inp)"
  unfolding startAndStoreProcess_def store_started_def Let_def
  by (intro run_intros) (simp add: capped_timeout_def)

end
