(* ===== verification/Command_Termination.thy ===== *)
theory Command_Termination
  imports Command_Execution Fake_Thread
begin

text \<open>
  The foreground wait of \<open>exec\<close> comes back: when the clock never runs backwards and a sleep lasts
  at least as long as it was asked to, the wait polls at most once per millisecond of its budget.
\<close>

section \<open>Calls that do not turn the clock back\<close>

definition on_time :: "'x deps \<Rightarrow> ('x, 'a) act \<Rightarrow> bool" where
  "on_time D m \<longleftrightarrow> (\<forall>x. sd_now D x \<le> sd_now D (fst (m x)))"

definition forward :: "'x deps \<Rightarrow> ('x service, 'a) act \<Rightarrow> bool" where
  "forward D m \<longleftrightarrow> (\<forall>s. the_time D s \<le> the_time D (fst (m s)))"

lemma forward_keeps: "keeps sv_ext m \<Longrightarrow> forward D m"
  by (simp add: keeps_def forward_def the_time_def)

lemma forward_andThen: "forward D m \<Longrightarrow> (\<And>a. forward D (g a)) \<Longrightarrow> forward D (andThen m g)"
  unfolding forward_def andThen_def by (simp split: prod.split sum.split) (metis fst_conv order_trans)

lemma forward_tryThen:
  "forward D m \<Longrightarrow> (\<And>e. forward D (h e)) \<Longrightarrow> (\<And>a. forward D (g a)) \<Longrightarrow> forward D (tryThen m h g)"
  unfolding forward_def tryThen_def by (simp split: prod.split sum.split) (metis fst_conv order_trans)

lemma forward_catching: "forward D m \<Longrightarrow> (\<And>e. forward D (h e)) \<Longrightarrow> forward D (catching m h)"
  unfolding forward_def catching_def by (simp split: prod.split sum.split) (metis fst_conv order_trans)

lemma forward_bestEffort: "forward D m \<Longrightarrow> forward D (bestEffort m)"
  unfolding bestEffort_def by (rule forward_catching) (simp_all add: forward_keeps keeps_ret)

lemma forward_reading: "(\<And>x. forward D (g x)) \<Longrightarrow> forward D (reading h g)"
  by (simp add: forward_def reading_def)

lemma forward_if: "forward D m \<Longrightarrow> forward D m' \<Longrightarrow> forward D (if b then m else m')"
  by simp

lemma forward_option:
  "forward D m \<Longrightarrow> (\<And>x. forward D (g x)) \<Longrightarrow> forward D (case x of None \<Rightarrow> m | Some y \<Rightarrow> g y)"
  by (cases x) simp_all

lemma forward_forEach: "(\<And>x. forward D (g x)) \<Longrightarrow> forward D (forEach g xs)"
  by (induction xs) (simp_all add: forward_andThen forward_keeps keeps_ret)

lemma forward_ext: "on_time D m \<Longrightarrow> forward D (ext m)"
proof -
  assume "on_time D m"
  then have "sd_now D (sv_ext s) \<le> sd_now D (fst (m (sv_ext s)))" for s :: "'a service"
    by (simp add: on_time_def)
  then show ?thesis by (simp add: forward_def ext_def on_part_def the_time_def split_def)
qed

lemma forward_changing: "(\<And>s. sv_ext (g s) = sv_ext s) \<Longrightarrow> forward D (changing g)"
  by (simp add: forward_keeps keeps_changing)

lemma forward_plain: "forward D (ret a)" "forward D (raise e)" "forward D (emitLifecycleEvent ev tr ok)"
  "forward D (emitCommandEvent ev i)" "forward D (on_ledger h)"
  unfolding emitLifecycleEvent_def emitCommandEvent_def on_ledger_def
  by (rule forward_keeps; intro keeps_intros; simp)+

lemmas forward_intros = forward_andThen forward_tryThen forward_catching forward_bestEffort
  forward_reading forward_if forward_forEach forward_plain

section \<open>The outside's clock\<close>

locale steady_clock =
  fixes D :: "'x deps"
  assumes backend_time:
      "on_time D (rb_acquire (sd_backend D) spec rec)" "on_time D (rb_destroy (sd_backend D) r)"
      "on_time D (rb_createDirectory (sd_backend D) r path)"
      "on_time D (rb_writeFile (sd_backend D) r path bytes par ow)"
      "on_time D (rb_getProcessStatus (sd_backend D) r ref)"
      "on_time D (rb_readProcessOutput (sd_backend D) r ref)"
      "on_time D (rb_stopProcess (sd_backend D) r ref stop)"
    and quota_time: "sd_quota D = Some q \<Longrightarrow> on_time D (qg_admit q) \<and> on_time D (qg_refresh q) \<and> on_time D (qg_release q)"
    and thread_time: "on_time D (sd_schedule D t)" "on_time D (sd_cancelSchedule D)" "on_time D (sd_sql D)"
      "on_time D (sd_reminder D body mode about)" "on_time D (sd_markSandboxDirty D)"
      "sd_now D x \<le> sd_now D (snd (sd_uuid D x))"
    and fresh_time: "forward D (sd_onFreshRuntime D)"
begin

lemma dbw_time: "forward D (dbw D m)"
  unfolding dbw_def
  by (intro forward_andThen forward_ext thread_time forward_keeps [OF keeps_on_part]) simp

lemma timed_time: "(\<And>t. forward D (m t)) \<Longrightarrow> forward D (timed D m)"
  unfolding timed_def by (rule forward_reading)

lemma uuid_time: "(\<And>u. forward D (m u)) \<Longrightarrow> forward D (randomUUID D m)"
proof -
  assume m: "\<And>u. forward D (m u)"
  have "the_time D s \<le> the_time D (fst (randomUUID D m s))" for s :: "'x service"
  proof -
    obtain u x where u: "sd_uuid D (sv_ext s) = (u, x)" by fastforce
    have "the_time D s \<le> the_time D (s\<lparr>sv_ext := x\<rparr>)"
      using thread_time(6) [of "sv_ext s"] u by (simp add: the_time_def)
    also have "\<dots> \<le> the_time D (fst (m u (s\<lparr>sv_ext := x\<rparr>)))"
      using m [of u] unfolding forward_def by blast
    finally show ?thesis using u by (simp add: randomUUID_def)
  qed
  then show ?thesis by (simp add: forward_def)
qed

lemma quota: "forward D (quotaAdmit D)" "forward D (quotaRefresh D)" "forward D (releaseQuotaSlot D)"
  unfolding quotaAdmit_def quotaRefresh_def releaseQuotaSlot_def
  using quota_time by (auto intro!: forward_intros forward_ext split: option.split)

lemma reminding: "forward D (remind D body mode about)"
  unfolding remind_def by (intro forward_intros forward_ext thread_time forward_changing) simp

lemma alarms_time: "forward D (armAlarm D t)" "forward D (clearAlarm D)" "forward D (refreshRelease D u)"
proof -
  show arm: "forward D (armAlarm D t)" for t
    unfolding armAlarm_def setAlarm_def
    by (auto intro!: forward_intros forward_ext thread_time forward_changing split: option.split)
  show "forward D (clearAlarm D)"
    unfolding clearAlarm_def by (intro forward_intros forward_ext thread_time forward_changing) simp
  show "forward D (refreshRelease D u)"
    unfolding refreshRelease_def by (intro forward_intros timed_time quota arm)
qed

lemma teardown: "forward D (destroyRuntime D r)" "forward D (stopRunningProcesses D now dl de)"
  "forward D (clearWatchers D)" "forward D (clearLifecycleState D)"
  unfolding destroyRuntime_def stopRunningProcesses_def clearWatchers_def clearLifecycleState_def
  by (intro forward_intros forward_ext backend_time thread_time dbw_time forward_changing;
      simp add: close_work_def split: prod.split)+

lemma missing: "forward D (markRuntimeMissing D)"
  unfolding markRuntimeMissing_def
  by (intro forward_intros timed_time teardown dbw_time quota alarms_time reminding)

lemma expiry: "forward D (cleanupExpiredRecovery D b now)"
  unfolding cleanupExpiredRecovery_def on_state_def
  by (auto intro!: forward_intros teardown dbw_time alarms_time reminding split: option.split)

lemma nonce: "forward D (writeNonce D r u)"
  unfolding writeNonce_def writeGeneration_def by (rule forward_ext) (rule backend_time)

lemma acquire_body: "forward D (acquire_body D rec spec)"
  unfolding acquire_body_def
  by (intro forward_intros forward_ext backend_time timed_time dbw_time uuid_time nonce alarms_time
      reminding fresh_time)

lemma acquire_failed: "forward D (acquire_failed D rec b e)"
  unfolding acquire_failed_def by (intro forward_intros quota timed_time dbw_time)

lemma acquire_from: "forward D (acquire_from D now state)"
  unfolding acquire_from_def provision_def
  by (auto intro!: forward_intros dbw_time quota acquire_body acquire_failed split: option.split)

lemma ensure: "forward D (ensureRuntime D)"
proof -
  have acquire: "forward D (readOrAcquireRuntime D)"
    unfolding readOrAcquireRuntime_def on_state_def
    by (intro forward_intros timed_time expiry acquire_from)
  have bounded: "forward D (boundedAcquisition D (readOrAcquireRuntime D))"
    unfolding boundedAcquisition_def latched_def
    by (intro forward_intros timed_time acquire forward_changing) simp_all
  have root: "forward D (ensureWorkspaceRootOnce D r)" for r
    unfolding ensureWorkspaceRootOnce_def
    by (intro forward_intros forward_ext backend_time forward_changing) simp
  show ?thesis
    unfolding ensureRuntime_def
    by (auto intro!: forward_andThen timed_time dbw_time bounded root split: option.split)
qed

lemma processes: "forward D (updateTerminalProcess D i r)" "forward D (service_appendOutput D i st t)"
  unfolding updateTerminalProcess_def service_appendOutput_def
  by (auto intro!: forward_intros timed_time dbw_time split: option.split)

lemma reads: "forward D (refreshProcessOutput D i)"
  unfolding refreshProcessOutput_def ingestCumulativeOutput_def on_state_def
  by (auto intro!: forward_intros forward_ext backend_time processes missing split: option.split)

lemma require: "forward D (requireProcess_service i)" "forward D (requireProcessReference i)"
  unfolding requireProcessReference_def requireProcess_service_def
  by (auto intro!: forward_intros split: option.split)

lemma refresh: "forward D (refreshProcessStatus D i)"
  unfolding refreshProcessStatus_def
  by (auto intro!: forward_intros forward_ext backend_time ensure processes reads require)

end

section \<open>The wait ends\<close>

definition decided :: "'a option \<Rightarrow> bool" where
  "decided outcome \<longleftrightarrow> outcome \<noteq> None"

lemma decided_Some [simp]: "decided (Some a)" "\<not> decided None"
  by (simp_all add: decided_def)

locale sleeping_env = steady_clock "ce_deps E" for E :: "'x command_env" +
  assumes sleep_time: "0 \<le> t \<Longrightarrow> sd_now (ce_deps E) x + t \<le> sd_now (ce_deps E) (fst (ce_sleep E t x))"
begin

text \<open>Every round takes at least a millisecond.\<close>

lemma round:
  assumes "0 < t"
  shows "wp (andThen (ext (ce_sleep E t)) (\<lambda>_. andThen (refreshProcessStatus (ce_deps E) i)
      (\<lambda>_. requireProcess_service i)))
    (\<lambda>_ u. the_time (ce_deps E) s + 1 \<le> the_time (ce_deps E) u) (\<lambda>_ _. True) s"
proof -
  have later: "the_time (ce_deps E) s + t \<le> the_time (ce_deps E) (fst (ext (ce_sleep E t) s))"
    using sleep_time [of t "sv_ext s"] assms by (simp add: the_time_def ext_def on_part_def split_def)
  have "forward (ce_deps E) (andThen (refreshProcessStatus (ce_deps E) i) (\<lambda>_. requireProcess_service i))"
    by (intro forward_andThen refresh require)
  then have "wp (andThen (refreshProcessStatus (ce_deps E) i) (\<lambda>_. requireProcess_service i))
      (\<lambda>_ u. the_time (ce_deps E) v \<le> the_time (ce_deps E) u) (\<lambda>_ _. True) v" for v
    unfolding forward_def by (simp add: wp_run)
  from wp_conseq [OF this [of "fst (ext (ce_sleep E t) s)"]] later assms
  show ?thesis
    unfolding wp_andThen [of "ext _"] by (auto simp: wp_run [of "ext _"])
qed

lemma wait_decides:
  "foregroundMs - (the_time (ce_deps E) s - startedAt) < int rounds \<Longrightarrow> rounds \<noteq> 0 \<Longrightarrow>
   wp (wait_rounds rounds E i startedAt foregroundMs) (\<lambda>outcome _. decided outcome) (\<lambda>_ _. True) s"
proof (induction rounds arbitrary: s)
  case (Suc n)
  let ?t = "the_time (ce_deps E) s"
  define ms where "ms = min (max 1 (ce_foregroundPollIntervalMs E)) (foregroundMs - (?t - startedAt))"
  show ?case
  proof (cases "foregroundMs \<le> ?t - startedAt")
    case False
    then have "0 < ms" by (simp add: ms_def)
    note next_round = wp_conseq [OF round [OF this, of i s]]
    have "wp (if cp_status p \<noteq> PsRunning then ret (Some True)
        else wait_rounds n E i startedAt foregroundMs) (\<lambda>outcome _. decided outcome) (\<lambda>_ _. True) u"
      if "?t + 1 \<le> the_time (ce_deps E) u" for u and p :: compute_process
    proof (cases "cp_status p = PsRunning")
      case True
      have "wp (wait_rounds n E i startedAt foregroundMs) (\<lambda>outcome _. decided outcome) (\<lambda>_ _. True) u"
        by (rule Suc.IH) (use that Suc.prems(1) False in auto)
      then show ?thesis using True by simp
    qed (auto simp: wp_simps)
    then have "wp (andThen (andThen (ext (ce_sleep E ms)) (\<lambda>_. andThen (refreshProcessStatus (ce_deps E) i)
        (\<lambda>_. requireProcess_service i))) (\<lambda>p. if cp_status p \<noteq> PsRunning then ret (Some True)
          else wait_rounds n E i startedAt foregroundMs)) (\<lambda>outcome _. decided outcome) (\<lambda>_ _. True) s"
      unfolding wp_andThen [of "andThen (ext _) _"] by (intro next_round) auto
    then show ?thesis
      using False unfolding ms_def by (simp add: timed_def wp_reading wp_andThen wp_if)
  qed (simp add: timed_def wp_simps)
qed simp

end

context sleeping_env begin

lemma waits:
  assumes "nat (sd_maxProcessRuntimeMs (ce_deps E)) < rounds" and "t \<le> sd_maxProcessRuntimeMs (ce_deps E)"
  shows "ends (\<lambda>r _. decided r) (waitForForegroundOrBackground rounds E i command label t b)"
proof -
  have "foreground_time E t b \<le> sd_maxProcessRuntimeMs (ce_deps E)"
    using assms(2) by (simp add: foreground_time_def)
  then have wait: "wp (wait_rounds rounds E i (the_time (ce_deps E) s) (foreground_time E t b))
      (\<lambda>outcome _. decided outcome) (\<lambda>_ _. True) s" for s
    using assms(1) by (intro wait_decides) auto
  have rest: "ends (\<lambda>r _. decided r) (andThen m (\<lambda>r. ret (Some r)))" for m :: "('x service, exec_result) act"
    by (intro run_intros) simp
  show ?thesis
    unfolding waitForForegroundOrBackground_def Let_def ends_def timed_def wp_reading
      wp_andThen [of "wait_rounds _ _ _ _ _"]
    using rest by (auto intro!: wp_conseq [OF wait] simp: ends_def split: option.split)
qed

lemma run_ends:
  assumes "nat (sd_maxProcessRuntimeMs (ce_deps E)) < rounds"
  shows "ends (\<lambda>r _. decided r) (execRun rounds E inp)"
proof -
  have waited: "ends (\<lambda>r _. decided r) (run_by_waiting rounds E inp)"
  proof -
    have start: "ends (\<lambda>st _. st_timeoutMs st \<le> sd_maxProcessRuntimeMs (ce_deps E)) (execStart E inp)"
      unfolding execStart_def by (intro run_intros started_timeout)
    show ?thesis
      unfolding run_by_waiting_def Let_def
      by (rule ends_after [OF start], rule ends_after [OF waits [OF assms]])
         (auto intro!: run_intros split: option.split)
  qed
  show ?thesis
    unfolding execRun_def
    by (auto intro!: ends_andThen waited ends_ret split: option.split)
qed

lemma exec_ends:
  assumes "nat (sd_maxProcessRuntimeMs (ce_deps E)) < rounds"
  shows "ends (\<lambda>r _. decided r) (exec rounds E inp)"
proof -
  have completion: "ends (\<lambda>r _. decided r) (runExecToCompletion rounds E inp)"
    unfolding runExecToCompletion_def
    by (rule ends_after [OF run_ends [OF assms]]) (auto intro!: ends_ret simp: decided_def)
  have background: "ends (\<lambda>r _. decided r) (andThen (startAndStoreProcess E inp) (\<lambda>st. let i = st_processId st in
       if st_status st \<noteq> PsRunning
       then andThen (buildCompletedExecResult E i (xi_command inp) (xi_label inp)) (\<lambda>r. ret (Some (Completed r)))
       else waitForForegroundOrBackground rounds E i (xi_command inp) (xi_label inp) (st_timeoutMs st) False))"
    unfolding Let_def
    by (rule ends_after [OF started_timeout]) (auto intro!: ends_andThen ends_ret waits [OF assms])
  show ?thesis
    unfolding exec_def
    by (auto intro!: ends_andThen ends_ret completion background split: option.split simp del: Let_def)
qed

end

text \<open>C14: Running a command always comes back. When the outside's clock never runs backwards and a
  sleep lasts as long as asked, neither \<open>exec\<close> nor \<open>execRun\<close> polls more often than once per
  millisecond of the longest run time a process may have, whatever the provider answers and
  whichever call throws: with that many rounds the wait is always decided.
\<close>

theorem exec_returns:
  assumes "sleeping_env E" and "nat (sd_maxProcessRuntimeMs (ce_deps E)) < rounds"
  shows "snd (exec rounds E inp s) \<noteq> Inr None \<and> snd (execRun rounds E inp s) \<noteq> Inr None"
  using sleeping_env.exec_ends [OF assms, of inp] sleeping_env.run_ends [OF assms, of inp]
  unfolding ends_def wp_run by (auto simp: decided_def)

end
