(* ===== verification/Command_Safety.thy ===== *)
theory Command_Safety
  imports Command_Execution Release_Safety
begin

text \<open>
  What \<open>exec\<close> tells its caller is true of the thread it leaves behind: a command reported as finished
  is not running, and one left in the background is watched, or cannot be.
\<close>

section \<open>Left in the background\<close>

text \<open>A watcher that gives up at \<open>deadline\<close>, an alarm no later than its first poll, a ledger row.\<close>

definition watched_until :: "string \<Rightarrow> int \<Rightarrow> 'x service \<Rightarrow> bool" where
  "watched_until i deadline t \<longleftrightarrow>
     (\<exists>w a. w \<in> set (listWatchers (sv_db t)) \<and> w_processId w = i \<and> w_deadlineAt w = deadline \<and>
        sv_alarm t = Some a \<and> a \<le> w_nextPollAt w) \<and>
     wasProcessAutoWatched i (sv_db t) \<and>
     (\<exists>r. get_row i (sv_ledger t) = Some r \<and>
        wr_deadlineAt r = deadline - DEFAULT_WATCH_TIMEOUT_MS + MAX_WATCH_TIMEOUT_MS)"

text \<open>The stored row of a process has the status, in a database that has the table.\<close>

definition stored_as :: "string \<Rightarrow> process_status \<Rightarrow> compute_db \<Rightarrow> bool" where
  "stored_as i status db \<longleftrightarrow> cd_processes db = None \<or> map_option cp_status (getProcess i db) = Some status"

fun told_truly :: "'x command_env \<Rightarrow> exec_result \<Rightarrow> 'x service \<Rightarrow> bool" where
  "told_truly E (Completed c) t \<longleftrightarrow>
     ec_status c \<noteq> PsRunning \<and> stored_as (ec_processId c) (ec_status c) (sv_db t)"
| "told_truly E (Backgrounded b) t \<longleftrightarrow>
     ce_backgroundLongRunningExec E \<and> \<not> shouldRefuseBackgrounding E \<and>
     eb_backgroundedAfterMs b < sd_maxProcessRuntimeMs (ce_deps E) \<and>
     (case eb_watcherDeadlineAt b of
        None \<Rightarrow> \<not> sd_supportsProcessMonitor (ce_deps E) \<or> \<not> canAddWatcher (int (countWatchers (sv_db t)))
      | Some deadline \<Rightarrow> watched_until (eb_processId b) deadline t)"

lemma wp_dbw_any:
  "(\<And>x. wp m (\<lambda>a d. Q a (s\<lparr>sv_ext := x, sv_db := d\<rparr>)) (\<lambda>_ _. True) (sv_db s)) \<Longrightarrow>
   wp (dbw D m) Q (\<lambda>_ _. True) s"
  by (simp add: dbw_def ext_def wp_simps) (simp add: wp_run)

lemma get_row_registered: "\<exists>r. get_row (wr_id w) (register w l) = Some r \<and> wr_deadlineAt r = wr_deadlineAt w"
  by (simp add: get_row_def register_def sql_row_upsert insert_columns_def toWorkRow_def split: option.split)

text \<open>The alarm is folded over the watcher that was just stored.\<close>

lemma armed_by_watcher:
  fixes s :: "'x service"
  assumes "w \<in> set (listWatchers (sv_db s))"
  shows "wp (refreshWorkAlarm D) (\<lambda>_ t. sv_db t = sv_db s \<and> sv_ledger t = sv_ledger s \<and>
     (\<exists>a. sv_alarm t = Some a \<and> a \<le> w_nextPollAt w)) (\<lambda>_ _. True) s"
proof -
  define times where "times = set_option (computeReleaseAt D s) \<union>
      set_option (sd_workHorizon D (sv_ext s) (sv_ledger s)) \<union> w_nextPollAt ` set (listWatchers (sv_db s))"
  have "finite times" "w_nextPollAt w \<in> times" using assms by (auto simp: times_def)
  then obtain a where "least_time times = Some a" "a \<le> w_nextPollAt w"
    by (metis Min_le empty_iff least_time_def)
  then show ?thesis
    by (simp add: refreshWorkAlarm_def armAlarm_def setAlarm_def ext_def wp_simps nextWakeAt_least
        flip: times_def) (simp add: wp_run)
qed

lemma kept_watch: "background_watcher D i label now \<in> set (listWatchers
      (markProcessAutoWatched i now (upsertWatcher (background_watcher D i label now) db)))"
    "wasProcessAutoWatched i (markProcessAutoWatched i now db)"
  by (auto simp: listWatchers_def markProcessAutoWatched_def upsertWatcher_def sql_upsert_def sql_update_def
      background_watcher_def wasProcessAutoWatched_def sql_select_def filter_empty_conv image_iff)

lemma background_stores:
  "wp (andThen (dbw D (changing (upsertWatcher (background_watcher D i label now)))) (\<lambda>_.
       andThen (dbw D (changing (markProcessAutoWatched i now))) (\<lambda>_.
       reading (buildProcessWorkRow i now) (\<lambda>work.
       andThen (on_ledger (register work)) (\<lambda>_. andThen (refreshWorkAlarm D) (\<lambda>_. ret b))))))
     (\<lambda>r t. r = b \<and> watched_until i (now + DEFAULT_WATCH_TIMEOUT_MS) t) (\<lambda>_ _. True) s"
proof -
  let ?w = "background_watcher D i label now"
  have "wp (refreshWorkAlarm D) (\<lambda>_ t. watched_until i (now + DEFAULT_WATCH_TIMEOUT_MS) t) (\<lambda>_ _. True) u"
    if db: "sv_db u = markProcessAutoWatched i now (upsertWatcher ?w db)"
      and ledger: "sv_ledger u = register (buildProcessWorkRow i now v) l" for u db l and v :: "'a service"
  proof (rule wp_conseq [OF armed_by_watcher])
    show "?w \<in> set (listWatchers (sv_db u))" using kept_watch(1) db by metis
    fix a and t :: "'a service"
    assume t: "sv_db t = sv_db u \<and> sv_ledger t = sv_ledger u \<and> (\<exists>a. sv_alarm t = Some a \<and> a \<le> w_nextPollAt ?w)"
    have "wr_id (buildProcessWorkRow i now v) = i" by (simp add: buildProcessWorkRow_def)
    then obtain r where "get_row i (sv_ledger t) = Some r" "wr_deadlineAt r = wr_deadlineAt (buildProcessWorkRow i now v)"
      using get_row_registered [of "buildProcessWorkRow i now v" l] t ledger by auto
    moreover have "?w \<in> set (listWatchers (sv_db t))" "wasProcessAutoWatched i (sv_db t)"
      using t db kept_watch by metis+
    moreover have "w_processId ?w = i" "w_deadlineAt ?w = now + DEFAULT_WATCH_TIMEOUT_MS"
      by (simp_all add: background_watcher_def)
    ultimately show "watched_until i (now + DEFAULT_WATCH_TIMEOUT_MS) t"
      using t unfolding watched_until_def buildProcessWorkRow_def by fastforce
  qed simp
  then show ?thesis
    unfolding wp_andThen
    by (intro wp_dbw_any) (simp add: wp_simps on_ledger_def, intro wp_dbw_any, simp add: wp_simps)
qed

lemma backgrounded:
  assumes "ce_backgroundLongRunningExec E" "\<not> shouldRefuseBackgrounding E" "ms < sd_maxProcessRuntimeMs (ce_deps E)"
  shows "ends (\<lambda>b. told_truly E (Backgrounded b)) (backgroundResult E i command label ms)"
proof -
  have told: "told_truly E (Backgrounded b) t"
    if "eb_watcherDeadlineAt b = Some d" "watched_until (eb_processId b) d t" "eb_backgroundedAfterMs b = ms" for b d t
    using assms that by simp
  have "wp (backgroundResult E i command label ms) (\<lambda>b. told_truly E (Backgrounded b)) (\<lambda>_ _. True) s" for s
  proof (cases "sd_supportsProcessMonitor (ce_deps E) \<and> canAddWatcher (int (countWatchers (sv_db s)))")
    case False
    then show ?thesis
      using assms by (auto simp: backgroundResult_def Let_def wp_simps backgroundWithoutWatcher_def)
  next
    case True
    note stores = background_stores [THEN wp_conseq]
    have "ends (\<lambda>b. told_truly E (Backgrounded b)) (andThen (refreshGeneration (ce_deps E)) (\<lambda>_. timed (ce_deps E) (\<lambda>now.
        andThen (dbw (ce_deps E) (changing (upsertWatcher (background_watcher (ce_deps E) i label now)))) (\<lambda>_.
        andThen (dbw (ce_deps E) (changing (markProcessAutoWatched i now))) (\<lambda>_.
        reading (buildProcessWorkRow i now) (\<lambda>work.
        andThen (on_ledger (register work)) (\<lambda>_. andThen (refreshWorkAlarm (ce_deps E)) (\<lambda>_. ret (b now)))))))))"
      if b: "\<And>now. eb_watcherDeadlineAt (b now) = Some (now + DEFAULT_WATCH_TIMEOUT_MS) \<and>
        eb_processId (b now) = i \<and> eb_backgroundedAfterMs (b now) = ms" for b
      by (intro ends_andThen [of _ _ "refreshGeneration _"] ends_timed, unfold ends_def, intro allI stores)
         (use b in \<open>auto intro!: told simp del: told_truly.simps\<close>)
    then show ?thesis
      using assms True by (simp add: backgroundResult_def Let_def wp_reading ends_def del: told_truly.simps)
  qed
  then show ?thesis by (simp add: ends_def)
qed

text \<open>A finished command is reported from its row.\<close>

lemma completed: "ends (\<lambda>c t. ec_processId c = i \<and> ec_status c \<noteq> PsRunning \<and> stored_as i (ec_status c) (sv_db t))
    (buildCompletedExecResult E i command label)"
  unfolding buildCompletedExecResult_def requireProcess_service_def ends_def
  by (auto simp: wp_simps stored_as_def split: option.split)

lemma waited:
  assumes "ce_backgroundLongRunningExec E" "\<not> shouldRefuseBackgrounding E"
    and "timeout \<le> sd_maxProcessRuntimeMs (ce_deps E)"
  shows "ends (\<lambda>r t. \<forall>x. r = Some x \<longrightarrow> told_truly E x t)
    (waitForForegroundOrBackground rounds E i command label timeout False)"
proof -
  have finished: "ends (told_truly E) (andThen (buildCompletedExecResult E i command label) (\<lambda>r. ret (Completed (f r))))"
    if "\<And>c. ec_status (f c) = ec_status c \<and> ec_processId (f c) = ec_processId c" for f
    by (rule ends_then_ret, rule ends_mono [OF completed]) (auto simp: that)
  have "ends (told_truly E) (after_wait E i command label timeout ms ended)" for ms ended
    unfolding after_wait_def
    by (intro ends_if ends_andThen [of _ _ "stopTimedOutProcess E i"] finished ends_then_ret backgrounded)
       (use assms in auto)
  then show ?thesis
    unfolding waitForForegroundOrBackground_def Let_def
    by (auto intro!: run_intros ends_then_ret split: option.split elim!: ends_mono)
qed

section \<open>Run to completion\<close>

definition row_status :: "string \<Rightarrow> compute_db \<Rightarrow> process_status option option" where
  "row_status i db = map_option (\<lambda>t. map_option cp_status (sql_row cp_id i t)) (cd_processes db)"

lemma stored_as_row: "stored_as i status db \<longleftrightarrow> row_status i db \<in> {None, Some (Some status)}"
  by (auto simp: stored_as_def row_status_def getProcess_def rowToComputeProcess_def option.map_comp comp_def
      compute_process.defs split: option.split)

text \<open>Output and timestamps leave the status of a row alone.\<close>

definition the_status :: "string \<Rightarrow> 'x service \<Rightarrow> process_status option option" where
  "the_status i s = row_status i (sv_db s)"

lemma row_status_on_processes:
  assumes "\<And>r. cp_id (f r) = cp_id r \<and> cp_status (f r) = cp_status r"
  shows "row_status i (on_processes (sql_update P f) db) = row_status i db"
  using assms by (auto simp: row_status_def on_processes_def sql_row_update option.map_comp comp_def
      intro!: option.map_cong)

lemma keeps_status_dbw: "keeps (row_status i) m \<Longrightarrow> keeps (the_status i) (dbw D m)"
proof -
  assume m: "keeps (row_status i) m"
  have "keeps (the_status i) (on_part sv_db (\<lambda>d s. s\<lparr>sv_db := d\<rparr>) m)"
    using m by (simp add: keeps_def on_part_def the_status_def split: prod.split) (metis fst_conv)
  moreover have "keeps (the_status i) (ext (sd_sql D))"
    unfolding ext_def by (intro keeps_intros) (simp add: the_status_def)
  ultimately show ?thesis unfolding dbw_def by (auto intro: keeps_andThen)
qed

lemma keeps_status_output: "keeps (the_status i) (appendIfAny D j stream t)"
proof -
  have "row_status i (db_appendOutput limits j stream u now db) = row_status i db" for u now limits db
    by (simp add: db_appendOutput_def Let_def row_status_on_processes,
        simp add: row_status_def)
  moreover have "keeps (row_status i) (updateProcess j (counted stream u p))" for u p
    unfolding updateProcess_def
    by (intro keeps_intros, rule row_status_on_processes) (simp add: apply_patch_def counted_def no_patch_def set_if_def split: out_stream.split)
  ultimately show ?thesis
    unfolding appendIfAny_def service_appendOutput_def
    by (auto intro!: keeps_intros keeps_core_timed keeps_status_dbw split: option.split)
qed

lemma keeps_status_rest: "keeps (the_status i) (dbw D (touchLastUsed now))"
  "keeps (the_status i) (refreshRelease D u)" "keeps (the_status i) (emitCommandEvent ev j)"
  unfolding touchLastUsed_def refreshRelease_def quotaRefresh_def armAlarm_def setAlarm_def ext_def emitCommandEvent_def
  by (auto intro!: keeps_intros keeps_core_timed keeps_status_dbw simp: row_status_def the_status_def split: option.split)

lemma sql_row_fresh: "k \<notin> key ` set t \<Longrightarrow> sql_row key k t = None"
  by (auto simp: sql_row_None)

lemma created: "ends (\<lambda>_ t. stored_as (cp_id p) (cp_status p) (sv_db t)) (dbw D (createProcess p))"
  unfolding ends_def
  by (intro allI wp_dbw_any) (auto simp: createProcess_def wp_simps stored_as_def on_processes_def getProcess_def
      process_rows_def sql_row_append sql_row_Cons sql_row_fresh rowToComputeProcess_def
      compute_process.defs split: option.split)

lemma keeps_stored: "keeps (the_status i) m \<Longrightarrow> stored_as i st (sv_db s) \<Longrightarrow>
    wp m (\<lambda>_ t. stored_as i st (sv_db t)) (\<lambda>_ _. True) s"
  by (erule wp_keeps) (auto simp: stored_as_row the_status_def)

lemma ran_directly: "ends (\<lambda>r t. rn_status r \<noteq> PsRunning \<and> stored_as (rn_processId r) (rn_status r) (sv_db t))
    (run_directly E run inp)"
proof -
  have rest: "ends (\<lambda>r t. rn_status r \<noteq> PsRunning \<and> stored_as (rn_processId r) (rn_status r) (sv_db t))
    (andThen (dbw D (createProcess p)) (\<lambda>_.
       andThen (appendIfAny D i Stdout out) (\<lambda>_.
       andThen (appendIfAny D i Stderr err) (\<lambda>_.
       andThen (dbw D (touchLastUsed now)) (\<lambda>_.
       andThen (refreshRelease D u) (\<lambda>_.
       andThen (emitCommandEvent ev i) (\<lambda>_. ret r)))))))"
    if "rn_status r \<noteq> PsRunning" "rn_status r = cp_status p" "rn_processId r = i" "cp_id p = i"
    for D :: "'a deps" and p i out err now u ev r
  proof -
    have kept: "keeps (the_status i) (andThen (appendIfAny D i Stdout out) (\<lambda>_.
       andThen (appendIfAny D i Stderr err) (\<lambda>_.
       andThen (dbw D (touchLastUsed now)) (\<lambda>_.
       andThen (refreshRelease D u) (\<lambda>_. emitCommandEvent ev i)))))"
      by (intro keeps_andThen keeps_status_output keeps_status_rest)
    show ?thesis
      unfolding ends_def wp_andThen [of "dbw D (createProcess p)"]
    proof (intro allI, rule wp_conseq [OF created [of p D, unfolded ends_def \<open>cp_id p = i\<close>, rule_format]])
      fix v :: "'a service"
      assume "stored_as i (cp_status p) (sv_db v)"
      from keeps_stored [OF kept this] that
      show "wp (andThen (appendIfAny D i Stdout out) (\<lambda>_.
         andThen (appendIfAny D i Stderr err) (\<lambda>_.
         andThen (dbw D (touchLastUsed now)) (\<lambda>_.
         andThen (refreshRelease D u) (\<lambda>_.
         andThen (emitCommandEvent ev i) (\<lambda>_. ret r))))))
         (\<lambda>r t. rn_status r \<noteq> PsRunning \<and> stored_as (rn_processId r) (rn_status r) (sv_db t)) (\<lambda>_ _. True) v"
        by (simp add: wp_andThen wp_ret)
    qed simp
  qed
  show ?thesis
    unfolding run_directly_def Let_def
    by (rule ends_andThen, rule ends_andThen, rule ends_uuid, rule ends_timed, rule rest)
       (simp_all add: run_stored_process_def)
qed

lemma ran_by_waiting: "ends (\<lambda>run t. \<forall>r. run = Some r \<longrightarrow>
      rn_status r \<noteq> PsRunning \<and> stored_as (rn_processId r) (rn_status r) (sv_db t)) (run_by_waiting rounds E inp)"
proof -
  have report: "ends (\<lambda>run t. \<forall>r. run = Some r \<longrightarrow>
        rn_status r \<noteq> PsRunning \<and> stored_as (rn_processId r) (rn_status r) (sv_db t))
      (andThen (requireProcess_service i) (\<lambda>p. reading (buildPreview E i) (\<lambda>preview.
        if cp_status p = PsRunning then raise e else ret (Some (r p preview)))))"
    if "\<And>p preview. rn_status (r p preview) = cp_status p \<and> rn_processId (r p preview) = i" for i r e
    unfolding requireProcess_service_def ends_def
    by (auto simp: wp_simps stored_as_def that split: option.split)
  show ?thesis
    unfolding run_by_waiting_def Let_def
  proof (rule ends_andThen, rule ends_andThen, goal_cases)
    case (1 st waited)
    show ?case
      by (cases waited) (auto intro!: ends_ret report)
  qed
qed

lemma ran_to_completion:
  "ends (\<lambda>r t. \<forall>x. r = Some x \<longrightarrow> told_truly E x t) (runExecToCompletion rounds E inp)"
proof -
  have "ends (\<lambda>run t. \<forall>r. run = Some r \<longrightarrow>
      rn_status r \<noteq> PsRunning \<and> stored_as (rn_processId r) (rn_status r) (sv_db t)) (execRun rounds E inp)"
    unfolding execRun_def
    by (rule ends_andThen)
       (auto intro!: ran_by_waiting ends_then_ret intro: ends_mono [OF ran_directly] split: option.split)
  then show ?thesis
    unfolding runExecToCompletion_def by (intro ends_then_ret) (auto elim!: ends_mono)
qed

lemma told_completed: "ends (told_truly E) (andThen (buildCompletedExecResult E i command label) (\<lambda>r. ret (Completed r)))"
  by (rule ends_then_ret, rule ends_mono [OF completed]) auto

lemma exec_told: "ends (\<lambda>r t. \<forall>x. r = Some x \<longrightarrow> told_truly E x t) (exec rounds E inp)"
proof -
  have some: "ends (\<lambda>r t. \<forall>x. r = Some x \<longrightarrow> told_truly E x t) (andThen m (\<lambda>r. ret (Some (f r))))"
    if "ends (told_truly E) (andThen m (\<lambda>r. ret (f r)))" for m :: "('a service, 'b) act" and f
    using that by (simp add: ends_def wp_simps)
  have cancellable: "ends (told_truly E) (runCancellableExecToCompletion E wait inp)" for wait
    unfolding runCancellableExecToCompletion_def Let_def
    by (rule ends_andThen, rule ends_andThen, rule told_completed)
  have background: "ends (\<lambda>r t. \<forall>x. r = Some x \<longrightarrow> told_truly E x t)
      (andThen (startAndStoreProcess E inp) (\<lambda>st. let i = st_processId st in
       if st_status st \<noteq> PsRunning
       then andThen (buildCompletedExecResult E i (xi_command inp) (xi_label inp)) (\<lambda>r. ret (Some (Completed r)))
       else waitForForegroundOrBackground rounds E i (xi_command inp) (xi_label inp) (st_timeoutMs st) False))"
    if "ce_backgroundLongRunningExec E" "\<not> shouldRefuseBackgrounding E"
    unfolding Let_def
    by (rule ends_after [OF started_timeout], intro ends_if some told_completed waited that)
  show ?thesis
    unfolding exec_def
    by (rule ends_andThen)
       (auto intro!: some ran_to_completion background ends_then_ret cancellable ends_mono [OF cancellable] split: option.split)
qed

text \<open>C13: What \<open>exec\<close> tells its caller is true of the thread it leaves behind. A command reported as
  finished is not running, and its stored row says the same; one that timed out was stopped first.
  A command is left in the background only where the deployment allows it and before its own timeout:
  it is then watched, with an alarm no later than the watcher's first poll and a ledger row that
  outlives the watcher, unless it is reported as unwatched, which only happens when the provider
  cannot be monitored or every watcher slot is taken.
\<close>

theorem exec_tells_the_truth:
  assumes "exec rounds E inp s = (t, Inr (Some r))"
  shows "told_truly E r t"
  using exec_told [of E rounds inp] assms unfolding ends_def wp_run by (metis fst_conv snd_conv)

end
