(* ===== verification/Fake_Commands.thy ===== *)
theory Fake_Commands
  imports Command_Termination Command_Safety
begin

text \<open>
  Commands on the fake backend: \<open>sleep\<close> stays running until it is stopped, everything else has
  ended when it is started. The environment keeps the laws the termination of \<open>exec\<close> rests on.
\<close>

definition fake_start :: "backend_reference \<Rightarrow> start_input \<Rightarrow> (outside, start_result) act" where
  "fake_start r si = map_result (\<lambda>(ref, p). \<lparr>sr_process = ref, sr_status = of_fake_status (fp_status p),
       sr_exitCode = fp_exitCode p, sr_stdout = Some (fp_stdout p), sr_stderr = Some (fp_stderr p)\<rparr>)
     (on_fake (startProcess r \<lparr>sp_command = si_command si, sp_cwd = Some (si_cwd si),
       sp_stdin = si_stdin si, sp_completionCallback = si_completionCallback si\<rparr>))"

definition fake_run :: "backend_reference \<Rightarrow> start_input \<Rightarrow> (outside, run_command_result) act" where
  "fake_run r si = on_fake (runCommand r (si_command si) (Some (si_cwd si)) (si_stdin si))"

definition sleep_outside :: "int \<Rightarrow> (outside, unit) act" where
  "sleep_outside t w = (w\<lparr>ow_now := ow_now w + t\<rparr>, Inr ())"

definition fake_commands :: "bool \<Rightarrow> int \<Rightarrow> outside command_env" where
  "fake_commands background pollMs = \<lparr>ce_deps = fake_deps, ce_startProcess = fake_start,
     ce_runCommand = Some fake_run, ce_waitForProcessExit = None, ce_consumesCompletionCallback = False,
     ce_callbackDelaysCompletion = False, ce_backgroundLongRunningExec = background,
     ce_foregroundTimeoutMs = EXEC_FOREGROUND_TIMEOUT_MS, ce_foregroundPollIntervalMs = pollMs,
     ce_sleep = sleep_outside, ce_appBaseUrl = None, ce_betterAuthSecret = None, ce_threadId = None,
     ce_hostname = (\<lambda>_. None), ce_signToken = (\<lambda>_ _ _ _. []),
     ce_limits = \<lparr>tl_tailMaxLines = 200, tl_tailMaxBytes = 100\<rparr>\<rparr>"

section \<open>Its clock\<close>

lemma ticks: "ow_now w \<le> ow_now (fst (on_fake m w))" "ow_now w \<le> ow_now (fst (look_fake g w))"
  "ow_now w \<le> ow_now (fst (n w)) \<Longrightarrow> ow_now w \<le> ow_now (fst (map_result f n w))"
  by (auto simp: on_fake_def look_fake_def map_result_def andThen_def ret_def tick_def
      split: prod.split sum.split)

interpretation fake_clock: steady_clock fake_deps
proof
  show "on_time fake_deps (qg_admit q) \<and> on_time fake_deps (qg_refresh q) \<and> on_time fake_deps (qg_release q)"
    if "sd_quota fake_deps = Some q" for q
    using that by (auto simp: on_time_def fake_deps_def ledger_gate_def tick_def split: prod.split sum.split)
qed (simp_all add: fake_deps_def fake_provider_def on_time_def ticks schedule_outside_def forward_plain,
     simp_all add: tick_def)

interpretation fake_env: sleeping_env "fake_commands b p"
  using fake_clock.steady_clock_axioms
  by (simp add: sleeping_env_def sleeping_env_axioms_def fake_commands_def sleep_outside_def fake_deps_def)

section \<open>Runs\<close>

definition command :: "string \<Rightarrow> exec_input" where
  "command c = \<lparr>xi_command = c, xi_cwd = None, xi_env = None, xi_stdin = None, xi_timeoutMs = None, xi_label = None\<rparr>"


lemma exec_returns_witness:
  "snd (exec 3600001 (fake_commands True 500) (command ''sleep 60'') new_thread) \<noteq> Inr None \<and>
   snd (execRun 3600001 (fake_commands True 500) (command ''sleep 60'') new_thread) \<noteq> Inr None"
proof (rule exec_returns [OF fake_env.sleeping_env_axioms])
  show "nat (sd_maxProcessRuntimeMs (ce_deps (fake_commands True 500))) < 3600001"
    by (simp add: fake_commands_def fake_deps_def)
qed

text \<open>The process id and the watcher's deadline of a command left in the background.\<close>

fun left_running :: "compute_error + exec_result option \<Rightarrow> (string \<times> int option) option" where
  "left_running (Inr (Some (Backgrounded b))) = Some (eb_processId b, eb_watcherDeadlineAt b)"
| "left_running _ = None"

lemma left_running_Some: "left_running r = Some (i, d) \<longleftrightarrow>
    (\<exists>b. r = Inr (Some (Backgrounded b)) \<and> eb_processId b = i \<and> eb_watcherDeadlineAt b = d)"
  by (cases r rule: left_running.cases) auto

lemma exec_tells_the_truth_witness:
  "watched_until ''proc_nonce-1'' 311010 (fst (exec 3 (fake_commands True 5000) (command ''sleep 60'') new_thread))"
proof -
  have "left_running (snd (exec 3 (fake_commands True 5000) (command ''sleep 60'') new_thread)) =
      Some (''proc_nonce-1'', Some 311010)" by code_simp
  then obtain b where b: "snd (exec 3 (fake_commands True 5000) (command ''sleep 60'') new_thread) =
      Inr (Some (Backgrounded b))" "eb_processId b = ''proc_nonce-1''" "eb_watcherDeadlineAt b = Some 311010"
    by (auto simp: left_running_Some)
  have "told_truly (fake_commands True 5000) (Backgrounded b)
      (fst (exec 3 (fake_commands True 5000) (command ''sleep 60'') new_thread))"
    by (rule exec_tells_the_truth [OF prod_eqI]) (simp, simp add: b(1) [simplified])
  then show ?thesis by (simp add: b)
qed

end
