(* ===== verification/Patch.thy ===== *)
theory Patch
  imports Workspace_Paths "HOL-Library.AList"
begin

text \<open>
  \<open>src/src/compute/files/patch.ts\<close>: the patch grammar of the \<open>apply_patch\<close> tool, the duplicate
  check on its paths, and the hunk algebra. The reference semantics of a patched file is the
  inductive relation \<open>placed\<close>.
\<close>

section \<open>Data\<close>

datatype hunk_line = ContextLine string | RemoveLine string | AddLine string

type_synonym hunk = "hunk_line list"

datatype patch_operation =
    AddFile string string
  | UpdateFile string "string option" "hunk list"
  | DeleteFile string

datatype building = BuildingAdd string "string list" | BuildingUpdate string "string option" "hunk list"

fun line_text :: "hunk_line \<Rightarrow> string" where
  "line_text (ContextLine t) = t"
| "line_text (RemoveLine t) = t"
| "line_text (AddLine t) = t"

fun is_add :: "hunk_line \<Rightarrow> bool" where
  "is_add (AddLine _) = True"
| "is_add _ = False"

fun is_remove :: "hunk_line \<Rightarrow> bool" where
  "is_remove (RemoveLine _) = True"
| "is_remove _ = False"

definition matcher :: "hunk \<Rightarrow> string list" where
  "matcher h = map line_text (filter (\<lambda>l. \<not> is_add l) h)"

definition replacement :: "hunk \<Rightarrow> string list" where
  "replacement h = map line_text (filter (\<lambda>l. \<not> is_remove l) h)"

fun op_path :: "patch_operation \<Rightarrow> string" where
  "op_path (AddFile p _) = p"
| "op_path (UpdateFile p _ _) = p"
| "op_path (DeleteFile p) = p"

section \<open>Parsing\<close>

abbreviation malformed :: compute_error where
  "malformed \<equiv> compute_error CePatchMalformed"

definition flush :: "patch_operation list \<Rightarrow> building option \<Rightarrow> compute_error + patch_operation list" where
  "flush operations current =
     (case current of
        None \<Rightarrow> Inr operations
      | Some (BuildingAdd path contentLines) \<Rightarrow>
          Inr (operations @ [AddFile path
            (if contentLines \<noteq> [] then js_join [LF] contentLines @ [LF] else [])])
      | Some (BuildingUpdate path moveTo hunks) \<Rightarrow>
          if list_ex (\<lambda>h. matcher h = []) hunks then Inl malformed
          else Inr (operations @ [UpdateFile path moveTo hunks]))"

definition push_line :: "hunk_line \<Rightarrow> hunk list \<Rightarrow> hunk list" where
  "push_line l hunks = butlast hunks @ [last hunks @ [l]]"

type_synonym parse_state = "patch_operation list \<times> building option"

definition start_op ::
    "building option \<Rightarrow> parse_state \<Rightarrow> (patch_operation list \<Rightarrow> patch_operation list) \<Rightarrow>
     compute_error + parse_state" where
  "start_op next_building st push =
     (case flush (fst st) (snd st) of Inl e \<Rightarrow> Inl e
      | Inr operations \<Rightarrow> Inr (push operations, next_building))"

definition hunk_line_of :: "string \<Rightarrow> hunk_line option" where
  "hunk_line_of line =
     (if startsWith line '' '' then Some (ContextLine (drop 1 line))
      else if startsWith line ''-'' then Some (RemoveLine (drop 1 line))
      else if startsWith line ''+'' then Some (AddLine (drop 1 line))
      else None)"

definition parse_content_line :: "string \<Rightarrow> parse_state \<Rightarrow> compute_error + parse_state" where
  "parse_content_line line st =
     (case snd st of
        None \<Rightarrow> Inl malformed
      | Some (BuildingAdd path contentLines) \<Rightarrow>
          if \<not> startsWith line ''+'' then Inl malformed
          else Inr (fst st, Some (BuildingAdd path (contentLines @ [drop 1 line])))
      | Some (BuildingUpdate path moveTo hunks) \<Rightarrow>
          if hunks = [] then Inl malformed
          else (case hunk_line_of line of None \<Rightarrow> Inl malformed
            | Some l \<Rightarrow> Inr (fst st, Some (BuildingUpdate path moveTo (push_line l hunks)))))"

definition parse_move :: "string \<Rightarrow> parse_state \<Rightarrow> compute_error + parse_state" where
  "parse_move target st =
     (case snd st of
        Some (BuildingUpdate path None hunks) \<Rightarrow>
          Inr (fst st, Some (BuildingUpdate path (Some target) hunks))
      | _ \<Rightarrow> Inl malformed)"

definition parse_hunk_start :: "parse_state \<Rightarrow> compute_error + parse_state" where
  "parse_hunk_start st =
     (case snd st of
        Some (BuildingUpdate path moveTo hunks) \<Rightarrow>
          Inr (fst st, Some (BuildingUpdate path moveTo (hunks @ [[]])))
      | _ \<Rightarrow> Inl malformed)"

definition parse_blank :: "parse_state \<Rightarrow> compute_error + parse_state" where
  "parse_blank st =
     (case snd st of
        None \<Rightarrow> Inr st
      | Some (BuildingAdd _ _) \<Rightarrow> Inl malformed
      | Some (BuildingUpdate path moveTo hunks) \<Rightarrow>
          if hunks = [] then Inl malformed
          else Inr (fst st, Some (BuildingUpdate path moveTo (push_line (ContextLine []) hunks))))"

definition parse_line :: "string \<Rightarrow> parse_state \<Rightarrow> compute_error + parse_state" where
  "parse_line line st =
     (case match_rest ''*** Add File: '' line of
        Some path \<Rightarrow> start_op (Some (BuildingAdd path [])) st id
      | None \<Rightarrow>
     (case match_rest ''*** Delete File: '' line of
        Some path \<Rightarrow> start_op None st (\<lambda>operations. operations @ [DeleteFile path])
      | None \<Rightarrow>
     (case match_rest ''*** Update File: '' line of
        Some path \<Rightarrow> start_op (Some (BuildingUpdate path None [])) st id
      | None \<Rightarrow>
     (case match_rest ''*** Move to: '' line of
        Some target \<Rightarrow> parse_move target st
      | None \<Rightarrow>
          if startsWith line ''@@'' then parse_hunk_start st
          else if line = [] then parse_blank st
          else if startsWith line ''*** '' then Inl malformed
          else parse_content_line line st))))"

fun parse_lines :: "string list \<Rightarrow> parse_state \<Rightarrow> compute_error + parse_state" where
  "parse_lines [] st = Inr st"
| "parse_lines (l # ls) st =
     (case parse_line l st of Inl e \<Rightarrow> Inl e | Inr st' \<Rightarrow> parse_lines ls st')"

definition begin_marker :: string where "begin_marker = ''*** Begin Patch''"
definition end_marker :: string where "end_marker = ''*** End Patch''"

text \<open>\<open>lines.indexOf(x)\<close> when \<open>x\<close> is there.\<close>

definition index_of :: "'a \<Rightarrow> 'a list \<Rightarrow> nat" where
  "index_of x xs = length (takeWhile (\<lambda>y. y \<noteq> x) xs)"

text \<open>The canonical paths a patch deletes: deletions and the sources of moves.\<close>

fun deleted_paths :: "patch_operation list \<Rightarrow> compute_error + string list" where
  "deleted_paths [] = Inr []"
| "deleted_paths (operation # ops) =
     (case operation of
        DeleteFile path \<Rightarrow>
          (case normalizeWorkspacePath path of Inl e \<Rightarrow> Inl e
           | Inr p \<Rightarrow> map_sum id (\<lambda>ps. p # ps) (deleted_paths ops))
      | UpdateFile path (Some _) _ \<Rightarrow>
          (case normalizeWorkspacePath path of Inl e \<Rightarrow> Inl e
           | Inr p \<Rightarrow> map_sum id (\<lambda>ps. p # ps) (deleted_paths ops))
      | _ \<Rightarrow> deleted_paths ops)"

definition op_destination :: "patch_operation \<Rightarrow> string option" where
  "op_destination operation =
     (case operation of
        AddFile path _ \<Rightarrow> Some path
      | UpdateFile path None _ \<Rightarrow> Some path
      | UpdateFile _ (Some target) _ \<Rightarrow> Some target
      | DeleteFile _ \<Rightarrow> None)"

fun check_duplicates ::
    "string list \<Rightarrow> string list \<Rightarrow> string list \<Rightarrow> patch_operation list \<Rightarrow> compute_error + unit" where
  "check_duplicates deleted sources destinations [] = Inr ()"
| "check_duplicates deleted sources destinations (operation # ops) =
     (case normalizeWorkspacePath (op_path operation) of
        Inl e \<Rightarrow> Inl e
      | Inr source \<Rightarrow>
          if source \<in> set sources then Inl (compute_error CePatchDuplicatePath)
          else (case op_destination operation of
             None \<Rightarrow> check_duplicates deleted (source # sources) destinations ops
           | Some target \<Rightarrow>
               (case normalizeWorkspacePath target of
                  Inl e \<Rightarrow> Inl e
                | Inr destination \<Rightarrow>
                    if destination \<in> set destinations \<or> destination \<in> set deleted
                    then Inl (compute_error CePatchDuplicatePath)
                    else check_duplicates deleted (source # sources) (destination # destinations) ops)))"

definition assertNoDuplicatePaths :: "patch_operation list \<Rightarrow> compute_error + unit" where
  "assertNoDuplicatePaths operations =
     (case deleted_paths operations of Inl e \<Rightarrow> Inl e
      | Inr deleted \<Rightarrow> check_duplicates deleted [] [] operations)"

definition parsePatch :: "string \<Rightarrow> compute_error + patch_operation list" where
  "parsePatch text =
     (let lines = split_crlf text;
          beginCount = length (filter (\<lambda>l. l = begin_marker) lines);
          endCount = length (filter (\<lambda>l. l = end_marker) lines)
      in if beginCount \<noteq> 1 \<or> endCount \<noteq> 1 then Inl malformed
         else let beginIndex = index_of begin_marker lines;
                  endIndex = index_of end_marker lines
              in if endIndex \<le> beginIndex then Inl malformed
                 else case parse_lines (take (endIndex - (beginIndex + 1)) (drop (beginIndex + 1) lines))
                        ([], None) of
                   Inl e \<Rightarrow> Inl e
                 | Inr (operations, current) \<Rightarrow>
                     (case flush operations current of Inl e \<Rightarrow> Inl e
                      | Inr operations \<Rightarrow>
                          (case assertNoDuplicatePaths operations of Inl e \<Rightarrow> Inl e
                           | Inr _ \<Rightarrow> Inr operations)))"

section \<open>Applying\<close>

definition indexOfSubsequence :: "string list \<Rightarrow> string list \<Rightarrow> nat \<Rightarrow> nat option" where
  "indexOfSubsequence haystack needle start =
     find (\<lambda>i. take (length needle) (drop i haystack) = needle)
       [start ..< Suc (length haystack) - length needle]"

fun apply_hunks_from ::
    "string list \<Rightarrow> hunk list \<Rightarrow> nat \<Rightarrow> string list \<Rightarrow> compute_error + string list" where
  "apply_hunks_from lines [] cursor out = Inr (out @ drop cursor lines)"
| "apply_hunks_from lines (h # hs) cursor out =
     (case indexOfSubsequence lines (matcher h) cursor of
        None \<Rightarrow>
          (case indexOfSubsequence lines (matcher h) 0 of
             None \<Rightarrow> Inl (compute_error CePatchHunkMismatch)
           | Some earlier \<Rightarrow>
               if earlier < cursor then Inl (compute_error CePatchHunkOverlap)
               else Inl (compute_error CePatchHunkMismatch))
      | Some index \<Rightarrow>
          apply_hunks_from lines hs (index + length (matcher h))
            (out @ take (index - cursor) (drop cursor lines) @ replacement h))"

definition applyHunks :: "string \<Rightarrow> hunk list \<Rightarrow> compute_error + string" where
  "applyHunks original hunks =
     map_sum id (js_join [LF]) (apply_hunks_from (js_split LF original) hunks 0 [])"

type_synonym patch_result = "(string \<times> string) list \<times> string list"

definition set_insert :: "string \<Rightarrow> string list \<Rightarrow> string list" where
  "set_insert x xs = (if x \<in> set xs then xs else xs @ [x])"

fun apply_operations ::
    "patch_operation list \<Rightarrow> (string \<rightharpoonup> string) \<Rightarrow> patch_result \<Rightarrow> compute_error + patch_result" where
  "apply_operations [] files r = Inr r"
| "apply_operations (operation # ops) files (writes, deletes) =
     (case operation of
        AddFile path content \<Rightarrow>
          if files path \<noteq> None then Inl (compute_error CePatchFileExists)
          else apply_operations ops files (AList.update path content writes, deletes)
      | DeleteFile path \<Rightarrow>
          if files path = None then Inl (compute_error CePatchMissingFile)
          else apply_operations ops files (writes, set_insert path deletes)
      | UpdateFile path moveTo hunks \<Rightarrow>
          (case files path of
             None \<Rightarrow> Inl (compute_error CePatchMissingFile)
           | Some original \<Rightarrow>
               (case applyHunks original hunks of
                  Inl e \<Rightarrow> Inl e
                | Inr updated \<Rightarrow>
                    apply_operations ops files
                      (AList.update (case moveTo of None \<Rightarrow> path | Some t \<Rightarrow> t) updated writes,
                       if moveTo \<noteq> None then set_insert path deletes else deletes))))"

definition applyPatchToFiles ::
    "patch_operation list \<Rightarrow> (string \<rightharpoonup> string) \<Rightarrow> compute_error + patch_result" where
  "applyPatchToFiles operations files = apply_operations operations files ([], [])"

section \<open>The hunk algebra\<close>

text \<open>
  \<open>placed ls hunks out\<close>: the hunks match disjoint runs of \<open>ls\<close>, in order, and \<open>out\<close> is \<open>ls\<close>
  with each run replaced and everything between them kept.
\<close>

inductive placed :: "string list \<Rightarrow> hunk list \<Rightarrow> string list \<Rightarrow> bool" where
  placed_end: "placed ls [] ls"
| placed_hunk: "placed rest hs out \<Longrightarrow>
    placed (gap @ matcher h @ rest) (h # hs) (gap @ replacement h @ out)"

inductive_cases placed_ConsE: "placed ls (h # hs) out"
inductive_simps placed_Nil [simp]: "placed ls [] out"

definition occurs_at :: "string list \<Rightarrow> string list \<Rightarrow> nat \<Rightarrow> bool" where
  "occurs_at haystack needle i \<longleftrightarrow> i + length needle \<le> length haystack \<and>
     take (length needle) (drop i haystack) = needle"

lemma indexOfSubsequence_Some:
  "indexOfSubsequence haystack needle start = Some i \<longleftrightarrow>
     start \<le> i \<and> occurs_at haystack needle i \<and> (\<forall>j. start \<le> j \<and> j < i \<longrightarrow> \<not> occurs_at haystack needle j)"
proof -
  have "indexOfSubsequence haystack needle start = Some i \<longleftrightarrow>
      (\<exists>k < Suc (length haystack) - length needle - start.
         occurs_at haystack needle (start + k) \<and> start + k = i \<and>
         (\<forall>j < k. \<not> occurs_at haystack needle (start + j)))"
    by (auto simp: indexOfSubsequence_def find_Some_iff occurs_at_def less_diff_conv)
  also have "\<dots> \<longleftrightarrow> start \<le> i \<and> occurs_at haystack needle i \<and>
      (\<forall>j. start \<le> j \<and> j < i \<longrightarrow> \<not> occurs_at haystack needle j)" (is "?L \<longleftrightarrow> ?R")
  proof
    assume ?L
    then obtain k where "occurs_at haystack needle (start + k)" "start + k = i"
      and least: "\<forall>j < k. \<not> occurs_at haystack needle (start + j)" by blast
    moreover have "\<not> occurs_at haystack needle j" if "start \<le> j" "j < i" for j
      using least [rule_format, of "j - start"] that \<open>start + k = i\<close> by simp
    ultimately show ?R by auto
  next
    assume R: ?R
    then have "i - start < Suc (length haystack) - length needle - start"
      by (auto simp: occurs_at_def)
    with R show ?L by (intro exI [of _ "i - start"]) auto
  qed
  finally show ?thesis .
qed

lemma indexOfSubsequence_None:
  "indexOfSubsequence haystack needle start = None \<longleftrightarrow> (\<forall>i \<ge> start. \<not> occurs_at haystack needle i)"
  by (auto simp: indexOfSubsequence_def find_None_iff occurs_at_def)

lemma occurs_at_append: "occurs_at (pre @ needle @ post) needle (length pre)"
  by (simp add: occurs_at_def)

lemma occurs_at_split:
  "occurs_at ls needle i \<Longrightarrow> ls = take i ls @ needle @ drop (i + length needle) ls"
  by (metis append_take_drop_id drop_drop add.commute occurs_at_def)

lemma placed_extend: "placed xs hs out \<Longrightarrow> placed (pre @ xs) hs (pre @ out)"
proof (induction rule: placed.induct)
  case (placed_hunk rest hs out gap h)
  from placed.placed_hunk [OF placed_hunk.hyps, of "pre @ gap"] show ?case by simp
qed simp

lemma placed_drop_later:
  assumes "placed (drop j ls) hs out" and "i \<le> j"
  shows "\<exists>out'. placed (drop i ls) hs out'"
proof -
  have "drop i ls = take (j - i) (drop i ls) @ drop j ls"
    using assms(2) by (metis append_take_drop_id drop_drop le_add_diff_inverse2)
  with placed_extend [OF assms(1), of "take (j - i) (drop i ls)"] show ?thesis by metis
qed

lemma placed_hunk_at:
  assumes "placed (drop cursor ls) (h # hs) out" and "cursor \<le> length ls"
  shows "\<exists>j \<ge> cursor. occurs_at ls (matcher h) j \<and>
    (\<exists>out'. placed (drop (j + length (matcher h)) ls) hs out')"
proof -
  from assms(1) obtain gap rest out' where split: "drop cursor ls = gap @ matcher h @ rest"
    and rest: "placed rest hs out'"
    by (auto elim: placed_ConsE)
  then have ls: "ls = (take cursor ls @ gap) @ matcher h @ rest"
    by (metis append_assoc append_take_drop_id)
  have len: "length (take cursor ls @ gap) = cursor + length gap" using assms(2) by simp
  have "occurs_at ls (matcher h) (cursor + length gap)"
    using occurs_at_append [of "take cursor ls @ gap" "matcher h" rest] ls len by metis
  moreover have "drop (cursor + length gap + length (matcher h)) ls = rest"
    using ls len by (metis append_eq_conv_conj append_assoc length_append)
  ultimately show ?thesis using rest by (intro exI [of _ "cursor + length gap"]) auto
qed

lemma apply_hunks_from_spec:
  "cursor \<le> length lines \<Longrightarrow>
     (case apply_hunks_from lines hunks cursor out of
        Inr r \<Rightarrow> \<exists>out'. placed (drop cursor lines) hunks out' \<and> r = out @ out'
      | Inl e \<Rightarrow> (\<nexists>out'. placed (drop cursor lines) hunks out') \<and>
          e \<in> {compute_error CePatchHunkMismatch, compute_error CePatchHunkOverlap})"
proof (induction hunks arbitrary: cursor out)
  case (Cons h hs)
  show ?case
  proof (cases "indexOfSubsequence lines (matcher h) cursor")
    case None
    then have "\<not> occurs_at lines (matcher h) i" if "cursor \<le> i" for i
      using that by (simp add: indexOfSubsequence_None)
    then have "\<nexists>out'. placed (drop cursor lines) (h # hs) out'"
      using placed_hunk_at [OF _ Cons.prems] by blast
    with None show ?thesis by (simp split: option.split)
  next
    case (Some i)
    then have i: "cursor \<le> i" and occ: "occurs_at lines (matcher h) i"
      and least: "\<forall>j. cursor \<le> j \<and> j < i \<longrightarrow> \<not> occurs_at lines (matcher h) j"
      by (auto simp: indexOfSubsequence_Some)
    let ?next = "i + length (matcher h)" and ?gap = "take (i - cursor) (drop cursor lines)"
    have split: "drop cursor lines = ?gap @ matcher h @ drop ?next lines"
    proof -
      have "drop i lines = matcher h @ drop ?next lines"
        using occ by (metis add.commute append_take_drop_id drop_drop occurs_at_def)
      moreover have "drop cursor lines = ?gap @ drop i lines"
        using i by (metis append_take_drop_id drop_drop le_add_diff_inverse2)
      ultimately show ?thesis by simp
    qed
    have "?next \<le> length lines" using occ by (simp add: occurs_at_def)
    note IH = Cons.IH [OF this, of "out @ ?gap @ replacement h"]
    show ?thesis
    proof (cases "apply_hunks_from lines hs ?next (out @ ?gap @ replacement h)")
      case (Inr r)
      with IH obtain out' where "placed (drop ?next lines) hs out'"
        and "r = (out @ ?gap @ replacement h) @ out'" by auto
      moreover from this(1) have "placed (drop cursor lines) (h # hs) (?gap @ replacement h @ out')"
        using placed_hunk [of "drop ?next lines" hs out' ?gap h] by (simp only: split [symmetric])
      ultimately show ?thesis using Some Inr by auto
    next
      case (Inl e)
      have "\<nexists>out'. placed (drop cursor lines) (h # hs) out'"
      proof
        assume "\<exists>out'. placed (drop cursor lines) (h # hs) out'"
        then obtain j out' where "cursor \<le> j" "occurs_at lines (matcher h) j"
          "placed (drop (j + length (matcher h)) lines) hs out'"
          using placed_hunk_at [OF _ Cons.prems] by blast
        moreover from this least have "i \<le> j" by (metis leI)
        ultimately show False
          using placed_drop_later [of "j + length (matcher h)" lines hs out' ?next] IH Inl by auto
      qed
      with IH Inl Some show ?thesis by simp
    qed
  qed
qed auto

text \<open>C29: \<open>applyHunks\<close> finds a placement of the hunks whenever there is one, and the text it returns
  is the original with each matched run replaced and every other line kept; when it throws, the
  hunks do not fit the file in order, at all.\<close>

theorem applyHunks_exact:
  "case applyHunks original hunks of
     Inr text \<Rightarrow> \<exists>ls. placed (js_split LF original) hunks ls \<and> text = js_join [LF] ls
   | Inl e \<Rightarrow> (\<nexists>ls. placed (js_split LF original) hunks ls) \<and>
       e \<in> {compute_error CePatchHunkMismatch, compute_error CePatchHunkOverlap}"
  using apply_hunks_from_spec [of 0 "js_split LF original" hunks "[]"]
  by (cases "apply_hunks_from (js_split LF original) hunks 0 []") (auto simp: applyHunks_def)

section \<open>Writes and deletes never meet\<close>

fun destinations_of :: "patch_operation list \<Rightarrow> string list" where
  "destinations_of [] = []"
| "destinations_of (operation # ops) =
     (case op_destination operation of None \<Rightarrow> [] | Some d \<Rightarrow> [d]) @ destinations_of ops"

fun removed_of :: "patch_operation list \<Rightarrow> string list" where
  "removed_of [] = []"
| "removed_of (operation # ops) =
     (case operation of DeleteFile p \<Rightarrow> [p] | UpdateFile p (Some _) _ \<Rightarrow> [p] | _ \<Rightarrow> []) @ removed_of ops"

lemma deleted_paths_Inr:
  "deleted_paths ops = Inr ds \<Longrightarrow> map normalizeWorkspacePath (removed_of ops) = map Inr ds"
proof (induction ops arbitrary: ds)
  case (Cons operation ops)
  then show ?case
    by (cases operation; cases "deleted_paths ops") (auto split: option.splits sum.splits)
qed simp

lemma check_duplicates_Inr:
  "check_duplicates deleted sources destinations ops = Inr u \<Longrightarrow>
     \<exists>cs. map normalizeWorkspacePath (destinations_of ops) = map Inr cs \<and> distinct cs \<and>
       set cs \<inter> (set destinations \<union> set deleted) = {}"
proof (induction ops arbitrary: sources destinations)
  case (Cons operation ops)
  obtain source where src: "normalizeWorkspacePath (op_path operation) = Inr source"
    and new: "source \<notin> set sources"
    using Cons.prems by (auto split: sum.splits if_splits)
  show ?case
  proof (cases "op_destination operation")
    case None
    with Cons.prems src new have
      "check_duplicates deleted (source # sources) destinations ops = Inr u" by simp
    with Cons.IH None show ?thesis by simp
  next
    case (Some target)
    then obtain c where c: "normalizeWorkspacePath target = Inr c"
      "c \<notin> set destinations" "c \<notin> set deleted"
      "check_duplicates deleted (source # sources) (c # destinations) ops = Inr u"
      using Cons.prems src new by (auto split: sum.splits if_splits)
    from Cons.IH [OF c(4)] obtain cs where
      "map normalizeWorkspacePath (destinations_of ops) = map Inr cs" "distinct cs"
      "set cs \<inter> (set (c # destinations) \<union> set deleted) = {}" by blast
    with c Some show ?thesis by (intro exI [of _ "c # cs"]) auto
  qed
qed simp

lemma apply_operations_step:
  assumes "apply_operations (operation # ops) files (w, d) = Inr r"
  shows "\<exists>w1 d1. apply_operations ops files (w1, d1) = Inr r \<and>
    (case op_destination operation of None \<Rightarrow> w1 = w | Some t \<Rightarrow> \<exists>v. w1 = AList.update t v w) \<and>
    set d1 = set d \<union> set (removed_of [operation])"
proof (cases operation)
  case (UpdateFile path moveTo hunks)
  let ?t = "case moveTo of None \<Rightarrow> path | Some t \<Rightarrow> t"
  and ?d = "if moveTo \<noteq> None then set_insert path d else d"
  obtain original updated where "files path = Some original" "applyHunks original hunks = Inr updated"
    "apply_operations ops files (AList.update ?t updated w, ?d) = Inr r"
    using assms UpdateFile by (auto split: option.splits sum.splits)
  then show ?thesis using UpdateFile
    by (intro exI [of _ "AList.update ?t updated w"] exI [of _ ?d])
      (auto simp: op_destination_def set_insert_def split: option.splits)
qed (use assms in \<open>auto simp: op_destination_def set_insert_def split: if_splits\<close>)

lemma keys_AList_update_new:
  "k \<notin> set (map fst w) \<Longrightarrow> map fst (AList.update k v w) = map fst w @ [k]"
  by (induction w) auto

lemma apply_operations_Inr:
  "apply_operations ops files (w, d) = Inr (w', d') \<Longrightarrow>
     distinct (map fst w @ destinations_of ops) \<Longrightarrow>
     map fst w' = map fst w @ destinations_of ops \<and> set d' = set d \<union> set (removed_of ops)"
proof (induction ops arbitrary: w d)
  case (Cons operation ops)
  from apply_operations_step [OF Cons.prems(1)] obtain w1 d1 where
    run: "apply_operations ops files (w1, d1) = Inr (w', d')"
    and w1: "case op_destination operation of None \<Rightarrow> w1 = w | Some t \<Rightarrow> \<exists>v. w1 = AList.update t v w"
    and d1: "set d1 = set d \<union> set (removed_of [operation])" by blast
  have keys: "map fst w1 = map fst w @ (case op_destination operation of None \<Rightarrow> [] | Some t \<Rightarrow> [t])"
    using w1 Cons.prems(2) by (cases "op_destination operation") (auto simp: keys_AList_update_new)
  have "distinct (map fst w1 @ destinations_of ops)"
    using Cons.prems(2) by (simp add: keys)
  from Cons.IH [OF run this] show ?case by (auto simp: keys d1)
qed simp

lemma parsePatch_checked: "parsePatch text = Inr ops \<Longrightarrow> assertNoDuplicatePaths ops = Inr ()"
  by (auto simp: parsePatch_def Let_def split: if_splits sum.splits prod.splits)

lemma inj_on_map_Inr:
  "map f xs = map Inr cs \<Longrightarrow> distinct cs \<Longrightarrow> distinct xs \<and> inj_on f (set xs)"
proof -
  assume eq: "map f xs = map Inr cs" and "distinct cs"
  then have "distinct (map f xs)" by (simp add: distinct_map)
  then show ?thesis by (simp add: distinct_map)
qed


section \<open>Printing a patch\<close>

fun render_line :: "hunk_line \<Rightarrow> string" where
  "render_line (ContextLine t) = '' '' @ t"
| "render_line (RemoveLine t) = ''-'' @ t"
| "render_line (AddLine t) = ''+'' @ t"

definition content_lines :: "string \<Rightarrow> string list" where
  "content_lines content = (if content = [] then [] else butlast (js_split LF content))"

fun render_op :: "patch_operation \<Rightarrow> string list" where
  "render_op (AddFile path content) =
     (''*** Add File: '' @ path) # map (Cons (CHR ''+'')) (content_lines content)"
| "render_op (UpdateFile path moveTo hunks) =
     (''*** Update File: '' @ path) #
     (case moveTo of None \<Rightarrow> [] | Some t \<Rightarrow> [''*** Move to: '' @ t]) @
     concat (map (\<lambda>h. ''@@'' # map render_line h) hunks)"
| "render_op (DeleteFile path) = [''*** Delete File: '' @ path]"

definition renderPatch :: "patch_operation list \<Rightarrow> string" where
  "renderPatch ops = js_join [LF] (begin_marker # concat (map render_op ops) @ [end_marker])"

definition path_ok :: "string \<Rightarrow> bool" where
  "path_ok p \<longleftrightarrow> p \<noteq> [] \<and> \<not> has_terminator p"

definition text_ok :: "string \<Rightarrow> bool" where
  "text_ok t \<longleftrightarrow> LF \<notin> set t \<and> CR \<notin> set t"

fun op_ok :: "patch_operation \<Rightarrow> bool" where
  "op_ok (AddFile path content) \<longleftrightarrow>
     path_ok path \<and> CR \<notin> set content \<and> (content = [] \<or> last content = LF)"
| "op_ok (UpdateFile path moveTo hunks) \<longleftrightarrow>
     path_ok path \<and> (case moveTo of None \<Rightarrow> True | Some t \<Rightarrow> path_ok t) \<and>
     list_all (\<lambda>h. matcher h \<noteq> [] \<and> list_all (\<lambda>l. text_ok (line_text l)) h) hunks"
| "op_ok (DeleteFile path) \<longleftrightarrow> path_ok path"

lemma parse_lines_append:
  "parse_lines (xs @ ys) st =
     (case parse_lines xs st of Inl e \<Rightarrow> Inl e | Inr st' \<Rightarrow> parse_lines ys st')"
  by (induction xs arbitrary: st) (auto split: sum.splits)

lemma parse_line_headers:
  "path_ok p \<Longrightarrow> parse_line (''*** Add File: '' @ p) st = start_op (Some (BuildingAdd p [])) st id"
  "path_ok p \<Longrightarrow> parse_line (''*** Delete File: '' @ p) st =
     start_op None st (\<lambda>operations. operations @ [DeleteFile p])"
  "path_ok p \<Longrightarrow> parse_line (''*** Update File: '' @ p) st =
     start_op (Some (BuildingUpdate p None [])) st id"
  "path_ok p \<Longrightarrow> parse_line (''*** Move to: '' @ p) st = parse_move p st"
  by (simp_all add: parse_line_def match_rest_def path_ok_def)

lemma parse_line_hunk_start: "parse_line ''@@'' st = parse_hunk_start st"
  by (simp add: parse_line_def match_rest_def)

lemma parse_line_content:
  "c \<noteq> CHR ''*'' \<Longrightarrow> c \<noteq> CHR ''@'' \<Longrightarrow> parse_line (c # l) st = parse_content_line (c # l) st"
  by (simp add: parse_line_def match_rest_def)

lemma parse_add_lines:
  "parse_lines (map (Cons (CHR ''+'')) ls) (ops, Some (BuildingAdd p cs)) =
     Inr (ops, Some (BuildingAdd p (cs @ ls)))"
  by (induction ls arbitrary: cs) (simp_all add: parse_line_content parse_content_line_def)

lemma parse_render_line:
  "parse_line (render_line l) (ops, Some (BuildingUpdate p mv (hs @ [h]))) =
     Inr (ops, Some (BuildingUpdate p mv (hs @ [h @ [l]])))"
  by (cases l) (simp_all add: parse_line_content parse_content_line_def hunk_line_of_def push_line_def)

lemma parse_hunk_lines:
  "parse_lines (map render_line h) (ops, Some (BuildingUpdate p mv (hs @ [h0]))) =
     Inr (ops, Some (BuildingUpdate p mv (hs @ [h0 @ h])))"
  by (induction h arbitrary: h0) (simp_all add: parse_render_line)

lemma parse_hunks:
  "parse_lines (concat (map (\<lambda>h. ''@@'' # map render_line h) gs)) (ops, Some (BuildingUpdate p mv hs)) =
     Inr (ops, Some (BuildingUpdate p mv (hs @ gs)))"
  by (induction gs arbitrary: hs)
    (simp_all add: parse_line_hunk_start parse_hunk_start_def parse_lines_append parse_hunk_lines)

lemma content_lines_join:
  assumes "content \<noteq> []" and "last content = LF"
  shows "content_lines content \<noteq> [] \<and> js_join [LF] (content_lines content) @ [LF] = content"
proof -
  obtain c0 where c: "content = c0 @ [LF]" using assms by (metis append_butlast_last_id)
  then have "content_lines content = js_split LF c0"
    by (simp add: content_lines_def js_split_snoc)
  with c show ?thesis by simp
qed

lemma parse_render_op:
  assumes "op_ok operation" and "flush before current = Inr ops0"
  shows "\<exists>ops' current'. parse_lines (render_op operation) (before, current) = Inr (ops', current') \<and>
    flush ops' current' = Inr (ops0 @ [operation])"
proof (cases operation)
  case (AddFile path content)
  then have ok: "path_ok path" and c: "content = [] \<or> last content = LF" using assms(1) by auto
  have "parse_lines (render_op operation) (before, current) =
      Inr (ops0, Some (BuildingAdd path (content_lines content)))"
    using AddFile assms(2) parse_line_headers(1) [OF ok, of "(before, current)"]
      parse_add_lines [of "content_lines content" ops0 path "[]"]
    by (simp add: start_op_def)
  moreover have "flush ops0 (Some (BuildingAdd path (content_lines content))) =
      Inr (ops0 @ [operation])"
    using AddFile c content_lines_join [of content]
    by (cases "content = []") (simp_all add: flush_def content_lines_def)
  ultimately show ?thesis by blast
next
  case (UpdateFile path moveTo hunks)
  then have ok: "path_ok path" "case moveTo of None \<Rightarrow> True | Some t \<Rightarrow> path_ok t"
    "\<not> list_ex (\<lambda>h. matcher h = []) hunks"
    using assms(1) by (auto simp: list_ex_iff list_all_iff)
  then show ?thesis
    using UpdateFile assms(2)
    by (cases moveTo)
      (auto simp: parse_line_headers [simplified] start_op_def parse_move_def parse_hunks [simplified]
        flush_def)
next
  case (DeleteFile path)
  then show ?thesis
    using assms by (auto simp: parse_line_headers [simplified] start_op_def flush_def)
qed

lemma parse_render_ops:
  "list_all op_ok ops \<Longrightarrow> flush before current = Inr ops0 \<Longrightarrow>
     \<exists>ops' current'. parse_lines (concat (map render_op ops)) (before, current) = Inr (ops', current') \<and>
       flush ops' current' = Inr (ops0 @ ops)"
proof (induction ops arbitrary: before current ops0)
  case (Cons operation ops)
  then obtain o1 c1 where step: "parse_lines (render_op operation) (before, current) = Inr (o1, c1)"
    and fl: "flush o1 c1 = Inr (ops0 @ [operation])"
    using parse_render_op [of operation before current ops0] by auto
  from Cons.IH [OF _ fl] Cons.prems obtain o2 c2 where
    "parse_lines (concat (map render_op ops)) (o1, c1) = Inr (o2, c2)"
    "flush o2 c2 = Inr ((ops0 @ [operation]) @ ops)" by auto
  with step show ?case by (simp add: parse_lines_append)
qed simp

lemma text_ok_append [simp]: "text_ok (a @ b) \<longleftrightarrow> text_ok a \<and> text_ok b"
  by (auto simp: text_ok_def)

lemma path_ok_text: "path_ok p \<Longrightarrow> text_ok p"
  using has_terminator_chars by (simp add: path_ok_def text_ok_def)

definition body_line :: "string \<Rightarrow> bool" where
  "body_line l \<longleftrightarrow> text_ok l \<and> l \<noteq> begin_marker \<and> l \<noteq> end_marker"

lemma body_line_literals:
  "text_ok p \<Longrightarrow> body_line (''*** Add File: '' @ p)"
  "text_ok p \<Longrightarrow> body_line (''*** Delete File: '' @ p)"
  "text_ok p \<Longrightarrow> body_line (''*** Update File: '' @ p)"
  "text_ok p \<Longrightarrow> body_line (''*** Move to: '' @ p)"
  "text_ok p \<Longrightarrow> body_line (''+'' @ p)"
  "body_line ''@@''"
  by (simp_all add: body_line_def text_ok_def begin_marker_def end_marker_def LF_def CR_def)

lemma body_line_render_line: "text_ok (line_text l) \<Longrightarrow> body_line (render_line l)"
  by (cases l) (simp_all add: body_line_def text_ok_def begin_marker_def end_marker_def LF_def CR_def)

lemma content_lines_text: "CR \<notin> set content \<Longrightarrow> l \<in> set (content_lines content) \<Longrightarrow> text_ok l"
  using js_split_parts js_split_chars
  by (fastforce simp: content_lines_def text_ok_def dest: in_set_butlastD split: if_splits)

lemma render_op_body: "op_ok operation \<Longrightarrow> list_all body_line (render_op operation)"
proof (cases operation)
  case (AddFile path content)
  assume "op_ok operation"
  with AddFile have "text_ok path" "CR \<notin> set content" by (auto dest: path_ok_text)
  with AddFile show ?thesis
    using body_line_literals(1) [of path] body_line_literals(5) content_lines_text [of content]
    by (auto simp: list_all_iff)
next
  case (UpdateFile path moveTo hunks)
  assume ok: "op_ok operation"
  with UpdateFile have "text_ok path" by (auto dest: path_ok_text)
  have "list_all body_line (case moveTo of None \<Rightarrow> [] | Some t \<Rightarrow> [''*** Move to: '' @ t])"
    using ok UpdateFile body_line_literals(4) by (auto dest: path_ok_text split: option.splits)
  moreover have "list_all body_line (concat (map (\<lambda>h. ''@@'' # map render_line h) hunks))"
    using ok UpdateFile body_line_literals(6) body_line_render_line by (fastforce simp: list_all_iff)
  ultimately show ?thesis
    using UpdateFile body_line_literals(3) [OF \<open>text_ok path\<close>] by simp
next
  case (DeleteFile path)
  assume "op_ok operation"
  with DeleteFile show ?thesis using body_line_literals(2) [of path] by (auto dest: path_ok_text)
qed

lemma index_of_append: "x \<notin> set xs \<Longrightarrow> index_of x (xs @ x # ys) = length xs"
  by (induction xs) (auto simp: index_of_def)

lemma marker_lines:
  assumes "list_all body_line body"
  defines "lines \<equiv> begin_marker # body @ [end_marker]"
  shows "split_crlf (js_join [LF] lines) = lines"
    and "length (filter (\<lambda>l. l = begin_marker) lines) = 1"
    and "length (filter (\<lambda>l. l = end_marker) lines) = 1"
    and "index_of begin_marker lines = 0"
    and "index_of end_marker lines = Suc (length body)"
proof -
  have ne: "begin_marker \<noteq> end_marker" by (simp add: begin_marker_def end_marker_def)
  have fresh: "begin_marker \<notin> set body" "end_marker \<notin> set body"
    using assms(1) by (auto simp: list_all_iff body_line_def)
  have "text_ok begin_marker" "text_ok end_marker"
    by (simp_all add: text_ok_def begin_marker_def end_marker_def LF_def CR_def)
  then have "\<forall>l \<in> set lines. LF \<notin> set l \<and> CR \<notin> set l"
    using assms(1) by (auto simp: lines_def list_all_iff body_line_def text_ok_def)
  then show "split_crlf (js_join [LF] lines) = lines"
    by (intro split_crlf_join) (simp_all add: lines_def)
  have "filter (\<lambda>l. l = begin_marker) body = []" "filter (\<lambda>l. l = end_marker) body = []"
    using fresh by (auto simp: filter_empty_conv)
  then show "length (filter (\<lambda>l. l = begin_marker) lines) = 1"
    and "length (filter (\<lambda>l. l = end_marker) lines) = 1"
    using ne by (simp_all add: lines_def)
  show "index_of begin_marker lines = 0" by (simp add: lines_def index_of_def)
  show "index_of end_marker lines = Suc (length body)"
    using index_of_append [of end_marker "begin_marker # body" "[]"] fresh ne by (simp add: lines_def)
qed

text \<open>C31: the parser reads back every patch its grammar can print: printing well-formed operations
  with no duplicate path and parsing the text returns the same operations.\<close>

theorem parsePatch_roundtrip:
  assumes "list_all op_ok ops" and "assertNoDuplicatePaths ops = Inr ()"
  shows "parsePatch (renderPatch ops) = Inr ops"
proof -
  let ?body = "concat (map render_op ops)"
  let ?lines = "begin_marker # ?body @ [end_marker]"
  have body: "list_all body_line ?body"
    using assms(1) render_op_body by (fastforce simp: list_all_iff)
  note lines = marker_lines [OF body]
  have "flush [] None = Inr []" by (simp add: flush_def)
  from parse_render_ops [OF assms(1) this] obtain ops' current' where
    parsed: "parse_lines ?body ([], None) = Inr (ops', current')" "flush ops' current' = Inr ops"
    by auto
  have slice: "take (Suc (length ?body) - (0 + 1)) (drop (0 + 1) ?lines) = ?body" by simp
  show ?thesis
    unfolding parsePatch_def renderPatch_def Let_def lines slice
    using assms(2) by (simp add: parsed)
qed

definition demo_patch :: "patch_operation list" where
  "demo_patch = [AddFile ''a'' [CHR ''x'', LF], UpdateFile ''b'' (Some ''c'')
     [[ContextLine ''k'', RemoveLine ''o'', AddLine ''n'']], DeleteFile ''d'']"

theorem parsePatch_roundtrip_witness:
  "parsePatch (renderPatch demo_patch) = Inr demo_patch"
proof -
  have "list_all op_ok demo_patch"
    by (simp add: demo_patch_def path_ok_def text_ok_def matcher_def LF_def CR_def)
  moreover have "assertNoDuplicatePaths demo_patch = Inr ()" by code_simp
  ultimately show ?thesis by (rule parsePatch_roundtrip)
qed


end
