(* ===== verification/File_Service.thy ===== *)
theory File_Service
  imports Patch Fake_Backend "HOL-Library.Char_ord" "HOL-Library.List_Lexorder"
begin

text \<open>
  \<open>src/src/compute/file-service.ts\<close>: the bounded reads, optimistic writes and patch commits of the
  file tools, over any backend. The lemmas about commits hold in the locale \<open>file_backend\<close>, that
  is, under the documented contract of the backend, which the fake backend interprets.

  Parameters: \<open>sha\<close> is \<open>sha256Hex\<close>, \<open>uuid n\<close> the \<open>n\<close>-th \<open>crypto.randomUUID()\<close> of a commit. The
  callbacks that acquire the runtime, refresh the lease and clear the clean bit are given by the
  error they throw, if they do; they do not touch the runtime's files. Path lists sort by bytes.
\<close>

section \<open>Inputs\<close>

record file_env =
  fe_readMaxBytes :: nat
  fe_readMaxLines :: int
  fe_maxDownloadBytes :: nat
  fe_maxUploadBytes :: nat
  fe_markDirty :: "compute_error option"
  fe_resolveRuntime :: "compute_error option"
  fe_refreshLease :: "compute_error option"
  fe_start :: int
  fe_end :: int

record read_result =
  rr_path :: string
  rr_startLine :: int
  rr_endLine :: int
  rr_truncated :: bool
  rr_content :: string
  rr_hash :: string

record file_event =
  ev_success :: bool
  ev_durationMs :: int
  ev_byteCount :: nat
  ev_operationCount :: nat

record resolved_path =
  rp_normalized :: string
  rp_leaf :: "path_info option"

definition attempt :: "compute_error option \<Rightarrow> compute_error + unit" where
  "attempt e = (case e of None \<Rightarrow> Inr () | Some x \<Rightarrow> Inl x)"

definition emitMutation :: "file_env \<Rightarrow> bool \<Rightarrow> nat \<Rightarrow> nat \<Rightarrow> file_event" where
  "emitMutation env success byteCount operationCount =
     \<lparr>ev_success = success, ev_durationMs = max 0 (fe_end env - fe_start env),
      ev_byteCount = byteCount, ev_operationCount = operationCount\<rparr>"

section \<open>Reading\<close>

definition fileLines :: "string \<Rightarrow> string list" where
  "fileLines content =
     (if content = [] then []
      else let lines = js_split LF content
           in if last lines = [] then butlast lines else lines)"

definition numbered_line :: "int \<Rightarrow> string \<Rightarrow> string" where
  "numbered_line n text = int_string n @ '': '' @ text"

definition readTextFile ::
    "'s file_backend \<Rightarrow> (string \<Rightarrow> string) \<Rightarrow> string \<Rightarrow> nat \<Rightarrow> 's \<Rightarrow> compute_error + string \<times> string" where
  "readTextFile B sha normalized maxBytes s =
     (case fb_read B normalized maxBytes s of Inl e \<Rightarrow> Inl e
      | Inr bytes \<Rightarrow>
          (case decodeTextFile bytes of Inl e \<Rightarrow> Inl e
           | Inr content \<Rightarrow> Inr (content, sha bytes)))"

definition readFile_service ::
    "'s file_backend \<Rightarrow> (string \<Rightarrow> string) \<Rightarrow> file_env \<Rightarrow> string \<Rightarrow> int option \<Rightarrow> int option \<Rightarrow> 's \<Rightarrow>
     compute_error + read_result" where
  "readFile_service B sha env path startLineOpt maxLinesOpt s =
     (case attempt (fe_resolveRuntime env) of Inl e \<Rightarrow> Inl e | Inr _ \<Rightarrow>
     (case assertPathContained (\<lambda>p. fb_inspect B p s) path of Inl e \<Rightarrow> Inl e | Inr normalized \<Rightarrow>
     (case readTextFile B sha normalized (fe_readMaxBytes env) s of Inl e \<Rightarrow> Inl e
      | Inr (content, hash) \<Rightarrow>
     (case attempt (fe_refreshLease env) of Inl e \<Rightarrow> Inl e | Inr _ \<Rightarrow>
        (let lines = fileLines content;
             startLine = max 1 (case startLineOpt of None \<Rightarrow> 1 | Some n \<Rightarrow> n);
             maxLines = min (max 0 (case maxLinesOpt of None \<Rightarrow> fe_readMaxLines env | Some n \<Rightarrow> n))
                            (fe_readMaxLines env);
             from_line = startLine - 1;
             to_line = min (from_line + maxLines) (int (length lines));
             selected = (if from_line < int (length lines)
                         then take (nat to_line - nat from_line) (drop (nat from_line) lines) else [])
         in Inr \<lparr>rr_path = path, rr_startLine = startLine,
                  rr_endLine = startLine + int (length selected) - 1,
                  rr_truncated = (to_line < int (length lines)),
                  rr_content = js_join [LF]
                    (map (\<lambda>(i, t). numbered_line (startLine + int i) t) (enumerate 0 selected)),
                  rr_hash = hash\<rparr>)))))"

section \<open>Writing\<close>

definition readCurrent ::
    "'s file_backend \<Rightarrow> (string \<Rightarrow> string) \<Rightarrow> file_env \<Rightarrow> string \<Rightarrow> 's \<Rightarrow>
     compute_error + (string \<times> string) option" where
  "readCurrent B sha env normalized s =
     (case fb_inspect B normalized s of Inl e \<Rightarrow> Inl e
      | Inr None \<Rightarrow> Inr None
      | Inr (Some info) \<Rightarrow>
          if pi_type info \<noteq> FileT then Inr None
          else map_sum id Some (readTextFile B sha normalized (fe_maxDownloadBytes env) s))"

definition check_expected :: "string \<Rightarrow> string option \<Rightarrow> (string \<times> string) option \<Rightarrow> compute_error + unit" where
  "check_expected path expectedHash current =
     (case current of
        Some (_, hash) \<Rightarrow>
          if expectedHash \<noteq> Some hash then Inl (compute_stale_file_error path hash) else Inr ()
      | None \<Rightarrow>
          if expectedHash \<noteq> None then Inl (compute_error CeStaleFile) else Inr ())"

definition write_attempt ::
    "'s file_backend \<Rightarrow> (string \<Rightarrow> string) \<Rightarrow> file_env \<Rightarrow> string \<Rightarrow> string \<Rightarrow> string option \<Rightarrow> bool \<Rightarrow> 's \<Rightarrow>
     's \<times> (compute_error + unit)" where
  "write_attempt B sha env path bytes expectedHash parents s =
     (case attempt (fe_resolveRuntime env) of Inl e \<Rightarrow> (s, Inl e) | Inr _ \<Rightarrow>
     (case assertPathContained (\<lambda>p. fb_inspect B p s) path of Inl e \<Rightarrow> (s, Inl e) | Inr normalized \<Rightarrow>
     (case readCurrent B sha env normalized s of Inl e \<Rightarrow> (s, Inl e) | Inr current \<Rightarrow>
     (case check_expected path expectedHash current of Inl e \<Rightarrow> (s, Inl e) | Inr _ \<Rightarrow>
     (case fb_write B normalized bytes parents (current \<noteq> None) s of
        (s1, Inl e) \<Rightarrow> (s1, Inl e)
      | (s1, Inr _) \<Rightarrow> (s1, attempt (fe_refreshLease env)))))))"

text \<open>The state, the events emitted, and the hash and size written.\<close>

definition writeFile_service ::
    "'s file_backend \<Rightarrow> (string \<Rightarrow> string) \<Rightarrow> file_env \<Rightarrow> string \<Rightarrow> string \<Rightarrow> string option \<Rightarrow> bool \<Rightarrow> 's \<Rightarrow>
     's \<times> file_event list \<times> (compute_error + string \<times> nat)" where
  "writeFile_service B sha env path content expectedHash parents s =
     (case attempt (fe_markDirty env) of Inl e \<Rightarrow> (s, [], Inl e)
      | Inr _ \<Rightarrow>
          (let failed = emitMutation env False (length content) 1 in
           if length content > fe_maxUploadBytes env
           then (s, [failed], Inl (compute_error CeFileTooLarge))
           else case write_attempt B sha env path content expectedHash parents s of
             (s1, Inl e) \<Rightarrow> (s1, [failed], Inl e)
           | (s1, Inr _) \<Rightarrow>
               (s1, [emitMutation env True (length content) 1], Inr (sha content, length content))))"

section \<open>Patching\<close>

text \<open>\<open>resolve\<close> caches, per spelling, the contained path and what was seen there.\<close>

definition resolve_path ::
    "'s file_backend \<Rightarrow> string \<Rightarrow> (string \<rightharpoonup> resolved_path) \<Rightarrow> 's \<Rightarrow>
     compute_error + resolved_path \<times> (string \<rightharpoonup> resolved_path)" where
  "resolve_path B rel resolved s =
     (case resolved rel of
        Some entry \<Rightarrow> Inr (entry, resolved)
      | None \<Rightarrow>
          (case assertPathContained (\<lambda>p. fb_inspect B p s) rel of Inl e \<Rightarrow> Inl e
           | Inr normalized \<Rightarrow>
               (case fb_inspect B normalized s of Inl e \<Rightarrow> Inl e
                | Inr leaf \<Rightarrow>
                    (let entry = \<lparr>rp_normalized = normalized, rp_leaf = leaf\<rparr>
                     in Inr (entry, resolved(rel \<mapsto> entry))))))"

definition require_absent ::
    "'s file_backend \<Rightarrow> string \<Rightarrow> (string \<rightharpoonup> resolved_path) \<Rightarrow> 's \<Rightarrow>
     's \<times> (compute_error + (string \<rightharpoonup> resolved_path))" where
  "require_absent B rel resolved s =
     (case resolve_path B rel resolved s of Inl e \<Rightarrow> (s, Inl e)
      | Inr (entry, resolved1) \<Rightarrow>
          (case fb_exists B (rp_normalized entry) s of
             (s1, Inl e) \<Rightarrow> (s1, Inl e)
           | (s1, Inr True) \<Rightarrow> (s1, Inl (compute_error CePatchFileExists))
           | (s1, Inr False) \<Rightarrow> (s1, Inr resolved1)))"

type_synonym snapshot = "(string \<rightharpoonup> resolved_path) \<times> (string \<rightharpoonup> string)"

definition validate_source ::
    "'s file_backend \<Rightarrow> (string \<Rightarrow> string) \<Rightarrow> file_env \<Rightarrow> (string \<rightharpoonup> string) \<Rightarrow> string \<Rightarrow> snapshot \<Rightarrow> 's \<Rightarrow>
     compute_error + snapshot" where
  "validate_source B sha env expectedHashes path snap s =
     (case resolve_path B path (fst snap) s of Inl e \<Rightarrow> Inl e
      | Inr (entry, resolved1) \<Rightarrow>
          if (case rp_leaf entry of None \<Rightarrow> True | Some info \<Rightarrow> pi_type info \<noteq> FileT)
          then Inl (compute_error CePatchMissingFile)
          else (case readTextFile B sha (rp_normalized entry) (fe_maxDownloadBytes env) s of
             Inl e \<Rightarrow> Inl e
           | Inr (content, hash) \<Rightarrow>
               if expectedHashes path \<noteq> Some hash then Inl (compute_stale_file_error path hash)
               else Inr (resolved1, (snd snap)(path \<mapsto> content))))"

fun prevalidate ::
    "'s file_backend \<Rightarrow> (string \<Rightarrow> string) \<Rightarrow> file_env \<Rightarrow> (string \<rightharpoonup> string) \<Rightarrow> patch_operation list \<Rightarrow>
     snapshot \<Rightarrow> 's \<Rightarrow> 's \<times> (compute_error + snapshot)" where
  "prevalidate B sha env expectedHashes [] snap s = (s, Inr snap)"
| "prevalidate B sha env expectedHashes (operation # ops) snap s =
     (case operation of
        AddFile path _ \<Rightarrow>
          (case require_absent B path (fst snap) s of
             (s1, Inl e) \<Rightarrow> (s1, Inl e)
           | (s1, Inr resolved1) \<Rightarrow> prevalidate B sha env expectedHashes ops (resolved1, snd snap) s1)
      | UpdateFile path (Some target) _ \<Rightarrow>
          (case validate_source B sha env expectedHashes path snap s of
             Inl e \<Rightarrow> (s, Inl e)
           | Inr snap1 \<Rightarrow>
               (case require_absent B target (fst snap1) s of
                  (s1, Inl e) \<Rightarrow> (s1, Inl e)
                | (s1, Inr resolved1) \<Rightarrow>
                    prevalidate B sha env expectedHashes ops (resolved1, snd snap1) s1))
      | _ \<Rightarrow>
          (case validate_source B sha env expectedHashes (op_path operation) snap s of
             Inl e \<Rightarrow> (s, Inl e)
           | Inr snap1 \<Rightarrow> prevalidate B sha env expectedHashes ops snap1 s))"

subsection \<open>The commit\<close>

definition temp_name :: "string \<Rightarrow> string \<Rightarrow> string" where
  "temp_name destination u = destination @ ''.nadi-tmp-'' @ u"

fun stage_writes ::
    "'s file_backend \<Rightarrow> (nat \<Rightarrow> string) \<Rightarrow> (string \<rightharpoonup> resolved_path) \<Rightarrow> nat \<Rightarrow> (string \<times> string) list \<Rightarrow> 's \<Rightarrow>
     's \<times> (string \<times> string) list \<times> (compute_error + unit)" where
  "stage_writes B uuid resolved n [] s = (s, [], Inr ())"
| "stage_writes B uuid resolved n ((rel, content) # writes) s =
     (case resolved rel of
        None \<Rightarrow> (s, [], Inl (compute_error CeInvalidPath))
      | Some entry \<Rightarrow>
          (let temp = temp_name (rp_normalized entry) (uuid n) in
           case fb_write B temp content True False s of
             (s1, Inl e) \<Rightarrow> (s1, [], Inl e)
           | (s1, Inr _) \<Rightarrow>
               (case stage_writes B uuid resolved (n + 1) writes s1 of
                  (s2, staged, r) \<Rightarrow> (s2, (temp, rp_normalized entry) # staged, r))))"

fun move_staged ::
    "'s file_backend \<Rightarrow> (string \<times> string) list \<Rightarrow> 's \<Rightarrow> 's \<times> (compute_error + unit)" where
  "move_staged B [] s = (s, Inr ())"
| "move_staged B ((temp, destination) # staged) s =
     (case fb_move B temp destination True s of
        (s1, Inl e) \<Rightarrow> (s1, Inl e)
      | (s1, Inr _) \<Rightarrow> move_staged B staged s1)"

fun delete_removed ::
    "'s file_backend \<Rightarrow> (string \<rightharpoonup> resolved_path) \<Rightarrow> string list \<Rightarrow> 's \<Rightarrow> 's \<times> (compute_error + unit)" where
  "delete_removed B resolved [] s = (s, Inr ())"
| "delete_removed B resolved (rel # rels) s =
     (case resolved rel of
        None \<Rightarrow> (s, Inl (compute_error CeInvalidPath))
      | Some entry \<Rightarrow>
          (case fb_delete B (rp_normalized entry) s of
             (s1, Inl e) \<Rightarrow> (s1, Inl e)
           | (s1, Inr _) \<Rightarrow> delete_removed B resolved rels s1))"

text \<open>The best-effort removal of the temporary files; its own failures are swallowed.\<close>

definition drop_staged :: "'s file_backend \<Rightarrow> (string \<times> string) list \<Rightarrow> 's \<Rightarrow> 's" where
  "drop_staged B staged s = fold (\<lambda>(temp, _) s. fst (fb_delete B temp s)) staged s"

definition partial_write :: "(string \<times> string) list \<Rightarrow> string list \<Rightarrow> compute_error \<Rightarrow> compute_error" where
  "partial_write writes deletes e = ComputePartialWriteError (sort (remdups (map fst writes @ deletes)))
     (''compute_partial_write: '' @ error_message e)"

definition commit ::
    "'s file_backend \<Rightarrow> (nat \<Rightarrow> string) \<Rightarrow> (string \<rightharpoonup> resolved_path) \<Rightarrow> (string \<times> string) list \<Rightarrow>
     string list \<Rightarrow> 's \<Rightarrow> 's \<times> (compute_error + unit)" where
  "commit B uuid resolved writes deletes s =
     (case stage_writes B uuid resolved 0 writes s of
        (s1, staged, Inl e) \<Rightarrow>
          (drop_staged B staged s1,
           Inl (if staged = [] then e else partial_write writes deletes e))
      | (s1, staged, Inr _) \<Rightarrow>
          (case move_staged B staged s1 of
             (s2, Inl e) \<Rightarrow> (drop_staged B staged s2, Inl (partial_write writes deletes e))
           | (s2, Inr _) \<Rightarrow>
               (case delete_removed B resolved deletes s2 of
                  (s3, Inl e) \<Rightarrow> (drop_staged B staged s3, Inl (partial_write writes deletes e))
                | (s3, Inr _) \<Rightarrow> (s3, Inr ()))))"

definition patch_attempt ::
    "'s file_backend \<Rightarrow> (string \<Rightarrow> string) \<Rightarrow> (nat \<Rightarrow> string) \<Rightarrow> file_env \<Rightarrow> (string \<rightharpoonup> string) \<Rightarrow>
     patch_operation list \<Rightarrow> 's \<Rightarrow> 's \<times> (compute_error + patch_result)" where
  "patch_attempt B sha uuid env expectedHashes operations s =
     (case prevalidate B sha env expectedHashes operations (Map.empty, Map.empty) s of
        (s1, Inl e) \<Rightarrow> (s1, Inl e)
      | (s1, Inr (resolved, files)) \<Rightarrow>
          (case applyPatchToFiles operations files of
             Inl e \<Rightarrow> (s1, Inl e)
           | Inr (writes, deletes) \<Rightarrow>
               (case commit B uuid resolved writes deletes s1 of
                  (s2, Inl e) \<Rightarrow> (s2, Inl e)
                | (s2, Inr _) \<Rightarrow>
                    (case attempt (fe_refreshLease env) of Inl e \<Rightarrow> (s2, Inl e)
                     | Inr _ \<Rightarrow> (s2, Inr (writes, deletes))))))"

text \<open>The state, the events, and the numbers of operations, writes and deletes.\<close>

definition applyPatch_service ::
    "'s file_backend \<Rightarrow> (string \<Rightarrow> string) \<Rightarrow> (nat \<Rightarrow> string) \<Rightarrow> file_env \<Rightarrow> string \<Rightarrow> (string \<rightharpoonup> string) \<Rightarrow>
     's \<Rightarrow> 's \<times> file_event list \<times> (compute_error + nat \<times> nat \<times> nat)" where
  "applyPatch_service B sha uuid env patch expectedHashes s =
     (case attempt (fe_markDirty env) of Inl e \<Rightarrow> (s, [], Inl e)
      | Inr _ \<Rightarrow>
     (case attempt (fe_resolveRuntime env) of Inl e \<Rightarrow> (s, [emitMutation env False 0 0], Inl e)
      | Inr _ \<Rightarrow>
     (case parsePatch patch of Inl e \<Rightarrow> (s, [emitMutation env False 0 0], Inl e)
      | Inr operations \<Rightarrow>
     (case patch_attempt B sha uuid env expectedHashes operations s of
        (s1, Inl e) \<Rightarrow> (s1, [emitMutation env False 0 (length operations)], Inl e)
      | (s1, Inr (writes, deletes)) \<Rightarrow>
          (s1, [emitMutation env True (sum_list (map (length \<circ> snd) writes)) (length operations)],
           Inr (length operations, length writes, length deletes))))))"

section \<open>What a commit does to the files\<close>

text \<open>The temporary name, destination and content of every write, as long as paths are resolved.\<close>

fun staging ::
    "(nat \<Rightarrow> string) \<Rightarrow> (string \<rightharpoonup> resolved_path) \<Rightarrow> nat \<Rightarrow> (string \<times> string) list \<Rightarrow>
     (string \<times> string \<times> string) list" where
  "staging uuid resolved n [] = []"
| "staging uuid resolved n ((rel, content) # writes) =
     (case resolved rel of None \<Rightarrow> []
      | Some entry \<Rightarrow> (temp_name (rp_normalized entry) (uuid n), rp_normalized entry, content) #
          staging uuid resolved (n + 1) writes)"

definition temps :: "(string \<times> string \<times> string) list \<Rightarrow> string list" where
  "temps P = map fst P"

definition dests :: "(string \<times> string \<times> string) list \<Rightarrow> string list" where
  "dests P = map (fst \<circ> snd) P"

lemma temps_simps [simp]: "temps [] = []" "temps ((t, d, c) # P) = t # temps P"
  by (simp_all add: temps_def)

lemma dests_simps [simp]: "dests [] = []" "dests ((t, d, c) # P) = d # dests P"
  by (simp_all add: dests_def)

definition written :: "(string \<times> string \<times> string) list \<Rightarrow> string \<rightharpoonup> string" where
  "written P = map_of (map snd P)"

definition staged_files :: "(string \<times> string \<times> string) list \<Rightarrow> string \<rightharpoonup> string" where
  "staged_files P = map_of (map (\<lambda>(t, d, c). (t, c)) P)"

text \<open>Names that do not get in each other's way.\<close>

definition separate :: "(string \<times> string \<times> string) list \<Rightarrow> bool" where
  "separate P \<longleftrightarrow> distinct (temps P) \<and> distinct (dests P) \<and>
     (\<forall>t \<in> set (temps P). \<forall>d \<in> set (dests P). \<not> within d t \<and> \<not> within t d) \<and>
     (\<forall>d \<in> set (dests P). \<forall>d' \<in> set (dests P). \<not> below d d') \<and>
     (\<forall>t \<in> set (temps P). \<forall>t' \<in> set (temps P). \<not> below t t')"

lemma separate_Cons:
  "separate ((t, d, c) # P) \<Longrightarrow> separate P \<and> t \<notin> set (temps P) \<and> d \<notin> set (dests P)"
  by (auto simp: separate_def)

lemma staged_files_simps [simp]:
  "staged_files [] = Map.empty"
  "staged_files ((t, d, c) # P) = (staged_files P)(t \<mapsto> c)"
  by (simp_all add: staged_files_def)

lemma written_None: "d \<notin> set (dests P) \<Longrightarrow> written P d = None"
  by (induction P) (auto simp: written_def)

lemma staged_None: "t \<notin> set (temps P) \<Longrightarrow> staged_files P t = None"
  by (induction P) (auto simp: staged_files_def)

fun created_path :: "patch_operation \<Rightarrow> string option" where
  "created_path (AddFile p _) = Some p"
| "created_path (UpdateFile _ moveTo _) = moveTo"
| "created_path (DeleteFile _) = None"

context file_backend
begin

lemma write_frame_all:
  "fb_write B p b parents ow s = (s', res) \<Longrightarrow> q \<noteq> p \<Longrightarrow> view s' q = view s q"
  using write_ok write_frame by (cases res) fastforce+

lemma delete_frame_all:
  "fb_delete B p s = (s', res) \<Longrightarrow> \<not> within p q \<Longrightarrow> view s' q = view s q"
  using delete_ok delete_frame by (cases res) fastforce+

lemma stage_frame:
  "stage_writes B uuid resolved n writes s = (s', staged, r) \<Longrightarrow>
     q \<notin> set (temps (staging uuid resolved n writes)) \<Longrightarrow> view s' q = view s q"
proof (induction writes arbitrary: n s s' staged r)
  case (Cons w writes)
  obtain rel content where w: "w = (rel, content)" by (cases w)
  show ?case
  proof (cases "resolved rel")
    case None
    with Cons.prems w show ?thesis by simp
  next
    case (Some entry)
    obtain s1 r1 where wr: "fb_write B (temp_name (rp_normalized entry) (uuid n)) content True False s = (s1, r1)"
      by fastforce
    have "q \<noteq> temp_name (rp_normalized entry) (uuid n)" using Cons.prems(2) w Some by simp
    note frame = write_frame_all [OF wr this]
    show ?thesis
    proof (cases r1)
      case (Inl e)
      with Cons.prems(1) w Some wr frame show ?thesis by simp
    next
      case (Inr u)
      obtain s2 st2 r2 where rest: "stage_writes B uuid resolved (n + 1) writes s1 = (s2, st2, r2)"
        using prod_cases3 by blast
      with Cons.prems w Some wr Inr have "s' = s2" by simp
      with Cons.IH [OF rest] Cons.prems(2) w Some frame show ?thesis by simp
    qed
  qed
qed simp

lemma stage_staged:
  "stage_writes B uuid resolved n writes s = (s', staged, r) \<Longrightarrow>
     set (map fst staged) \<subseteq> set (temps (staging uuid resolved n writes))"
proof (induction writes arbitrary: n s s' staged r)
  case (Cons w writes)
  obtain rel content where w: "w = (rel, content)" by (cases w)
  show ?case
  proof (cases "resolved rel")
    case (Some entry)
    obtain s1 r1 where wr: "fb_write B (temp_name (rp_normalized entry) (uuid n)) content True False s = (s1, r1)"
      by fastforce
    obtain s2 st2 r2 where rest: "stage_writes B uuid resolved (n + 1) writes s1 = (s2, st2, r2)"
      using prod_cases3 by blast
    show ?thesis
    proof (cases r1)
      case (Inr u)
      then have "staged = (temp_name (rp_normalized entry) (uuid n), rp_normalized entry) # st2"
        using Cons.prems w Some wr rest by simp
      with Cons.IH [OF rest] w Some show ?thesis by (simp add: subset_insertI2)
    qed (use Cons.prems w Some wr in simp)
  qed (use Cons.prems w in simp)
qed simp

lemma stage_length:
  "stage_writes B uuid resolved n writes s = (s', staged, Inr u) \<Longrightarrow>
     length (staging uuid resolved n writes) = length writes"
proof (induction writes arbitrary: n s s' staged)
  case (Cons w writes)
  then show ?case
    by (cases w) (auto simp: Let_def split: option.splits prod.splits sum.splits)
qed simp

lemma stage_ok:
  "stage_writes B uuid resolved n writes s = (s', staged, Inr u) \<Longrightarrow>
     distinct (temps (staging uuid resolved n writes)) \<Longrightarrow>
     length (staging uuid resolved n writes) = length writes \<and>
     staged = map (\<lambda>(t, d, c). (t, d)) (staging uuid resolved n writes) \<and>
     (\<forall>q. view s' q = (case staged_files (staging uuid resolved n writes) q of
         Some c \<Rightarrow> Some c | None \<Rightarrow> view s q)) \<and>
     (\<forall>t \<in> set (temps (staging uuid resolved n writes)). view s t = None)"
proof (induction writes arbitrary: n s s' staged)
  case (Cons w writes)
  obtain rel content where w: "w = (rel, content)" by (cases w)
  obtain entry where Some: "resolved rel = Some entry"
    using Cons.prems(1) w by (cases "resolved rel") auto
  let ?t = "temp_name (rp_normalized entry) (uuid n)"
  obtain s1 u1 where wr: "fb_write B ?t content True False s = (s1, Inr u1)"
    using Cons.prems(1) w Some by (auto simp: Let_def split: prod.splits sum.splits)
  obtain st2 where rest: "stage_writes B uuid resolved (n + 1) writes s1 = (s', st2, Inr u)"
    and staged: "staged = (?t, rp_normalized entry) # st2"
    using Cons.prems(1) w Some wr by (auto split: prod.splits)
  have dist: "distinct (temps (staging uuid resolved (n + 1) writes))"
    and fresh: "?t \<notin> set (temps (staging uuid resolved (n + 1) writes))"
    using Cons.prems(2) w Some by simp_all
  note IH = Cons.IH [OF rest dist]
  have v1: "view s1 = (view s)(?t \<mapsto> content)" and t: "view s ?t = None"
    using write_ok [OF wr] by auto
  have "view s t' = None" if "t' \<in> set (temps (staging uuid resolved (n + 1) writes))" for t'
    using IH that v1 fresh by (metis fun_upd_other)
  moreover have "view s' q = (case staged_files (staging uuid resolved n (w # writes)) q of
      Some c \<Rightarrow> Some c | None \<Rightarrow> view s q)" for q
    using IH v1 w Some staged_None [OF fresh] by (cases "q = ?t") (simp_all split: option.split)
  ultimately show ?case using IH t staged w Some by simp
qed simp

lemma move_staged_ok:
  "move_staged B (map (\<lambda>(t, d, c). (t, d)) P) s = (s', Inr u) \<Longrightarrow> separate P \<Longrightarrow>
     (\<forall>(t, d, c) \<in> set P. view s t = Some c) \<Longrightarrow>
     view s' q = (case written P q of Some c \<Rightarrow> Some c
       | None \<Rightarrow> if q \<in> set (temps P) \<or> (\<exists>d \<in> set (dests P). below d q) then None else view s q)"
proof (induction P arbitrary: s)
  case (Cons x P)
  obtain t d c where x: "x = (t, d, c)" by (cases x)
  obtain s1 u1 where mv: "fb_move B t d True s = (s1, Inr u1)"
    and rest: "move_staged B (map (\<lambda>(t, d, c). (t, d)) P) s1 = (s', Inr u)"
    using Cons.prems(1) x by (auto split: prod.splits sum.splits)
  have sep: "separate P" "t \<notin> set (temps P)" "d \<notin> set (dests P)"
    using separate_Cons Cons.prems(2) x by blast+
  have apart: "\<not> within d t" "\<not> within t d"
    "\<forall>t' \<in> set (temps P). \<not> within d t'" "\<forall>d' \<in> set (dests P). \<not> below d' d \<and> \<not> below d d'"
    "\<forall>d' \<in> set (dests P). d' \<noteq> t"
    using Cons.prems(2) x by (auto simp: separate_def within_def)
  have "view s t = Some c" using Cons.prems(3) x by auto
  from move_ok [OF mv this] apart have
    v1: "view s1 = (\<lambda>r. if r = d then Some c else if r = t \<or> below d r then None else view s r)"
    by (auto simp: within_def)
  have "\<forall>(t', d', c') \<in> set P. view s1 t' = Some c'"
  proof clarify
    fix t' d' c' assume "(t', d', c') \<in> set P"
    then have "t' \<in> set (temps P)" by (force simp: temps_def)
    with apart sep have "t' \<noteq> d" "t' \<noteq> t" "\<not> below d t'" by (auto simp: within_def)
    moreover have "view s t' = Some c'" using Cons.prems(3) x \<open>(t', d', c') \<in> set P\<close> by auto
    ultimately show "view s1 t' = Some c'" by (simp add: v1)
  qed
  note IH = Cons.IH [OF rest sep(1) this]
  show ?case
  proof (cases "q = d")
    case True
    have "d \<notin> set (temps P)" "\<not> (\<exists>d' \<in> set (dests P). below d' d)"
      using apart by (auto simp: within_def)
    with True IH v1 written_None [OF sep(3)] x show ?thesis by (simp add: written_def)
  next
    case False
    with IH v1 x show ?thesis by (auto simp: written_def split: option.splits)
  qed
qed (auto simp: written_def)

lemma delete_removed_ok:
  "delete_removed B resolved rels s = (s', Inr u) \<Longrightarrow>
     (\<forall>rel \<in> set rels. resolved rel \<noteq> None) \<and>
     view s' q = (if \<exists>rel \<in> set rels. within (rp_normalized (the (resolved rel))) q
       then None else view s q)"
proof (induction rels arbitrary: s)
  case (Cons rel rels)
  obtain entry where Some: "resolved rel = Some entry"
    using Cons.prems by (cases "resolved rel") auto
  obtain s1 u1 where del: "fb_delete B (rp_normalized entry) s = (s1, Inr u1)"
    and rest: "delete_removed B resolved rels s1 = (s', Inr u)"
    using Cons.prems Some by (auto split: prod.splits sum.splits)
  from Cons.IH [OF rest] delete_ok [OF del] Some show ?case by auto
qed simp

lemma commit_ok:
  assumes "commit B uuid resolved writes deletes s = (s', Inr u)"
    and "separate (staging uuid resolved 0 writes)"
  shows "(\<forall>rel \<in> set deletes. resolved rel \<noteq> None) \<and>
    length (staging uuid resolved 0 writes) = length writes \<and>
    view s' q =
      (if \<exists>rel \<in> set deletes. within (rp_normalized (the (resolved rel))) q then None
       else case written (staging uuid resolved 0 writes) q of Some c \<Rightarrow> Some c
         | None \<Rightarrow> if \<exists>d \<in> set (dests (staging uuid resolved 0 writes)). below d q then None
                    else view s q)"
proof -
  let ?P = "staging uuid resolved 0 writes"
  obtain s1 staged s2 where stage: "stage_writes B uuid resolved 0 writes s = (s1, staged, Inr ())"
    and mv: "move_staged B staged s1 = (s2, Inr ())"
    and del: "delete_removed B resolved deletes s2 = (s', Inr ())"
    using assms(1) by (auto simp: commit_def split: prod.splits sum.splits)
  have "distinct (temps ?P)" using assms(2) by (simp add: separate_def)
  note staged = stage_ok [OF stage this]
  have "map_of (map (\<lambda>(t, d, c). (t, c)) ?P) t = Some c" if "(t, d, c) \<in> set ?P" for t d c
  proof (rule map_of_is_SomeI)
    have "map fst (map (\<lambda>(t, d, c). (t, c)) ?P) = temps ?P"
      by (simp add: temps_def comp_def case_prod_beta)
    with \<open>distinct (temps ?P)\<close> show "distinct (map fst (map (\<lambda>(t, d, c). (t, c)) ?P))" by simp
  qed (use that in force)
  then have "\<forall>(t, d, c) \<in> set ?P. view s1 t = Some c"
    using staged by (auto simp: staged_files_def)
  moreover have "staged = map (\<lambda>(t, d, c). (t, d)) ?P" using staged by blast
  ultimately have moved: "view s2 q = (case written ?P q of Some c \<Rightarrow> Some c
      | None \<Rightarrow> if q \<in> set (temps ?P) \<or> (\<exists>d \<in> set (dests ?P). below d q) then None else view s1 q)"
    using move_staged_ok [of ?P s1 s2 "()" q] mv assms(2) by blast
  have "view s2 q = (case written ?P q of Some c \<Rightarrow> Some c
      | None \<Rightarrow> if \<exists>d \<in> set (dests ?P). below d q then None else view s q)"
  proof (cases "q \<in> set (temps ?P)")
    case True
    then have "view s q = None" using staged by blast
    with True moved show ?thesis by (simp split: option.split)
  next
    case False
    then have "view s1 q = view s q" using staged staged_None by (metis option.simps(4))
    with False moved show ?thesis by (auto split: option.split)
  qed
  with delete_removed_ok [OF del, of q] staged show ?thesis by simp
qed

lemma move_staged_frame:
  "move_staged B staged s = (s', res) \<Longrightarrow>
     (\<forall>(t, d) \<in> set staged. \<not> within t q \<and> \<not> within d q) \<Longrightarrow> view s' q = view s q"
proof (induction staged arbitrary: s)
  case (Cons x staged)
  obtain t d where x: "x = (t, d)" by (cases x)
  obtain s1 r1 where mv: "fb_move B t d True s = (s1, r1)" by fastforce
  have "view s1 q = view s q" using move_frame [OF mv] Cons.prems(2) x by simp
  with Cons x mv show ?case by (cases r1) auto
qed simp

lemma delete_removed_frame:
  "delete_removed B resolved rels s = (s', res) \<Longrightarrow>
     (\<forall>rel \<in> set rels. \<forall>e. resolved rel = Some e \<longrightarrow> \<not> within (rp_normalized e) q) \<Longrightarrow>
     view s' q = view s q"
proof (induction rels arbitrary: s)
  case (Cons rel rels)
  show ?case
  proof (cases "resolved rel")
    case (Some entry)
    obtain s1 r1 where del: "fb_delete B (rp_normalized entry) s = (s1, r1)" by fastforce
    have "view s1 q = view s q" using delete_frame_all [OF del] Cons.prems(2) Some by simp
    with Cons Some del show ?thesis by (cases r1) auto
  qed (use Cons in simp)
qed simp

lemma drop_staged_frame:
  "(\<forall>(t, d) \<in> set staged. \<not> within t q) \<Longrightarrow> view (drop_staged B staged s) q = view s q"
proof (induction staged arbitrary: s)
  case (Cons x staged)
  obtain t d where x: "x = (t, d)" by (cases x)
  obtain s1 r1 where del: "fb_delete B t s = (s1, r1)" by fastforce
  have "view s1 q = view s q" using delete_frame_all [OF del] Cons.prems x by simp
  with Cons x del show ?case by (simp add: drop_staged_def)
qed (simp add: drop_staged_def)

lemma stage_staged_dests:
  "stage_writes B uuid resolved n writes s = (s', staged, r) \<Longrightarrow>
     set staged \<subseteq> set (map (\<lambda>(t, d, c). (t, d)) (staging uuid resolved n writes))"
proof (induction writes arbitrary: n s s' staged r)
  case (Cons w writes)
  obtain rel content where w: "w = (rel, content)" by (cases w)
  show ?case
  proof (cases "resolved rel")
    case (Some entry)
    obtain s1 r1 where wr: "fb_write B (temp_name (rp_normalized entry) (uuid n)) content True False s = (s1, r1)"
      by fastforce
    obtain s2 st2 r2 where rest: "stage_writes B uuid resolved (n + 1) writes s1 = (s2, st2, r2)"
      using prod_cases3 by blast
    show ?thesis
    proof (cases r1)
      case (Inr u)
      then have "staged = (temp_name (rp_normalized entry) (uuid n), rp_normalized entry) # st2"
        using Cons.prems w Some wr rest by simp
      with Cons.IH [OF rest] w Some show ?thesis by (simp add: subset_insertI2)
    qed (use Cons.prems w Some wr in simp)
  qed (use Cons.prems w in simp)
qed simp

text \<open>Whatever a commit returns, it touches nothing but its temporary files and the paths it names.\<close>

lemma commit_frame:
  assumes "commit B uuid resolved writes deletes s = (s', res)"
    and "\<forall>t \<in> set (temps (staging uuid resolved 0 writes)). \<not> within t q"
    and "\<forall>d \<in> set (dests (staging uuid resolved 0 writes)). \<not> within d q"
    and "\<forall>rel \<in> set deletes. \<forall>e. resolved rel = Some e \<longrightarrow> \<not> within (rp_normalized e) q"
  shows "view s' q = view s q"
proof -
  let ?P = "staging uuid resolved 0 writes"
  obtain s1 staged r1 where stage: "stage_writes B uuid resolved 0 writes s = (s1, staged, r1)"
    using prod_cases3 by blast
  have "q \<notin> set (temps ?P)" using assms(2) by auto
  note v1 = stage_frame [OF stage this]
  have apart: "\<forall>(t, d) \<in> set staged. \<not> within t q \<and> \<not> within d q"
    using stage_staged_dests [OF stage] assms(2,3) by (fastforce simp: temps_def dests_def)
  then have drop_q: "view (drop_staged B staged s0) q = view s0 q" for s0
    by (intro drop_staged_frame) auto
  obtain s2 r2 where mv: "move_staged B staged s1 = (s2, r2)" by fastforce
  note v2 = move_staged_frame [OF mv apart]
  obtain s3 r3 where del: "delete_removed B resolved deletes s2 = (s3, r3)" by fastforce
  note v3 = delete_removed_frame [OF del assms(4)]
  show ?thesis
    using assms(1) stage mv del v1 v2 v3
    by (auto simp: commit_def drop_q split: sum.splits)
qed

text \<open>An error that is not a partial write was raised before any of the named paths changed.\<close>

lemma commit_early_error:
  assumes "commit B uuid resolved writes deletes s = (s', Inl e)"
    and "\<forall>e'. e \<noteq> partial_write writes deletes e'"
    and "q \<notin> set (temps (staging uuid resolved 0 writes))"
  shows "view s' q = view s q"
proof -
  obtain s1 staged r1 where stage: "stage_writes B uuid resolved 0 writes s = (s1, staged, r1)"
    using prod_cases3 by blast
  have "staged = [] \<and> s' = s1"
    using assms(1,2) stage
    by (auto simp: commit_def drop_staged_def split: prod.splits sum.splits if_splits)
  with stage_frame [OF stage assms(3)] show ?thesis by simp
qed

lemma require_absent_view:
  "require_absent B rel resolved s = (s1, res) \<Longrightarrow> view s1 = view s \<and>
     (case res of Inl e \<Rightarrow> True
      | Inr resolved1 \<Rightarrow> \<exists>entry. resolve_path B rel resolved s = Inr (entry, resolved1) \<and>
          view s (rp_normalized entry) = None)"
proof -
  assume run: "require_absent B rel resolved s = (s1, res)"
  show ?thesis
  proof (cases "resolve_path B rel resolved s")
    case (Inr a)
    obtain entry resolved1 where a: "a = (entry, resolved1)" by (cases a)
    obtain s2 r2 where ex: "fb_exists B (rp_normalized entry) s = (s2, r2)" by fastforce
    have "view s2 = view s" using exists_view [of "rp_normalized entry" s] ex by simp
    moreover have "view s (rp_normalized entry) = None" if "r2 = Inr False"
      using exists_False that ex by blast
    ultimately show ?thesis
      using run Inr a ex by (auto simp: require_absent_def split: sum.splits bool.splits)
  qed (use run in \<open>auto simp: require_absent_def\<close>)
qed

lemma prevalidate_view: "view (fst (prevalidate B sha env expected ops snap s)) = view s"
proof (induction ops arbitrary: snap s)
  case (Cons operation ops)
  have absent: "view (fst (require_absent B rel resolved s0)) = view s0" for rel resolved s0
    using require_absent_view [of rel resolved s0 "fst (require_absent B rel resolved s0)"
        "snd (require_absent B rel resolved s0)"] by simp
  show ?case
    using Cons.IH absent
    by (auto split: patch_operation.splits option.splits sum.splits prod.splits) (metis fst_conv)+
qed simp

lemma resolve_path_normalized:
  assumes "resolve_path B rel resolved s = Inr (entry, resolved1)"
    and "\<forall>r e. resolved r = Some e \<longrightarrow> normalizeWorkspacePath r = Inr (rp_normalized e)"
  shows "normalizeWorkspacePath rel = Inr (rp_normalized entry) \<and>
    (\<forall>r e. resolved1 r = Some e \<longrightarrow> normalizeWorkspacePath r = Inr (rp_normalized e))"
  using assms assertPathContained_normalized
  by (auto simp: resolve_path_def Let_def split: option.splits sum.splits if_splits)

definition source_seen ::
    "(string \<Rightarrow> string) \<Rightarrow> (string \<rightharpoonup> string) \<Rightarrow> 's \<Rightarrow> string \<Rightarrow> string \<Rightarrow> bool" where
  "source_seen sha expected s p content \<longleftrightarrow> (\<exists>n bytes. normalizeWorkspacePath p = Inr n \<and>
     view s n = Some bytes \<and> decodeTextFile bytes = Inr content \<and> expected p = Some (sha bytes))"

definition snapshot_ok :: "(string \<Rightarrow> string) \<Rightarrow> (string \<rightharpoonup> string) \<Rightarrow> 's \<Rightarrow> snapshot \<Rightarrow> bool" where
  "snapshot_ok sha expected s snap \<longleftrightarrow>
     (\<forall>r e. fst snap r = Some e \<longrightarrow> normalizeWorkspacePath r = Inr (rp_normalized e)) \<and>
     (\<forall>p c. snd snap p = Some c \<longrightarrow> source_seen sha expected s p c)"

lemma snapshot_ok_view:
  "view s1 = view s \<Longrightarrow> snapshot_ok sha expected s1 snap = snapshot_ok sha expected s snap"
  by (simp add: snapshot_ok_def source_seen_def)

lemma validate_source_ok:
  assumes "validate_source B sha env expected path snap s = Inr snap1"
    and "snapshot_ok sha expected s snap"
  shows "snapshot_ok sha expected s snap1"
proof -
  obtain entry resolved1 where res: "resolve_path B path (fst snap) s = Inr (entry, resolved1)"
    using assms(1) by (auto simp: validate_source_def split: sum.splits)
  obtain content hash where got: "readTextFile B sha (rp_normalized entry) (fe_maxDownloadBytes env) s =
      Inr (content, hash)" and hash: "expected path = Some hash"
    and snap1: "snap1 = (resolved1, (snd snap)(path \<mapsto> content))"
    using assms(1) res by (auto simp: validate_source_def split: sum.splits if_splits)
  obtain bytes where "fb_read B (rp_normalized entry) (fe_maxDownloadBytes env) s = Inr bytes"
    "decodeTextFile bytes = Inr content" "hash = sha bytes"
    using got by (auto simp: readTextFile_def split: sum.splits)
  moreover have "\<forall>r e. fst snap r = Some e \<longrightarrow> normalizeWorkspacePath r = Inr (rp_normalized e)"
    using assms(2) by (simp add: snapshot_ok_def)
  note names = resolve_path_normalized [OF res this]
  ultimately have "source_seen sha expected s path content"
    using read_ok hash names unfolding source_seen_def by blast
  with names assms(2) show ?thesis by (simp add: snapshot_ok_def snap1)
qed

lemma require_absent_ok:
  assumes "require_absent B rel (fst snap) s = (s1, Inr resolved1)"
    and "snapshot_ok sha expected s snap"
  shows "snapshot_ok sha expected s1 (resolved1, snd snap)"
    and "\<exists>n. normalizeWorkspacePath rel = Inr n \<and> view s n = None"
proof -
  from require_absent_view [OF assms(1)] obtain entry where
    res: "resolve_path B rel (fst snap) s = Inr (entry, resolved1)"
    and absent: "view s (rp_normalized entry) = None" and v: "view s1 = view s" by auto
  have "\<forall>r e. fst snap r = Some e \<longrightarrow> normalizeWorkspacePath r = Inr (rp_normalized e)"
    using assms(2) by (simp add: snapshot_ok_def)
  note names = resolve_path_normalized [OF res this]
  from names absent show "\<exists>n. normalizeWorkspacePath rel = Inr n \<and> view s n = None" by blast
  show "snapshot_ok sha expected s1 (resolved1, snd snap)"
    using names assms(2) unfolding snapshot_ok_view [OF v] by (simp add: snapshot_ok_def)
qed

lemma prevalidate_ok:
  "prevalidate B sha env expected ops snap s = (s1, Inr snap1) \<Longrightarrow> snapshot_ok sha expected s snap \<Longrightarrow>
     view s1 = view s \<and> snapshot_ok sha expected s snap1 \<and>
     (\<forall>p \<in> Option.these (created_path ` set ops). \<exists>n. normalizeWorkspacePath p = Inr n \<and> view s n = None)"
proof (induction ops arbitrary: snap s)
  case (Cons operation ops)
  obtain snap0 s0 where step: "prevalidate B sha env expected ops snap0 s0 = (s1, Inr snap1)"
    and ok: "snapshot_ok sha expected s0 snap0" and v: "view s0 = view s"
    and created: "\<forall>p. created_path operation = Some p \<longrightarrow>
      (\<exists>n. normalizeWorkspacePath p = Inr n \<and> view s n = None)"
  proof (cases operation)
    case (AddFile path content)
    then obtain s0 resolved1 where ab: "require_absent B path (fst snap) s = (s0, Inr resolved1)"
      "prevalidate B sha env expected ops (resolved1, snd snap) s0 = (s1, Inr snap1)"
      using Cons.prems(1) by (auto split: prod.splits sum.splits)
    show thesis
      using that [OF ab(2)] require_absent_ok [OF ab(1) Cons.prems(2)] require_absent_view [OF ab(1)]
        AddFile by auto
  next
    case (UpdateFile path moveTo hunks)
    then obtain snap2 where val: "validate_source B sha env expected path snap s = Inr snap2"
      using Cons.prems(1) by (auto split: option.splits sum.splits)
    note ok2 = validate_source_ok [OF val Cons.prems(2)]
    show thesis
    proof (cases moveTo)
      case None
      with that [of snap2 s] ok2 val UpdateFile Cons.prems(1) show thesis by auto
    next
      case (Some target)
      then obtain s0 resolved1 where ab: "require_absent B target (fst snap2) s = (s0, Inr resolved1)"
        "prevalidate B sha env expected ops (resolved1, snd snap2) s0 = (s1, Inr snap1)"
        using Cons.prems(1) UpdateFile val by (auto split: prod.splits sum.splits)
      show thesis
        using that [OF ab(2)] require_absent_ok [OF ab(1) ok2] require_absent_view [OF ab(1)]
          UpdateFile Some by auto
    qed
  next
    case (DeleteFile path)
    then obtain snap2 where val: "validate_source B sha env expected path snap s = Inr snap2"
      "prevalidate B sha env expected ops snap2 s = (s1, Inr snap1)"
      using Cons.prems(1) by (auto split: sum.splits)
    show thesis
      using that [OF val(2)] validate_source_ok [OF val(1) Cons.prems(2)] DeleteFile by auto
  qed
  from Cons.IH [OF step ok] v created show ?case
    by (auto simp: in_these_eq snapshot_ok_view [OF v])
qed (auto simp: in_these_eq)

end

text \<open>The plan of a commit in terms of canonical paths alone.\<close>

definition canonical :: "string \<rightharpoonup> resolved_path" where
  "canonical rel = (case normalizeWorkspacePath rel of Inl _ \<Rightarrow> None
     | Inr n \<Rightarrow> Some \<lparr>rp_normalized = n, rp_leaf = None\<rparr>)"

definition commit_plan :: "(nat \<Rightarrow> string) \<Rightarrow> (string \<times> string) list \<Rightarrow> (string \<times> string \<times> string) list" where
  "commit_plan uuid writes = staging uuid canonical 0 writes"

lemma staging_canonical:
  "\<forall>r e. resolved r = Some e \<longrightarrow> normalizeWorkspacePath r = Inr (rp_normalized e) \<Longrightarrow>
     length (staging uuid resolved n writes) = length writes \<Longrightarrow>
     staging uuid resolved n writes = staging uuid canonical n writes"
proof (induction writes arbitrary: n)
  case (Cons w writes)
  obtain rel content where w: "w = (rel, content)" by (cases w)
  with Cons show ?case by (cases "resolved rel") (auto simp: canonical_def)
qed simp

text \<open>The files after a patch: deletions win, then writes, and a write to a path clears what was
  below it.\<close>

definition patched ::
    "(nat \<Rightarrow> string) \<Rightarrow> (string \<times> string) list \<Rightarrow> string list \<Rightarrow> (string \<rightharpoonup> string) \<Rightarrow> (string \<rightharpoonup> string)" where
  "patched uuid writes deletes v q =
     (if \<exists>rel \<in> set deletes. \<exists>n. normalizeWorkspacePath rel = Inr n \<and> within n q then None
      else case written (commit_plan uuid writes) q of Some c \<Rightarrow> Some c
        | None \<Rightarrow> if \<exists>d \<in> set (dests (commit_plan uuid writes)). below d q then None else v q)"

context file_backend
begin

lemma patch_attempt_ok:
  assumes "patch_attempt B sha uuid env expected ops s = (s', Inr (writes, deletes))"
    and "separate (commit_plan uuid writes)"
  shows "view s' = patched uuid writes deletes (view s)"
proof -
  obtain s1 resolved files where pre: "prevalidate B sha env expected ops (Map.empty, Map.empty) s =
      (s1, Inr (resolved, files))"
    and com: "commit B uuid resolved writes deletes s1 = (s', Inr ())"
    using assms(1) by (auto simp: patch_attempt_def split: prod.splits sum.splits)
  have "snapshot_ok sha expected s (Map.empty, Map.empty)" by (simp add: snapshot_ok_def)
  from prevalidate_ok [OF pre this] have v: "view s1 = view s"
    and names: "\<forall>r e. resolved r = Some e \<longrightarrow> normalizeWorkspacePath r = Inr (rp_normalized e)"
    by (auto simp: snapshot_ok_def)
  obtain s2 staged where "stage_writes B uuid resolved 0 writes s1 = (s2, staged, Inr ())"
    using com by (auto simp: commit_def split: prod.splits sum.splits)
  note len = stage_length [OF this]
  have plan: "staging uuid resolved 0 writes = commit_plan uuid writes"
    using staging_canonical [OF names len] by (simp add: commit_plan_def)
  with assms(2) have sep: "separate (staging uuid resolved 0 writes)" by simp
  show ?thesis
  proof
    fix q
    note ok = commit_ok [OF com sep, of q]
    have iff: "(\<exists>rel \<in> set deletes. within (rp_normalized (the (resolved rel))) q) \<longleftrightarrow>
        (\<exists>rel \<in> set deletes. \<exists>n. normalizeWorkspacePath rel = Inr n \<and> within n q)"
    proof -
      have "normalizeWorkspacePath rel = Inr (rp_normalized (the (resolved rel)))" if "rel \<in> set deletes" for rel
        using that ok names by (metis option.exhaust_sel)
      then show ?thesis by auto
    qed
    show "view s' q = patched uuid writes deletes (view s) q"
      using ok unfolding iff plan v patched_def by blast
  qed
qed

lemma patch_attempt_sources:
  assumes "patch_attempt B sha uuid env expected ops s = (s', Inr (writes, deletes))"
  shows "\<exists>files. applyPatchToFiles ops files = Inr (writes, deletes) \<and>
    (\<forall>p c. files p = Some c \<longrightarrow> source_seen sha expected s p c) \<and>
    (\<forall>p \<in> Option.these (created_path ` set ops). \<exists>n. normalizeWorkspacePath p = Inr n \<and> view s n = None)"
proof -
  obtain s1 resolved files where pre: "prevalidate B sha env expected ops (Map.empty, Map.empty) s =
      (s1, Inr (resolved, files))"
    and app: "applyPatchToFiles ops files = Inr (writes, deletes)"
    using assms(1) by (auto simp: patch_attempt_def split: prod.splits sum.splits)
  have "snapshot_ok sha expected s (Map.empty, Map.empty)" by (simp add: snapshot_ok_def)
  from prevalidate_ok [OF pre this] app show ?thesis by (auto simp: snapshot_ok_def)
qed

lemma patch_attempt_error:
  assumes "patch_attempt B sha uuid env expected ops s = (s', Inl e)"
    and "error_code e \<noteq> Some CePartialWrite" and "fe_refreshLease env = None"
    and "\<forall>d n. q \<noteq> temp_name d (uuid n)"
  shows "view s' q = view s q"
proof -
  obtain s1 r1 where pre: "prevalidate B sha env expected ops (Map.empty, Map.empty) s = (s1, r1)"
    by fastforce
  have v: "view s1 = view s" using prevalidate_view [of sha env expected ops _ s] pre by (metis fst_conv)
  show ?thesis
  proof (cases r1)
    case (Inl e1)
    with assms(1) pre v show ?thesis by (simp add: patch_attempt_def)
  next
    case (Inr snap)
    obtain resolved files where snap: "snap = (resolved, files)" by (cases snap)
    show ?thesis
    proof (cases "applyPatchToFiles ops files")
      case (Inl e1)
      with assms(1) pre v Inr snap show ?thesis by (simp add: patch_attempt_def)
    next
      case (Inr r)
      obtain writes deletes where r: "r = (writes, deletes)" by (cases r)
      have com: "commit B uuid resolved writes deletes s1 = (s', Inl e)"
        using assms(1,3) pre \<open>r1 = Inr snap\<close> snap Inr r
        by (auto simp: patch_attempt_def attempt_def split: prod.splits sum.splits)
      have "q \<notin> set (temps (staging uuid resolved n writes))" for n
        using assms(4) by (induction writes arbitrary: n) (auto split: option.splits)
      moreover have "\<forall>e'. e \<noteq> partial_write writes deletes e'"
        using assms(2) by (auto simp: partial_write_def)
      ultimately show ?thesis using commit_early_error [OF com] v by metis
    qed
  qed
qed

lemma write_attempt_ok:
  assumes "write_attempt B sha env path bytes expected parents s = (s', Inr u)"
  shows "\<exists>n. normalizeWorkspacePath path = Inr n \<and> view s' = (view s)(n \<mapsto> bytes) \<and>
    expected = map_option sha (view s n)"
proof -
  obtain n current where names: "assertPathContained (\<lambda>p. fb_inspect B p s) path = Inr n"
    and cur: "readCurrent B sha env n s = Inr current"
    and chk: "check_expected path expected current = Inr ()"
    and wr: "fb_write B n bytes parents (current \<noteq> None) s = (s', Inr ())"
    using assms by (auto simp: write_attempt_def split: prod.splits sum.splits)
  have v: "view s' = (view s)(n \<mapsto> bytes)" and absent: "current = None \<longrightarrow> view s n = None"
    using write_ok [OF wr] by auto
  have "expected = map_option sha (view s n)"
  proof (cases current)
    case None
    with chk absent show ?thesis by (simp add: check_expected_def split: if_splits)
  next
    case (Some c)
    obtain content hash where c: "c = (content, hash)" by (cases c)
    have "\<exists>b. view s n = Some b \<and> hash = sha b"
      using cur Some c read_ok
      by (auto simp: readCurrent_def readTextFile_def map_sum_def split: option.splits sum.splits if_splits)
    with chk Some c show ?thesis by (auto simp: check_expected_def split: if_splits)
  qed
  with v assertPathContained_normalized [OF names] show ?thesis by blast
qed

end

interpretation fake_service: file_backend "fake_backend r" "fake_view r" for r
  by (rule fake_backend_contract)

section \<open>Guarantees\<close>

definition demo_file_env :: file_env where
  "demo_file_env = \<lparr>fe_readMaxBytes = 100, fe_readMaxLines = 10, fe_maxDownloadBytes = 100,
     fe_maxUploadBytes = 100, fe_markDirty = None, fe_resolveRuntime = None,
     fe_refreshLease = None, fe_start = 0, fe_end = 5\<rparr>"

definition demo_uuid :: "nat \<Rightarrow> string" where
  "demo_uuid n = CHR ''u'' # nat_digits n"

definition demo_file_patch :: string where
  "demo_file_patch = renderPatch [UpdateFile ''a'' None [[RemoveLine ''hi'', AddLine ''yo'']]]"

lemma demo_write_run:
  "snd (snd (writeFile_service (fake_backend demo_ref) id demo_file_env ''a'' ''yo'' (Some ''hi'') False
     demo_fake)) = Inr (''yo'', 2)"
  by code_simp

lemma demo_patch_run:
  "snd (snd (applyPatch_service (fake_backend demo_ref) id demo_uuid demo_file_env demo_file_patch
     [''a'' \<mapsto> ''hi''] demo_fake)) = Inr (1, 1, 0)"
  by code_simp

lemma demo_patch_stale:
  "snd (snd (applyPatch_service (fake_backend demo_ref) id demo_uuid demo_file_env demo_file_patch
     Map.empty demo_fake)) = Inl (compute_stale_file_error ''a'' ''hi'')"
  by code_simp


text \<open>C28: validation is atomic. If \<open>applyPatch\<close> fails with anything but \<open>compute_partial_write\<close>
  (and it was not the lease refresh after the commit that failed), every file is as it was, except
  perhaps a temporary one.\<close>

theorem applyPatch_failure_is_clean:
  assumes "applyPatch_service (fake_backend r) sha uuid env patch expected s = (s', events, Inl e)"
    and "error_code e \<noteq> Some CePartialWrite" and "fe_refreshLease env = None"
    and "\<forall>d n. q \<noteq> temp_name d (uuid n)"
  shows "fake_view r s' q = fake_view r s q"
  using assms(1) fake_service.patch_attempt_error [OF _ assms(2-4)]
  by (auto simp: applyPatch_service_def split: prod.splits sum.splits)



theorem applyPatch_failure_is_clean_witness:
  "fake_view demo_ref (fst (applyPatch_service (fake_backend demo_ref) id demo_uuid demo_file_env
     demo_file_patch Map.empty demo_fake)) ''/workspace/a'' = fake_view demo_ref demo_fake ''/workspace/a''"
proof -
  obtain s' events where run: "applyPatch_service (fake_backend demo_ref) id demo_uuid demo_file_env
      demo_file_patch Map.empty demo_fake = (s', events, Inl (compute_stale_file_error ''a'' ''hi''))"
    using demo_patch_stale by (metis prod.collapse)
  have code: "error_code (compute_stale_file_error ''a'' ''hi'') \<noteq> Some CePartialWrite"
    by (simp add: compute_stale_file_error_def)
  have lease: "fe_refreshLease demo_file_env = None" by (simp add: demo_file_env_def)
  have "\<forall>d n. ''/workspace/a'' \<noteq> temp_name d (demo_uuid n)"
  proof (intro allI notI)
    fix d n assume eq: "''/workspace/a'' = temp_name d (demo_uuid n)"
    have "CHR ''-'' \<in> set (temp_name d (demo_uuid n))" by (simp add: temp_name_def)
    then show False unfolding eq [symmetric] by simp
  qed
  from applyPatch_failure_is_clean [OF run code lease this] run show ?thesis by simp
qed

end
