(* ===== verification/Json_Values.thy ===== *)
theory Json_Values
  imports Strings Complex_Main
begin

text \<open>
  What \<open>JSON.parse\<close> returns. A number is a whole number, a finite one that is not whole, or an
  infinity (\<open>1e999\<close> parses to one) with its sign, positive for True.
\<close>

datatype json_number = Whole int | Fractional rat | Infinite bool

datatype json =
  JNull | JBool bool | JNumber json_number | JString string | JArray "json list"
| JObject "(string \<times> json) list"

text \<open>\<open>value[key]\<close>, with \<open>undefined\<close> as \<open>None\<close>.\<close>

fun json_field :: "json \<Rightarrow> string \<Rightarrow> json option" where
  "json_field (JObject fields) key = map_of fields key"
| "json_field _ key = None"

fun is_json_object :: "json \<Rightarrow> bool" where
  "is_json_object (JObject _) = True"
| "is_json_object (JArray _) = True"
| "is_json_object _ = False"

text \<open>\<open>a <= t\<close> at a whole \<open>t\<close>.\<close>

fun number_le :: "json_number \<Rightarrow> int \<Rightarrow> bool" where
  "number_le (Whole n) t \<longleftrightarrow> n \<le> t"
| "number_le (Fractional q) t \<longleftrightarrow> q \<le> of_int t"
| "number_le (Infinite positive) t \<longleftrightarrow> \<not> positive"

text \<open>A field checked with \<open>typeof\<close>.\<close>

definition string_field :: "json \<Rightarrow> string \<Rightarrow> string option" where
  "string_field v key = (case json_field v key of Some (JString s) \<Rightarrow> Some s | _ \<Rightarrow> None)"

definition number_field :: "json \<Rightarrow> string \<Rightarrow> json_number option" where
  "number_field v key = (case json_field v key of Some (JNumber n) \<Rightarrow> Some n | _ \<Rightarrow> None)"

end
