(* ===== verification/Automaton_Schedule.thy ===== *)
theory Automaton_Schedule
  imports Json_Values
begin

text \<open>
  Schedules of automata (\<open>src/automata/schedule.ts\<close>): the stored JSON, its validation, the cron
  expression each preset stands for, and the next due time.

  \<^item> \<open>JSON.parse\<close> is the argument \<open>json_parse\<close>, from the source text to a \<open>json\<close> value or nothing.
  \<^item> The npm package \<open>cron-parser\<close> is two arguments: \<open>cron_ok\<close> says whether an expression
    parses, and \<open>cron_next expr tz t\<close> is the first occurrence it computes after \<open>t\<close>, or its error.
  \<^item> \<open>Intl.DateTimeFormat\<close> is the argument \<open>format_when\<close>.
\<close>

section \<open>Schedules\<close>

datatype automaton_schedule =
  Hourly int
| Daily int int
| Weekdays int int
| Weekly int int int
| Cron string
| Once int

text \<open>The reasons of \<open>invalid(...)\<close>, and an error thrown by the cron library.\<close>

datatype schedule_error =
  NotValidJson | NotAnObject
| NotAnInteger string int int
| ExprNotAString | ExprUnparseable string
| RunAtNotFinite | RunAtNotAnInteger | RunAtNotFuture
| UnknownKind "json option"
| OnceHasNoCron
| CronLibrary string

definition WEEKDAY_NAMES :: "string list" where
  "WEEKDAY_NAMES = [''Sundays'', ''Mondays'', ''Tuesdays'', ''Wednesdays'', ''Thursdays'', ''Fridays'',
     ''Saturdays'']"

fun scheduleToCron :: "automaton_schedule \<Rightarrow> schedule_error + string" where
  "scheduleToCron (Hourly minute) = Inr (int_string minute @ '' * * * *'')"
| "scheduleToCron (Daily hour minute) = Inr (int_string minute @ '' '' @ int_string hour @ '' * * *'')"
| "scheduleToCron (Weekdays hour minute) =
     Inr (int_string minute @ '' '' @ int_string hour @ '' * * 1-5'')"
| "scheduleToCron (Weekly weekday hour minute) =
     Inr (int_string minute @ '' '' @ int_string hour @ '' * * '' @ int_string weekday)"
| "scheduleToCron (Cron expr) = Inr expr"
| "scheduleToCron (Once runAt) = Inl OnceHasNoCron"

definition computeNextDueAt ::
  "(string \<Rightarrow> string \<Rightarrow> int \<Rightarrow> string + int) \<Rightarrow> automaton_schedule \<Rightarrow> string \<Rightarrow> int \<Rightarrow>
   schedule_error + int" where
  "computeNextDueAt cron_next schedule timezone after =
     (case schedule of
        Once runAt \<Rightarrow> if runAt \<le> after then Inl RunAtNotFuture else Inr runAt
      | _ \<Rightarrow> (case scheduleToCron schedule of
          Inl e \<Rightarrow> Inl e
        | Inr expr \<Rightarrow> (case cron_next expr timezone after of Inl e \<Rightarrow> Inl (CronLibrary e) | Inr t \<Rightarrow> Inr t)))"

section \<open>Validation\<close>

definition intInRange :: "json option \<Rightarrow> int \<Rightarrow> int \<Rightarrow> string \<Rightarrow> schedule_error + int" where
  "intInRange value lo hi field =
     (case value of
        Some (JNumber (Whole n)) \<Rightarrow> if n < lo \<or> n > hi then Inl (NotAnInteger field lo hi) else Inr n
      | _ \<Rightarrow> Inl (NotAnInteger field lo hi))"

definition hour_minute :: "json \<Rightarrow> (int \<Rightarrow> int \<Rightarrow> automaton_schedule) \<Rightarrow>
    schedule_error + automaton_schedule" where
  "hour_minute value build =
     (case intInRange (json_field value ''hour'') 0 23 ''hour'' of
        Inl e \<Rightarrow> Inl e
      | Inr hour \<Rightarrow> (case intInRange (json_field value ''minute'') 0 59 ''minute'' of
          Inl e \<Rightarrow> Inl e | Inr minute \<Rightarrow> Inr (build hour minute)))"

definition parse_hourly :: "json \<Rightarrow> schedule_error + automaton_schedule" where
  "parse_hourly value = (case intInRange (json_field value ''minute'') 0 59 ''minute'' of
     Inl e \<Rightarrow> Inl e | Inr minute \<Rightarrow> Inr (Hourly minute))"

definition parse_weekly :: "json \<Rightarrow> schedule_error + automaton_schedule" where
  "parse_weekly value = (case intInRange (json_field value ''weekday'') 0 6 ''weekday'' of
     Inl e \<Rightarrow> Inl e | Inr weekday \<Rightarrow> hour_minute value (Weekly weekday))"

definition parse_cron :: "(string \<Rightarrow> bool) \<Rightarrow> json \<Rightarrow> schedule_error + automaton_schedule" where
  "parse_cron cron_ok value =
     (case json_field value ''expr'' of
        Some (JString expr) \<Rightarrow> if cron_ok expr then Inr (Cron expr) else Inl (ExprUnparseable expr)
      | _ \<Rightarrow> Inl ExprNotAString)"

definition parse_once :: "json \<Rightarrow> schedule_error + automaton_schedule" where
  "parse_once value =
     (case json_field value ''runAt'' of
        Some (JNumber (Whole n)) \<Rightarrow> Inr (Once n)
      | Some (JNumber (Fractional _)) \<Rightarrow> Inl RunAtNotAnInteger
      | _ \<Rightarrow> Inl RunAtNotFinite)"

definition parse_schedule_value :: "(string \<Rightarrow> bool) \<Rightarrow> json \<Rightarrow> schedule_error + automaton_schedule" where
  "parse_schedule_value cron_ok value =
     (if \<not> is_json_object value then Inl NotAnObject
      else let kind = json_field value ''kind'' in
        if kind = Some (JString ''hourly'') then parse_hourly value
        else if kind = Some (JString ''daily'') then hour_minute value Daily
        else if kind = Some (JString ''weekdays'') then hour_minute value Weekdays
        else if kind = Some (JString ''weekly'') then parse_weekly value
        else if kind = Some (JString ''cron'') then parse_cron cron_ok value
        else if kind = Some (JString ''once'') then parse_once value
        else Inl (UnknownKind kind))"

definition parseSchedule ::
  "(string \<Rightarrow> json option) \<Rightarrow> (string \<Rightarrow> bool) \<Rightarrow> string \<Rightarrow> schedule_error + automaton_schedule" where
  "parseSchedule json_parse cron_ok stored =
     (case json_parse stored of None \<Rightarrow> Inl NotValidJson | Some value \<Rightarrow> parse_schedule_value cron_ok value)"

section \<open>Description\<close>

definition pad :: "int \<Rightarrow> string" where
  "pad n = (let s = int_string n in replicate (2 - length s) CHR ''0'' @ s)"

definition time_of_day :: "int \<Rightarrow> int \<Rightarrow> string" where
  "time_of_day hour minute = '' at '' @ pad hour @ '':'' @ pad minute"

fun describeSchedule :: "(string \<Rightarrow> int \<Rightarrow> string) \<Rightarrow> automaton_schedule \<Rightarrow> string \<Rightarrow> string" where
  "describeSchedule format_when (Hourly minute) timezone = ''Hourly at :'' @ pad minute"
| "describeSchedule format_when (Daily hour minute) timezone = ''Daily'' @ time_of_day hour minute"
| "describeSchedule format_when (Weekdays hour minute) timezone = ''Weekdays'' @ time_of_day hour minute"
| "describeSchedule format_when (Weekly weekday hour minute) timezone =
     (if 0 \<le> weekday \<and> weekday < 7 then WEEKDAY_NAMES ! nat weekday else ''undefined'') @
     time_of_day hour minute"
| "describeSchedule format_when (Cron expr) timezone = ''Custom ('' @ expr @ '')''"
| "describeSchedule format_when (Once runAt) timezone =
     ''Once '' @ [CHR 0xC2, CHR 0xB7] @ '' '' @ format_when timezone runAt"

section \<open>What validation accepts\<close>

text \<open>The schedules the type is meant to hold, and the JSON object that stores one.\<close>

fun schedule_ok :: "(string \<Rightarrow> bool) \<Rightarrow> automaton_schedule \<Rightarrow> bool" where
  "schedule_ok cron_ok (Hourly minute) = (minute \<in> {0..59})"
| "schedule_ok cron_ok (Daily hour minute) = (hour \<in> {0..23} \<and> minute \<in> {0..59})"
| "schedule_ok cron_ok (Weekdays hour minute) = (hour \<in> {0..23} \<and> minute \<in> {0..59})"
| "schedule_ok cron_ok (Weekly weekday hour minute) =
     (weekday \<in> {0..6} \<and> hour \<in> {0..23} \<and> minute \<in> {0..59})"
| "schedule_ok cron_ok (Cron expr) = cron_ok expr"
| "schedule_ok cron_ok (Once runAt) = True"

abbreviation whole :: "int \<Rightarrow> json" where "whole n \<equiv> JNumber (Whole n)"

fun schedule_json :: "automaton_schedule \<Rightarrow> json" where
  "schedule_json (Hourly minute) = JObject [(''kind'', JString ''hourly''), (''minute'', whole minute)]"
| "schedule_json (Daily hour minute) =
     JObject [(''kind'', JString ''daily''), (''hour'', whole hour), (''minute'', whole minute)]"
| "schedule_json (Weekdays hour minute) =
     JObject [(''kind'', JString ''weekdays''), (''hour'', whole hour), (''minute'', whole minute)]"
| "schedule_json (Weekly weekday hour minute) =
     JObject [(''kind'', JString ''weekly''), (''weekday'', whole weekday), (''hour'', whole hour),
       (''minute'', whole minute)]"
| "schedule_json (Cron expr) = JObject [(''kind'', JString ''cron''), (''expr'', JString expr)]"
| "schedule_json (Once runAt) = JObject [(''kind'', JString ''once''), (''runAt'', whole runAt)]"

lemma intInRange_Inr:
  "intInRange value lo hi field = Inr n \<longleftrightarrow> value = Some (whole n) \<and> n \<in> {lo..hi}"
  by (auto simp: intInRange_def split: option.splits json.splits json_number.splits)

lemma hour_minute_Inr:
  "hour_minute value build = Inr s \<longleftrightarrow>
     (\<exists>h m. json_field value ''hour'' = Some (whole h) \<and> json_field value ''minute'' = Some (whole m) \<and>
        h \<in> {0..23} \<and> m \<in> {0..59} \<and> s = build h m)"
  by (auto simp: hour_minute_def intInRange_Inr split: sum.splits) (metis Inl_Inr_False intInRange_Inr atLeastAtMost_iff)+

lemmas parse_kinds = parse_hourly_def parse_weekly_def parse_cron_def parse_once_def hour_minute_Inr
  intInRange_Inr

lemma parse_schedule_value_ok:
  "parse_schedule_value cron_ok value = Inr s \<Longrightarrow> schedule_ok cron_ok s"
  by (auto simp: parse_schedule_value_def parse_kinds Let_def
      split: if_splits sum.splits option.splits json.splits json_number.splits)

lemma parse_schedule_json:
  "schedule_ok cron_ok s \<Longrightarrow> parse_schedule_value cron_ok (schedule_json s) = Inr s"
  by (cases s) (simp_all add: parse_schedule_value_def parse_hourly_def parse_weekly_def parse_cron_def
      parse_once_def hour_minute_def intInRange_def)

lemma schedule_json_inverse:
  "parse_schedule_value cron_ok (schedule_json s) = Inr s' \<Longrightarrow> s' = s"
  by (cases s) (simp_all add: parse_schedule_value_def parse_hourly_def parse_weekly_def parse_cron_def
      parse_once_def hour_minute_def intInRange_def split: if_splits)

text \<open>C8: validation is exact. A stored schedule is read back unchanged when its hour, minute and weekday
  are in range and its cron expression parses, and is refused otherwise.\<close>

theorem parseSchedule_exact:
  assumes "json_parse stored = Some (schedule_json s)"
  shows "parseSchedule json_parse cron_ok stored = Inr s' \<longleftrightarrow> s' = s \<and> schedule_ok cron_ok s"
  using assms parse_schedule_json [of cron_ok s] schedule_json_inverse [of cron_ok s s']
    parse_schedule_value_ok [of cron_ok "schedule_json s" s']
  by (auto simp: parseSchedule_def)

theorem parseSchedule_exact_witness:
  "parseSchedule (\<lambda>_. Some (schedule_json (Weekly 5 23 59))) (\<lambda>_. True) ''s'' = Inr (Weekly 5 23 59) \<and>
   parseSchedule (\<lambda>_. Some (schedule_json (Weekly 7 23 59))) (\<lambda>_. True) ''s'' \<noteq> Inr (Weekly 7 23 59)"
proof -
  have stored: "(\<lambda>_. Some (schedule_json s)) ''s'' = Some (schedule_json s)" for s by simp
  from parseSchedule_exact [OF stored [of "Weekly 5 23 59"], of "\<lambda>_. True"]
    parseSchedule_exact [OF stored [of "Weekly 7 23 59"], of "\<lambda>_. True"]
  show ?thesis by simp
qed

lemma computeNextDueAt_later:
  assumes "\<And>e n. cron_next e timezone after = Inr n \<Longrightarrow> after < n"
    and "computeNextDueAt cron_next schedule timezone after = Inr t"
  shows "after < t"
  using assms
  by (auto simp: computeNextDueAt_def split: automaton_schedule.splits sum.splits if_splits)

end
