(* ===== verification/Automata_Store.thy ===== *)
theory Automata_Store
  imports Prelude "HOL-Library.Char_ord" "HOL-Library.List_Lexorder" "HOL-Library.Product_Lexorder"
begin

text \<open>
  Automata and their runs: the two D1 tables, the statements of \<open>AutomatonRepository\<close>
  (\<open>src/db/repositories/automata.ts\<close>) and the lifecycle of a run
  (\<open>src/automata/run-lifecycle.ts\<close>).

  Cron ticks, the threads' lifecycle hooks and the routes run concurrently and each of their
  statements is atomic in D1, so what can happen to the tables is a sequence of single statements:
  the step relation \<open>run_step\<close>. What holds along every such sequence holds whatever interleaves.

  A thrown value is a \<open>js_error\<close>: its name, its message and the texts found by following \<open>cause\<close>
  (a circular chain is the list of its distinct links).
\<close>

section \<open>Rows\<close>

datatype run_status = RunQueued | RunRunning | RunCompleted | RunWaiting | RunFailed | RunSkipped

datatype run_trigger = Scheduled | Manual

record automaton =
  au_id :: string
  au_workspaceId :: string
  au_agentId :: string
  au_projectId :: "string option"
  au_workbenchId :: "string option"
  au_name :: string
  au_prompt :: string
  au_modelProvider :: "string option"
  au_model :: "string option"
  au_modelInputModalities :: "string option"
  au_scheduleJson :: string
  au_timezone :: string
  au_enabled :: bool
  au_disabledReason :: "string option"
  au_nextDueAt :: "int option"
  au_lastFiredAt :: "int option"
  au_archivedAt :: "int option"
  au_updatedAt :: int

record automaton_run =
  ar_id :: string
  ar_automatonId :: string
  ar_workspaceId :: string
  ar_dueAt :: "int option"
  ar_trigger :: run_trigger
  ar_threadId :: "string option"
  ar_status :: run_status
  ar_error :: "string option"
  ar_startedAt :: "int option"
  ar_finishedAt :: "int option"
  ar_createdAt :: int
  ar_updatedAt :: int

type_synonym automata_rows = "automaton list"
type_synonym run_rows = "automaton_run list"

record automata_db =
  db_automata :: automata_rows
  db_runs :: run_rows

record js_error =
  je_name :: string
  je_message :: string
  je_causes :: "string list"

text \<open>\<open>String(error)\<close> of an \<open>Error\<close>.\<close>

definition error_string :: "js_error \<Rightarrow> string" where
  "error_string e = (if je_message e = [] then je_name e else je_name e @ '': '' @ je_message e)"

definition UNFINISHED_RUN_STATUSES :: "run_status list" where
  "UNFINISHED_RUN_STATUSES = [RunQueued, RunRunning]"

definition TERMINAL_RUN_STATUSES :: "run_status list" where
  "TERMINAL_RUN_STATUSES = [RunCompleted, RunWaiting, RunFailed, RunSkipped]"

abbreviation unfinished :: "automaton_run \<Rightarrow> bool" where
  "unfinished r \<equiv> ar_status r \<in> set UNFINISHED_RUN_STATUSES"

section \<open>The repository\<close>

definition is_due :: "int \<Rightarrow> automaton \<Rightarrow> bool" where
  "is_due now a = (au_enabled a \<and> au_archivedAt a = None \<and>
     (case au_nextDueAt a of None \<Rightarrow> False | Some t \<Rightarrow> t < now + 1))"

definition listDue :: "int \<Rightarrow> nat \<Rightarrow> automata_rows \<Rightarrow> automata_rows" where
  "listDue now limit t =
     take limit (sort_key (\<lambda>a. (the (au_nextDueAt a), au_id a)) (sql_select (is_due now) t))"

definition getById :: "string \<Rightarrow> automata_rows \<Rightarrow> automaton option" where
  "getById i t = sql_row au_id i t"

text \<open>The primary key and the partial unique index on \<open>(automaton_id, due_at)\<close> of scheduled runs; two
  \<open>NULL\<close> due times do not conflict.\<close>

definition same_due :: "automaton_run \<Rightarrow> automaton_run \<Rightarrow> bool" where
  "same_due r x = (ar_trigger r = Scheduled \<and> ar_trigger x = Scheduled \<and> ar_dueAt x \<noteq> None \<and>
     ar_automatonId r = ar_automatonId x \<and> ar_dueAt r = ar_dueAt x)"

definition unique_error :: "string \<Rightarrow> js_error" where
  "unique_error columns = \<lparr>je_name = ''Error'',
     je_message = ''D1_ERROR: UNIQUE constraint failed: '' @ columns, je_causes = []\<rparr>"

definition createRun :: "automaton_run \<Rightarrow> run_rows \<Rightarrow> run_rows \<times> (js_error + unit)" where
  "createRun x t =
     (if \<exists>r \<in> set t. ar_id r = ar_id x then (t, Inl (unique_error ''automaton_runs.id''))
      else if \<exists>r \<in> set t. same_due r x
        then (t, Inl (unique_error ''automaton_runs.automaton_id, automaton_runs.due_at''))
      else (t @ [x], Inr ()))"

definition findUnfinishedRun :: "string \<Rightarrow> run_rows \<Rightarrow> automaton_run option" where
  "findUnfinishedRun i t = find (\<lambda>r. ar_automatonId r = i \<and> unfinished r) t"

definition listRuns :: "string \<Rightarrow> nat \<Rightarrow> run_rows \<Rightarrow> run_rows" where
  "listRuns i limit t = take limit (sort_key (\<lambda>r. - ar_createdAt r)
     (sql_select (\<lambda>r. ar_automatonId r = i) t))"

definition failed_run :: "string \<Rightarrow> int \<Rightarrow> automaton_run \<Rightarrow> automaton_run" where
  "failed_run err now r = r\<lparr>ar_status := RunFailed, ar_error := Some err, ar_finishedAt := Some now,
     ar_updatedAt := now\<rparr>"

definition reapRuns :: "run_status \<Rightarrow> int \<Rightarrow> string \<Rightarrow> int \<Rightarrow> run_rows \<Rightarrow> run_rows" where
  "reapRuns status before err now =
     sql_update (\<lambda>r. ar_status r = status \<and> ar_updatedAt r < before) (failed_run err now)"

definition failRun :: "string \<Rightarrow> string \<Rightarrow> int \<Rightarrow> run_rows \<Rightarrow> run_rows" where
  "failRun i err now = sql_update (\<lambda>r. ar_id r = i \<and> unfinished r) (failed_run err now)"

definition setRunThread :: "string \<Rightarrow> string \<Rightarrow> int \<Rightarrow> run_rows \<Rightarrow> run_rows" where
  "setRunThread i thread now =
     sql_update (\<lambda>r. ar_id r = i) (\<lambda>r. r\<lparr>ar_threadId := Some thread, ar_updatedAt := now\<rparr>)"

definition fired_at :: "int option \<Rightarrow> automaton \<Rightarrow> automaton" where
  "fired_at lastFiredAt a = (case lastFiredAt of None \<Rightarrow> a | Some t \<Rightarrow> a\<lparr>au_lastFiredAt := Some t\<rparr>)"

definition advanceSchedule :: "int \<Rightarrow> string \<Rightarrow> int \<Rightarrow> int option \<Rightarrow> automata_rows \<Rightarrow> automata_rows" where
  "advanceSchedule wall i nextDueAt lastFiredAt =
     sql_update (\<lambda>a. au_id a = i)
       (\<lambda>a. (fired_at lastFiredAt (a\<lparr>au_nextDueAt := Some nextDueAt\<rparr>))\<lparr>au_updatedAt := wall\<rparr>)"

definition disableWithReason :: "string \<Rightarrow> string \<Rightarrow> int \<Rightarrow> automata_rows \<Rightarrow> automata_rows" where
  "disableWithReason i reason now =
     sql_update (\<lambda>a. au_id a = i)
       (\<lambda>a. a\<lparr>au_enabled := False, au_disabledReason := Some reason, au_updatedAt := now\<rparr>)"

definition disableAfterOnceFire :: "int \<Rightarrow> string \<Rightarrow> int option \<Rightarrow> automata_rows \<Rightarrow> automata_rows" where
  "disableAfterOnceFire wall i lastFiredAt =
     sql_update (\<lambda>a. au_id a = i)
       (\<lambda>a. (fired_at lastFiredAt (a\<lparr>au_enabled := False, au_nextDueAt := None,
          au_disabledReason := None\<rparr>))\<lparr>au_updatedAt := wall\<rparr>)"

section \<open>The most recent run of each automaton\<close>

text \<open>\<open>max(created_at)\<close> by automaton, joined back, ordered by id, first row kept.\<close>

definition newest_of :: "run_rows \<Rightarrow> automaton_run \<Rightarrow> bool" where
  "newest_of t r = (\<forall>x \<in> set t. ar_automatonId x = ar_automatonId r \<longrightarrow> ar_createdAt x \<le> ar_createdAt r)"

fun first_per_automaton :: "run_rows \<Rightarrow> run_rows \<Rightarrow> run_rows" where
  "first_per_automaton [] acc = acc"
| "first_per_automaton (r # rs) acc =
     first_per_automaton rs
       (if \<exists>x \<in> set acc. ar_automatonId x = ar_automatonId r then acc else acc @ [r])"

definition listLatestRunsFor :: "string list \<Rightarrow> run_rows \<Rightarrow> run_rows" where
  "listLatestRunsFor ids t =
     (if ids = [] then []
      else let rows = sql_select (\<lambda>r. ar_automatonId r \<in> set ids) t
           in first_per_automaton (sort_key ar_id (sql_select (newest_of rows) rows)) [])"

section \<open>The lifecycle of a run\<close>

datatype lifecycle_event =
  ThreadStarted int
| ThreadCompleted int
| ThreadAttentionRequired int "string option"
| ThreadFailed int "string option"

definition with_reason :: "string option \<Rightarrow> automaton_run \<Rightarrow> automaton_run" where
  "with_reason reason r = (case reason of
     None \<Rightarrow> r | Some e \<Rightarrow> if e = [] then r else r\<lparr>ar_error := Some e\<rparr>)"

fun transitionFor :: "lifecycle_event \<Rightarrow> run_status list \<times> (automaton_run \<Rightarrow> automaton_run)" where
  "transitionFor (ThreadStarted startedAt) =
     ([RunQueued], \<lambda>r. r\<lparr>ar_status := RunRunning, ar_startedAt := Some startedAt\<rparr>)"
| "transitionFor (ThreadCompleted occurredAt) =
     ([RunQueued, RunRunning], \<lambda>r. r\<lparr>ar_status := RunCompleted, ar_finishedAt := Some occurredAt\<rparr>)"
| "transitionFor (ThreadAttentionRequired occurredAt reason) =
     ([RunQueued, RunRunning], \<lambda>r. with_reason reason (r\<lparr>ar_status := RunWaiting\<rparr>))"
| "transitionFor (ThreadFailed occurredAt reason) =
     ([RunQueued, RunRunning],
      \<lambda>r. with_reason reason (r\<lparr>ar_status := RunFailed, ar_finishedAt := Some occurredAt\<rparr>))"

definition applyAutomatonRunLifecycleEvent :: "int \<Rightarrow> string \<Rightarrow> lifecycle_event \<Rightarrow> run_rows \<Rightarrow> run_rows" where
  "applyAutomatonRunLifecycleEvent wall i event =
     sql_update (\<lambda>r. ar_id r = i \<and> ar_status r \<in> set (fst (transitionFor event)))
       (\<lambda>r. (snd (transitionFor event) r)\<lparr>ar_updatedAt := wall\<rparr>)"

section \<open>Every interleaving of statements\<close>

inductive run_step :: "run_rows \<Rightarrow> run_rows \<Rightarrow> bool" where
  step_create: "run_step t (fst (createRun x t))"
| step_reap: "status \<in> set UNFINISHED_RUN_STATUSES \<Longrightarrow> run_step t (reapRuns status before err now t)"
| step_fail: "run_step t (failRun i err now t)"
| step_thread: "run_step t (setRunThread i thread now t)"
| step_lifecycle: "run_step t (applyAutomatonRunLifecycleEvent wall i event t)"

inductive_cases run_stepE: "run_step t t'"

lemmas run_updates = reapRuns_def failRun_def setRunThread_def applyAutomatonRunLifecycleEvent_def
lemmas run_statuses = UNFINISHED_RUN_STATUSES_def TERMINAL_RUN_STATUSES_def

text \<open>What no statement but the insert touches, and how a row may change.\<close>

definition run_key :: "automaton_run \<Rightarrow> string \<times> string \<times> int option \<times> run_trigger" where
  "run_key r = (ar_id r, ar_automatonId r, ar_dueAt r, ar_trigger r)"

definition advances :: "automaton_run \<Rightarrow> automaton_run \<Rightarrow> bool" where
  "advances r r' =
     (run_key r' = run_key r \<and>
      (ar_status r \<in> set TERMINAL_RUN_STATUSES \<longrightarrow>
         ar_status r' = ar_status r \<and> ar_error r' = ar_error r \<and> ar_finishedAt r' = ar_finishedAt r) \<and>
      (ar_status r \<noteq> RunQueued \<longrightarrow> ar_status r' \<noteq> RunQueued \<and> ar_startedAt r' = ar_startedAt r))"

lemma advances_refl [simp]: "advances r r"
  by (simp add: advances_def)

lemma advances_trans: "advances r s \<Longrightarrow> advances s u \<Longrightarrow> advances r u"
  by (auto simp: advances_def run_statuses)

lemma with_reason_fields [simp]:
  "ar_id (with_reason e r) = ar_id r" "ar_automatonId (with_reason e r) = ar_automatonId r"
  "ar_dueAt (with_reason e r) = ar_dueAt r" "ar_trigger (with_reason e r) = ar_trigger r"
  "ar_status (with_reason e r) = ar_status r" "ar_startedAt (with_reason e r) = ar_startedAt r"
  by (simp_all add: with_reason_def split: option.splits)

lemma transition_advances:
  assumes "ar_status r \<in> set (fst (transitionFor event))"
  shows "advances r ((snd (transitionFor event) r)\<lparr>ar_updatedAt := wall\<rparr>)"
  using assms by (cases event) (auto simp: advances_def run_key_def run_statuses)

lemma failed_advances: "unfinished r \<Longrightarrow> advances r (failed_run err now r)"
  by (auto simp: advances_def run_key_def failed_run_def run_statuses)

lemma update_advances:
  assumes "\<And>r. P r \<Longrightarrow> advances r (f r)"
  shows "list_all2 advances t (sql_update P f t)"
  using assms by (simp add: sql_update_def list_all2_conv_all_nth)

lemma thread_advances: "advances r (r\<lparr>ar_threadId := Some thread, ar_updatedAt := now\<rparr>)"
  by (simp add: advances_def run_key_def)

lemma run_step_cases:
  assumes "run_step t t'"
  shows "list_all2 advances t t' \<or> (\<exists>x. createRun x t = (t', Inr ()))"
  using assms
proof cases
  case (step_create x)
  then show ?thesis by (auto simp: createRun_def list_all2_refl)
next
  case (step_reap status before err now)
  then have "list_all2 advances t t'"
    by (auto simp: reapRuns_def intro!: update_advances failed_advances)
  then show ?thesis ..
next
  case (step_fail i err now)
  then have "list_all2 advances t t'"
    by (auto simp: failRun_def intro!: update_advances failed_advances)
  then show ?thesis ..
next
  case (step_thread i thread now)
  then have "list_all2 advances t t'"
    by (auto simp: setRunThread_def intro!: update_advances thread_advances)
  then show ?thesis ..
next
  case (step_lifecycle wall i event)
  then have "list_all2 advances t t'"
    by (auto simp: applyAutomatonRunLifecycleEvent_def intro!: update_advances transition_advances)
  then show ?thesis ..
qed

section \<open>One run per due time, and closure is one-way\<close>

definition runs_ok :: "run_rows \<Rightarrow> bool" where
  "runs_ok t = (sql_keyed ar_id t \<and> pairwise (\<lambda>r x. \<not> same_due r x) (set t))"

lemma createRun_ok: "runs_ok t \<Longrightarrow> createRun x t = (t', Inr ()) \<Longrightarrow> runs_ok t'"
  by (auto simp: createRun_def runs_ok_def sql_keyed_def pairwise_insert same_due_def image_iff
      split: if_splits) metis

lemma advances_same_due:
  "advances r r' \<Longrightarrow> advances x x' \<Longrightarrow> same_due r' x' \<longleftrightarrow> same_due r x"
  by (auto simp: advances_def run_key_def same_due_def)

lemma list_all2_advances_ids: "list_all2 advances t t' \<Longrightarrow> map ar_id t' = map ar_id t"
  by (induction rule: list_all2_induct) (auto simp: advances_def run_key_def)

lemma list_all2_advances_back:
  "list_all2 advances t t' \<Longrightarrow> r' \<in> set t' \<Longrightarrow> \<exists>r \<in> set t. advances r r'"
  by (induction rule: list_all2_induct) auto

lemma list_all2_advances_forth:
  "list_all2 advances t t' \<Longrightarrow> r \<in> set t \<Longrightarrow> \<exists>r' \<in> set t'. advances r r'"
  by (induction rule: list_all2_induct) auto

lemma advances_ok:
  assumes "runs_ok t" and "list_all2 advances t t'"
  shows "runs_ok t'"
proof -
  have "\<not> same_due r' x'" if sel: "r' \<in> set t'" "x' \<in> set t'" "r' \<noteq> x'" for r' x'
  proof -
    obtain r x where rx: "r \<in> set t" "advances r r'" "x \<in> set t" "advances x x'"
      using list_all2_advances_back [OF assms(2)] sel(1,2) by blast
    have "sql_keyed ar_id t'"
      using assms by (simp add: runs_ok_def sql_keyed_def list_all2_advances_ids)
    with sel have "ar_id r' \<noteq> ar_id x'" by (auto simp: sql_keyed_def distinct_map inj_on_def)
    with rx have "r \<noteq> x" by (auto simp: advances_def run_key_def)
    with rx assms(1) have "\<not> same_due r x" by (auto simp: runs_ok_def pairwise_def)
    with rx show ?thesis by (simp add: advances_same_due)
  qed
  then show ?thesis
    using assms by (auto simp: runs_ok_def sql_keyed_def list_all2_advances_ids pairwise_def)
qed

lemma run_step_ok: "run_step t t' \<Longrightarrow> runs_ok t \<Longrightarrow> runs_ok t'"
  using run_step_cases [of t t'] advances_ok createRun_ok by blast

lemma run_steps_ok: "run_step\<^sup>*\<^sup>* t t' \<Longrightarrow> runs_ok t \<Longrightarrow> runs_ok t'"
  by (induction rule: rtranclp_induct) (auto intro: run_step_ok)

lemma run_step_forth:
  assumes "run_step t t'" and "r \<in> set t"
  shows "\<exists>r' \<in> set t'. advances r r'"
  using run_step_cases [OF assms(1)]
proof
  assume "list_all2 advances t t'"
  from list_all2_advances_forth [OF this assms(2)] show ?thesis .
next
  assume "\<exists>x. createRun x t = (t', Inr ())"
  then have "set t \<subseteq> set t'" by (auto simp: createRun_def split: if_splits)
  with assms(2) show ?thesis by (auto intro: bexI [of _ r])
qed

lemma run_steps_forth: "run_step\<^sup>*\<^sup>* t t' \<Longrightarrow> r \<in> set t \<Longrightarrow> \<exists>r' \<in> set t'. advances r r'"
proof (induction rule: rtranclp_induct)
  case base
  then show ?case by (auto intro: bexI [of _ r])
next
  case (step u v)
  then obtain s where "s \<in> set u" "advances r s" by blast
  with run_step_forth [OF step.hyps(2)] show ?case by (blast intro: advances_trans)
qed

text \<open>C3: a due time is claimed at most once. Whatever statements of whatever ticks, lifecycle hooks and
  routes interleave, the table of runs never holds two scheduled runs of the same automaton for the
  same due time, nor two runs with one id.\<close>

theorem due_claimed_once:
  assumes "run_step\<^sup>*\<^sup>* [] t" and "r \<in> set t" and "x \<in> set t" and "same_due r x \<or> ar_id r = ar_id x"
  shows "r = x"
proof -
  have "runs_ok t" using run_steps_ok [OF assms(1)] by (simp add: runs_ok_def)
  then have "ar_id r = ar_id x \<Longrightarrow> r = x" "r \<noteq> x \<Longrightarrow> \<not> same_due r x"
    using assms(2,3) by (auto simp: runs_ok_def sql_keyed_def distinct_map inj_on_def pairwise_def)
  with assms(4) show ?thesis by blast
qed

text \<open>C6: closure is one-way. Along every interleaving a run stays in the table; once it is completed,
  waiting for approval, failed or skipped, its status, error and finish time never change again; once
  it left the queue it never returns to it and its start time is fixed.\<close>

theorem run_closure_final:
  assumes "run_step\<^sup>*\<^sup>* t t'" and "runs_ok t" and "r \<in> set t"
  shows "\<exists>r' \<in> set t'. sql_row ar_id (ar_id r) t' = Some r' \<and>
    (ar_status r \<in> set TERMINAL_RUN_STATUSES \<longrightarrow>
       ar_status r' = ar_status r \<and> ar_error r' = ar_error r \<and> ar_finishedAt r' = ar_finishedAt r) \<and>
    (ar_status r \<noteq> RunQueued \<longrightarrow> ar_status r' \<noteq> RunQueued \<and> ar_startedAt r' = ar_startedAt r)"
proof -
  obtain r' where r': "r' \<in> set t'" "advances r r'"
    using run_steps_forth [OF assms(1,3)] by blast
  have "sql_keyed ar_id t'" using run_steps_ok [OF assms(1,2)] by (simp add: runs_ok_def)
  with r' have "sql_row ar_id (ar_id r) t' = Some r'"
    by (auto simp: sql_row_keyed advances_def run_key_def)
  with r' show ?thesis by (auto simp: advances_def)
qed

section \<open>Concrete runs\<close>

definition demo_run :: "string \<Rightarrow> run_status \<Rightarrow> automaton_run" where
  "demo_run i status = \<lparr>ar_id = i, ar_automatonId = ''a'', ar_workspaceId = ''w'', ar_dueAt = Some 5,
     ar_trigger = Scheduled, ar_threadId = None, ar_status = status, ar_error = None, ar_startedAt = None,
     ar_finishedAt = None, ar_createdAt = 5, ar_updatedAt = 5\<rparr>"

lemma demo_run_steps: "run_step\<^sup>*\<^sup>* [] [demo_run ''r'' RunQueued]"
proof -
  have "fst (createRun (demo_run ''s'' RunQueued) (fst (createRun (demo_run ''r'' RunQueued) []))) =
      [demo_run ''r'' RunQueued]"
    by (simp add: createRun_def demo_run_def same_due_def)
  then show ?thesis
    by (metis (no_types) rtranclp.simps step_create)
qed

theorem due_claimed_once_witness:
  "\<exists>t. run_step\<^sup>*\<^sup>* [] t \<and> demo_run ''r'' RunQueued \<in> set t \<and> demo_run ''s'' RunQueued \<notin> set t"
proof -
  have "same_due (demo_run ''s'' RunQueued) (demo_run ''r'' RunQueued)"
    by (simp add: same_due_def demo_run_def)
  with due_claimed_once [OF demo_run_steps, of "demo_run ''s'' RunQueued" "demo_run ''r'' RunQueued"]
  have "demo_run ''s'' RunQueued \<notin> set [demo_run ''r'' RunQueued]"
    by (auto simp: demo_run_def)
  with demo_run_steps show ?thesis by force
qed

theorem run_closure_final_witness:
  "\<exists>r' \<in> set (applyAutomatonRunLifecycleEvent 9 ''r'' (ThreadStarted 9) [demo_run ''r'' RunFailed]).
     ar_status r' = RunFailed"
proof -
  have "run_step\<^sup>*\<^sup>* [demo_run ''r'' RunFailed]
      (applyAutomatonRunLifecycleEvent 9 ''r'' (ThreadStarted 9) [demo_run ''r'' RunFailed])"
    by (blast intro: step_lifecycle)
  from run_closure_final [OF this, of "demo_run ''r'' RunFailed"] show ?thesis
    by (auto simp: runs_ok_def sql_keyed_def run_statuses demo_run_def)
qed

end
