(* ===== verification/Automata_Firing.thy ===== *)
theory Automata_Firing
  imports Automaton_Schedule Automata_Store
begin

text \<open>
  The automata scheduler: \<open>src/automata/fire-policy.ts\<close> and \<open>src/automata/fire-due.ts\<close>.

  A tick reads its environment from a \<open>tick_env\<close>: the wall clock, the outcome of every D1 call it
  makes (it can fail before the statement took effect, or after), the tables of agents, projects and
  workbenches it looks up, the creation of the thread, the remote call that starts it, and the
  lifecycle events the thread has reported by the time that call comes back. Ids drawn from
  \<open>crypto.randomUUID\<close> are functions of the automaton. A tick makes each kind of call at most once per
  automaton, so outcomes are indexed by call and automaton.
\<close>

section \<open>The fire policy\<close>

definition AUTOMATON_FIRE_BATCH :: nat where "AUTOMATON_FIRE_BATCH = 50"
definition AUTOMATON_GRACE_MS :: int where "AUTOMATON_GRACE_MS = 3600000"
definition AUTOMATON_RUNNING_TIMEOUT_MS :: int where "AUTOMATON_RUNNING_TIMEOUT_MS = 7200000"
definition AUTOMATON_QUEUED_TIMEOUT_MS :: int where "AUTOMATON_QUEUED_TIMEOUT_MS = 300000"

datatype due_action = Fire | SkipOverlap | SkipStale

definition decideDueAction :: "int \<Rightarrow> int \<Rightarrow> bool \<Rightarrow> due_action" where
  "decideDueAction dueAt now hasUnfinishedRun =
     (if hasUnfinishedRun then SkipOverlap
      else if now - dueAt > AUTOMATON_GRACE_MS then SkipStale
      else Fire)"

fun contains_text :: "string \<Rightarrow> string \<Rightarrow> bool" where
  "contains_text [] needle = (needle = [])"
| "contains_text (c # cs) needle = (take (length needle) (c # cs) = needle \<or> contains_text cs needle)"

fun any_includes :: "nat \<Rightarrow> string list \<Rightarrow> bool" where
  "any_includes 0 texts = False"
| "any_includes (Suc depth) [] = False"
| "any_includes (Suc depth) (t # texts) =
     (contains_text t ''UNIQUE constraint failed'' \<or> any_includes depth texts)"

definition isUniqueConstraintError :: "js_error \<Rightarrow> bool" where
  "isUniqueConstraintError e = any_includes 10 (je_message e # je_causes e)"

text \<open>\<open>AutomatonRunFailedAfterClaim\<close>, and everything else \<open>startAutomatonRun\<close> throws.\<close>

datatype fire_error = RunFailedAfterClaim js_error | Thrown js_error

definition INVALID_SCHEDULE_DISABLED_REASON :: string where
  "INVALID_SCHEDULE_DISABLED_REASON = ''Schedule is invalid.''"

section \<open>The environment of a tick\<close>

record agent =
  ag_provider :: string
  ag_model :: string
  ag_modelInputModalities :: string
  ag_showReasoning :: bool

record thread_input =
  ti_id :: string
  ti_workspaceId :: string
  ti_agentId :: string
  ti_projectId :: "string option"
  ti_modelProvider :: string
  ti_model :: string
  ti_modelInputModalities :: string
  ti_showReasoning :: bool
  ti_title :: string
  ti_automatonId :: string
  ti_automatonRunId :: string
  ti_createdAt :: int
  ti_workbenchId :: "string option"

datatype db_call =
  ReapRunning | ReapQueued | ListDue
| DisableInvalid string | FindUnfinished string | RecordSkip string | Claim string | FailRun string
| ConsumeDue string

datatype fault = Fine | FailsBefore js_error | FailsAfter js_error

record tick_env =
  te_wall :: int
  te_fault :: "db_call \<Rightarrow> fault"
  te_runId :: "string \<Rightarrow> string"
  te_threadId :: "string \<Rightarrow> string"
  te_json :: "string \<Rightarrow> json option"
  te_cron_ok :: "string \<Rightarrow> bool"
  te_cron_next :: "string \<Rightarrow> string \<Rightarrow> int \<Rightarrow> string + int"
  te_agent :: "string \<Rightarrow> js_error + agent option"
  te_project :: "string \<Rightarrow> string \<Rightarrow> js_error + string option"
  te_workbench :: "string \<Rightarrow> string \<Rightarrow> js_error + string"
  te_createThread :: "thread_input \<Rightarrow> js_error option"
  te_begin :: "string \<Rightarrow> string \<Rightarrow> js_error option"
  te_events :: "string \<Rightarrow> (int \<times> lifecycle_event) list"
  te_formatDue :: "int \<Rightarrow> string \<Rightarrow> string"

definition db_outcome :: "fault \<Rightarrow> ('s \<Rightarrow> 's \<times> (js_error + 'a)) \<Rightarrow> 's \<Rightarrow> 's \<times> (js_error + 'a)" where
  "db_outcome f statement s =
     (case f of
        Fine \<Rightarrow> statement s
      | FailsBefore e \<Rightarrow> (s, Inl e)
      | FailsAfter e \<Rightarrow> (fst (statement s), Inl e))"

definition on_runs :: "(run_rows \<Rightarrow> run_rows \<times> 'a) \<Rightarrow> automata_db \<Rightarrow> automata_db \<times> 'a" where
  "on_runs f d = (case f (db_runs d) of (t, x) \<Rightarrow> (d\<lparr>db_runs := t\<rparr>, x))"

definition on_automata :: "(automata_rows \<Rightarrow> automata_rows) \<Rightarrow> automata_db \<Rightarrow> automata_db \<times> (js_error + unit)" where
  "on_automata f d = (d\<lparr>db_automata := f (db_automata d)\<rparr>, Inr ())"

definition no_result :: "(run_rows \<Rightarrow> run_rows) \<Rightarrow> run_rows \<Rightarrow> run_rows \<times> (js_error + unit)" where
  "no_result f t = (f t, Inr ())"

section \<open>Starting a run\<close>

definition throw_error :: "string \<Rightarrow> js_error" where
  "throw_error message = \<lparr>je_name = ''Error'', je_message = message, je_causes = []\<rparr>"

definition thread_title :: "tick_env \<Rightarrow> automaton \<Rightarrow> int option \<Rightarrow> string" where
  "thread_title env a dueAt =
     au_name a @ '' '' @ [CHR 0xE2, CHR 0x80, CHR 0x94] @ '' '' @
     (case dueAt of None \<Rightarrow> ''Manual run'' | Some t \<Rightarrow> te_formatDue env t (au_timezone a))"

text \<open>The model: the automaton's override when both halves are set, the agent's otherwise.\<close>

definition resolve_model :: "automaton \<Rightarrow> agent \<Rightarrow> string \<times> string \<times> string" where
  "resolve_model a ag =
     (case (au_modelProvider a, au_model a) of
        (Some provider, Some model) \<Rightarrow>
          (provider, model, case au_modelInputModalities a of None \<Rightarrow> ''[\"text\"]'' | Some m \<Rightarrow> m)
      | _ \<Rightarrow> (ag_provider ag, ag_model ag, ag_modelInputModalities ag))"

text \<open>The workbench: the automaton's own, or the project's default; one that is gone is dropped.\<close>

definition resolve_workbench :: "tick_env \<Rightarrow> automaton \<Rightarrow> js_error + string option" where
  "resolve_workbench env a =
     (case (case au_workbenchId a of
              Some w \<Rightarrow> Inr (Some w)
            | None \<Rightarrow> (case au_projectId a of
                None \<Rightarrow> Inr None
              | Some p \<Rightarrow> if p = [] then Inr None else te_project env p (au_workspaceId a))) of
        Inl e \<Rightarrow> Inl e
      | Inr None \<Rightarrow> Inr None
      | Inr (Some w) \<Rightarrow> (case te_workbench env w (au_workspaceId a) of
          Inl _ \<Rightarrow> Inr None | Inr i \<Rightarrow> Inr (Some i)))"

definition thread_of :: "tick_env \<Rightarrow> automaton \<Rightarrow> int option \<Rightarrow> agent \<Rightarrow> string option \<Rightarrow> thread_input" where
  "thread_of env a dueAt ag workbenchId =
     (case resolve_model a ag of (provider, model, modalities) \<Rightarrow>
        \<lparr>ti_id = te_threadId env (au_id a), ti_workspaceId = au_workspaceId a, ti_agentId = au_agentId a,
         ti_projectId = au_projectId a, ti_modelProvider = provider, ti_model = model,
         ti_modelInputModalities = modalities, ti_showReasoning = ag_showReasoning ag,
         ti_title = thread_title env a dueAt, ti_automatonId = au_id a,
         ti_automatonRunId = te_runId env (au_id a), ti_createdAt = te_wall env,
         ti_workbenchId = workbenchId\<rparr>)"

text \<open>Everything between the claim and the return: the second \<open>try\<close> block.\<close>

definition launch :: "tick_env \<Rightarrow> automaton \<Rightarrow> int option \<Rightarrow> js_error + unit" where
  "launch env a dueAt =
     (case te_agent env (au_agentId a) of
        Inl e \<Rightarrow> Inl e
      | Inr None \<Rightarrow> Inl (throw_error (''automaton_agent_missing:'' @ au_agentId a))
      | Inr (Some ag) \<Rightarrow> (case resolve_workbench env a of
          Inl e \<Rightarrow> Inl e
        | Inr workbenchId \<Rightarrow> (case te_createThread env (thread_of env a dueAt ag workbenchId) of
            Some e \<Rightarrow> Inl e
          | None \<Rightarrow> (case te_begin env (te_threadId env (au_id a)) (au_prompt a) of
              Some e \<Rightarrow> Inl e | None \<Rightarrow> Inr ()))))"

definition apply_events :: "string \<Rightarrow> (int \<times> lifecycle_event) list \<Rightarrow> run_rows \<Rightarrow> run_rows" where
  "apply_events i events t = fold (\<lambda>(wall, event). applyAutomatonRunLifecycleEvent wall i event) events t"

definition claimed_run :: "tick_env \<Rightarrow> automaton \<Rightarrow> run_trigger \<Rightarrow> int option \<Rightarrow> automaton_run" where
  "claimed_run env a trigger dueAt =
     \<lparr>ar_id = te_runId env (au_id a), ar_automatonId = au_id a, ar_workspaceId = au_workspaceId a,
      ar_dueAt = dueAt, ar_trigger = trigger, ar_threadId = Some (te_threadId env (au_id a)),
      ar_status = RunQueued, ar_error = None, ar_startedAt = None, ar_finishedAt = None,
      ar_createdAt = te_wall env, ar_updatedAt = te_wall env\<rparr>"

definition startAutomatonRun ::
  "tick_env \<Rightarrow> automaton \<Rightarrow> run_trigger \<Rightarrow> int option \<Rightarrow> automata_db \<Rightarrow>
   automata_db \<times> (fire_error + string \<times> string)" where
  "startAutomatonRun env a trigger dueAt d =
     (case db_outcome (te_fault env (Claim (au_id a)))
            (on_runs (createRun (claimed_run env a trigger dueAt))) d of
        (d1, Inl e) \<Rightarrow> (d1, Inl (Thrown e))
      | (d1, Inr _) \<Rightarrow>
          (let i = te_runId env (au_id a);
               d2 = d1\<lparr>db_runs := apply_events i (te_events env i) (db_runs d1)\<rparr>
           in case launch env a dueAt of
                Inr _ \<Rightarrow> (d2, Inr (i, te_threadId env (au_id a)))
              | Inl e \<Rightarrow>
                  (case db_outcome (te_fault env (FailRun (au_id a)))
                         (on_runs (no_result (failRun i (error_string e) (te_wall env)))) d2 of
                     (d3, Inl e') \<Rightarrow> (d3, Inl (Thrown e'))
                   | (d3, Inr _) \<Rightarrow> (d3, Inl (RunFailedAfterClaim e)))))"

section \<open>One automaton of the batch\<close>

datatype due_outcome = NotDue | Fired | Skipped | Escapes js_error

definition skipped_run :: "tick_env \<Rightarrow> int \<Rightarrow> automaton \<Rightarrow> int \<Rightarrow> due_action \<Rightarrow> automaton_run" where
  "skipped_run env now a dueAt action =
     \<lparr>ar_id = te_runId env (au_id a), ar_automatonId = au_id a, ar_workspaceId = au_workspaceId a,
      ar_dueAt = Some dueAt, ar_trigger = Scheduled, ar_threadId = None, ar_status = RunSkipped,
      ar_error = Some (if action = SkipOverlap then ''previous run still unfinished''
                       else ''missed due window''),
      ar_startedAt = None, ar_finishedAt = None, ar_createdAt = now, ar_updatedAt = now\<rparr>"

text \<open>Advance a recurring schedule, disable a one-shot one; \<open>next_due\<close> is \<open>nextDueAt\<close>, unset for the
  latter.\<close>

definition consumeDue ::
  "tick_env \<Rightarrow> automaton \<Rightarrow> int option \<Rightarrow> int option \<Rightarrow> automata_db \<Rightarrow> automata_db \<times> (js_error + unit)" where
  "consumeDue env a next_due lastFiredAt d =
     db_outcome (te_fault env (ConsumeDue (au_id a)))
       (case next_due of
          None \<Rightarrow> on_automata (disableAfterOnceFire (te_wall env) (au_id a) lastFiredAt)
        | Some n \<Rightarrow> on_automata (advanceSchedule (te_wall env) (au_id a) n lastFiredAt)) d"

definition skip_due ::
  "tick_env \<Rightarrow> int \<Rightarrow> automaton \<Rightarrow> int \<Rightarrow> due_action \<Rightarrow> int option \<Rightarrow> automata_db \<Rightarrow> automata_db" where
  "skip_due env now a dueAt action next_due d =
     (case db_outcome (te_fault env (RecordSkip (au_id a)))
            (on_runs (createRun (skipped_run env now a dueAt action))) d of
        (d1, Inl e) \<Rightarrow> if isUniqueConstraintError e then fst (consumeDue env a next_due None d1) else d1
      | (d1, Inr _) \<Rightarrow> fst (consumeDue env a next_due None d1))"

definition fire_due ::
  "tick_env \<Rightarrow> int \<Rightarrow> automaton \<Rightarrow> int \<Rightarrow> int option \<Rightarrow> automata_db \<Rightarrow> automata_db \<times> due_outcome" where
  "fire_due env now a dueAt next_due d =
     (case startAutomatonRun env a Scheduled (Some dueAt) d of
        (d1, Inl (RunFailedAfterClaim _)) \<Rightarrow> (case consumeDue env a next_due None d1 of
            (d2, Inl e) \<Rightarrow> (d2, Escapes e)
          | (d2, Inr _) \<Rightarrow> (d2, Skipped))
      | (d1, Inl (Thrown _)) \<Rightarrow> (d1, Skipped)
      | (d1, Inr _) \<Rightarrow> (case consumeDue env a next_due (Some now) d1 of
            (d2, Inl _) \<Rightarrow> (d2, Skipped)
          | (d2, Inr _) \<Rightarrow> (d2, Fired)))"

definition next_due_of :: "tick_env \<Rightarrow> automaton \<Rightarrow> int \<Rightarrow> automaton_schedule \<Rightarrow> schedule_error + int option" where
  "next_due_of env a dueAt schedule =
     (case schedule of
        Once _ \<Rightarrow> Inr None
      | _ \<Rightarrow> (case computeNextDueAt (te_cron_next env) schedule (au_timezone a) dueAt of
          Inl e \<Rightarrow> Inl e | Inr t \<Rightarrow> Inr (Some t)))"

definition processDue :: "tick_env \<Rightarrow> int \<Rightarrow> automaton \<Rightarrow> automata_db \<Rightarrow> automata_db \<times> due_outcome" where
  "processDue env now a d =
     (case au_nextDueAt a of
        None \<Rightarrow> (d, NotDue)
      | Some dueAt \<Rightarrow> (case parseSchedule (te_json env) (te_cron_ok env) (au_scheduleJson a) of
          Inl _ \<Rightarrow> (fst (db_outcome (te_fault env (DisableInvalid (au_id a)))
              (on_automata (disableWithReason (au_id a) INVALID_SCHEDULE_DISABLED_REASON now)) d), Skipped)
        | Inr schedule \<Rightarrow> (case next_due_of env a dueAt schedule of
            Inl _ \<Rightarrow> (d, Skipped)
          | Inr next_due \<Rightarrow> (case db_outcome (te_fault env (FindUnfinished (au_id a)))
                (on_runs (\<lambda>t. (t, Inr (findUnfinishedRun (au_id a) t)))) d of
              (d1, Inl _) \<Rightarrow> (d1, Skipped)
            | (d1, Inr run) \<Rightarrow>
                (let action = decideDueAction dueAt now (run \<noteq> None)
                 in if action = Fire then fire_due env now a dueAt next_due d1
                    else (skip_due env now a dueAt action next_due d1, Skipped))))))"

section \<open>The tick\<close>

fun fireLoop ::
  "tick_env \<Rightarrow> int \<Rightarrow> automata_rows \<Rightarrow> nat \<Rightarrow> nat \<Rightarrow> automata_db \<Rightarrow> automata_db \<times> (js_error + nat \<times> nat)" where
  "fireLoop env now [] fired skipped d = (d, Inr (fired, skipped))"
| "fireLoop env now (a # due) fired skipped d =
     (case processDue env now a d of
        (d1, NotDue) \<Rightarrow> fireLoop env now due fired skipped d1
      | (d1, Fired) \<Rightarrow> fireLoop env now due (fired + 1) skipped d1
      | (d1, Skipped) \<Rightarrow> fireLoop env now due fired (skipped + 1) d1
      | (d1, Escapes e) \<Rightarrow> (d1, Inl e))"

definition reapStaleRuns :: "tick_env \<Rightarrow> int \<Rightarrow> automata_db \<Rightarrow> automata_db" where
  "reapStaleRuns env now d =
     (case db_outcome (te_fault env ReapRunning) (on_runs (no_result (reapRuns RunRunning
            (now - AUTOMATON_RUNNING_TIMEOUT_MS) ''no completion signal from the thread'' now))) d of
        (d1, Inl _) \<Rightarrow> d1
      | (d1, Inr _) \<Rightarrow> fst (db_outcome (te_fault env ReapQueued) (on_runs (no_result (reapRuns RunQueued
            (now - AUTOMATON_QUEUED_TIMEOUT_MS) ''run never started'' now))) d1))"

definition fireDueAutomata :: "tick_env \<Rightarrow> int \<Rightarrow> automata_db \<Rightarrow> automata_db \<times> (js_error + nat \<times> nat)" where
  "fireDueAutomata env now d =
     (let d1 = reapStaleRuns env now d
      in case te_fault env ListDue of
           Fine \<Rightarrow> fireLoop env now (listDue now AUTOMATON_FIRE_BATCH (db_automata d1)) 0 0 d1
         | _ \<Rightarrow> (d1, Inr (0, 0)))"

section \<open>A tick is a sequence of statements\<close>

abbreviation runs_to :: "automata_db \<Rightarrow> automata_db \<Rightarrow> bool" where
  "runs_to d d' \<equiv> run_step\<^sup>*\<^sup>* (db_runs d) (db_runs d')"

named_theorems tick_steps \<open>every piece of a tick is a sequence of statements on the runs\<close>

lemma runs_to_trans: "runs_to d d1 \<Longrightarrow> runs_to d1 d2 \<Longrightarrow> runs_to d d2"
  by (rule rtranclp_trans)

lemma db_outcome_steps [tick_steps]:
  assumes "runs_to d (fst (statement d))"
  shows "runs_to d (fst (db_outcome f statement d))"
  using assms by (simp add: db_outcome_def split: fault.split)

lemma on_runs_steps:
  assumes "run_step\<^sup>*\<^sup>* (db_runs d) (fst (f (db_runs d)))"
  shows "runs_to d (fst (on_runs f d))"
  using assms by (simp add: on_runs_def case_prod_beta)

lemma single_steps:
  "run_step\<^sup>*\<^sup>* t (fst (createRun x t))"
  "run_step\<^sup>*\<^sup>* t (failRun i err now t)"
  "status \<in> set UNFINISHED_RUN_STATUSES \<Longrightarrow> run_step\<^sup>*\<^sup>* t (reapRuns status before err now t)"
  by (rule r_into_rtranclp, rule run_step.intros, assumption?)+

lemma statement_steps [tick_steps]:
  "runs_to d (fst (on_runs (createRun x) d))"
  "runs_to d (fst (on_runs (no_result (failRun i err now)) d))"
  "runs_to d (fst (on_runs (no_result (reapRuns RunRunning before err now)) d))"
  "runs_to d (fst (on_runs (no_result (reapRuns RunQueued before err now)) d))"
  "runs_to d (fst (on_runs (\<lambda>t. (t, y t)) d))"
  "runs_to d (fst (on_automata g d))"
  by (auto intro!: on_runs_steps single_steps
      simp: no_result_def run_statuses on_automata_def)

lemma apply_events_steps: "run_step\<^sup>*\<^sup>* t (apply_events i events t)"
proof (induction events arbitrary: t)
  case (Cons e events)
  have "run_step t (applyAutomatonRunLifecycleEvent (fst e) i (snd e) t)" by (rule step_lifecycle)
  with Cons.IH show ?case
    by (auto simp: apply_events_def case_prod_beta intro: converse_rtranclp_into_rtranclp)
qed (simp add: apply_events_def)

lemma fst_db_outcome: "db_outcome f st d = (d', r) \<Longrightarrow> runs_to d (fst (st d)) \<Longrightarrow> runs_to d d'"
  using db_outcome_steps by (metis fst_conv)

lemma consumeDue_steps: "runs_to d (fst (consumeDue env a next_due fired d))"
  by (auto simp: consumeDue_def intro!: tick_steps split: option.split)

lemma startAutomatonRun_steps: "runs_to d (fst (startAutomatonRun env a trigger dueAt d))"
proof -
  let ?claim = "db_outcome (te_fault env (Claim (au_id a))) (on_runs (createRun (claimed_run env a trigger dueAt))) d"
  obtain d1 r1 where claim: "?claim = (d1, r1)" by (cases ?claim)
  have to1: "runs_to d d1" by (rule fst_db_outcome [OF claim]) (rule tick_steps)
  show ?thesis
  proof (cases r1)
    case (Inl e)
    with claim to1 show ?thesis by (simp add: startAutomatonRun_def)
  next
    case (Inr u)
    let ?i = "te_runId env (au_id a)"
    let ?d2 = "d1\<lparr>db_runs := apply_events ?i (te_events env ?i) (db_runs d1)\<rparr>"
    have to2: "runs_to d ?d2" using rtranclp_trans [OF to1 apply_events_steps] by simp
    have fail: "runs_to d (fst (db_outcome f (on_runs (no_result (failRun i e w))) ?d2))" for f i e w
      by (rule runs_to_trans [OF to2]) (intro tick_steps)
    show ?thesis
      using claim Inr to2 fail by (auto simp: startAutomatonRun_def Let_def split: sum.split prod.split)
        (metis fst_conv)+
  qed
qed

lemma processDue_steps: "runs_to d (fst (processDue env now a d))"
proof -
  have fire: "runs_to d1 (fst (fire_due env now a dueAt next_due d1))" for d1 dueAt next_due
    using startAutomatonRun_steps [of d1 env a Scheduled "Some dueAt"] consumeDue_steps
    by (auto simp: fire_due_def split: prod.split sum.split fire_error.split)
      (metis fst_conv runs_to_trans)+
  have skip: "runs_to d1 (skip_due env now a dueAt action next_due d1)" for d1 dueAt action next_due
  proof -
    let ?st = "on_runs (createRun (skipped_run env now a dueAt action))"
    obtain d2 r where rec: "db_outcome (te_fault env (RecordSkip (au_id a))) ?st d1 = (d2, r)"
      by (cases "db_outcome (te_fault env (RecordSkip (au_id a))) ?st d1")
    have "runs_to d1 d2" by (rule fst_db_outcome [OF rec]) (rule tick_steps)
    with rec show ?thesis
      by (auto simp: skip_due_def split: sum.split intro: runs_to_trans [OF _ consumeDue_steps])
  qed
  let ?find = "db_outcome (te_fault env (FindUnfinished (au_id a)))
    (on_runs (\<lambda>t. (t, Inr (findUnfinishedRun (au_id a) t)))) d"
  obtain d1 r where find: "?find = (d1, r)" by (cases ?find)
  have "runs_to d d1" by (rule fst_db_outcome [OF find]) (rule tick_steps)
  moreover have "runs_to d (fst (db_outcome f (on_automata g) d))" for f g by (intro tick_steps)
  ultimately show ?thesis
    using find
    by (auto simp: processDue_def Let_def split: option.split sum.split
        intro: runs_to_trans [OF _ fire] runs_to_trans [OF _ skip])
qed

lemma fireLoop_steps: "runs_to d (fst (fireLoop env now due fired skipped d))"
proof (induction due arbitrary: fired skipped d)
  case (Cons a due)
  obtain d1 r where run: "processDue env now a d = (d1, r)" by (cases "processDue env now a d")
  have "runs_to d d1" using processDue_steps [of d env now a] run by simp
  with run Cons.IH show ?case by (cases r) (auto intro: runs_to_trans)
qed simp

lemma reapStaleRuns_steps: "runs_to d (reapStaleRuns env now d)"
proof -
  let ?st = "on_runs (no_result (reapRuns RunRunning (now - AUTOMATON_RUNNING_TIMEOUT_MS)
    ''no completion signal from the thread'' now))"
  obtain d1 r where first: "db_outcome (te_fault env ReapRunning) ?st d = (d1, r)"
    by (cases "db_outcome (te_fault env ReapRunning) ?st d")
  have to1: "runs_to d d1" by (rule fst_db_outcome [OF first]) (rule tick_steps)
  have "runs_to d1 (fst (db_outcome f (on_runs (no_result (reapRuns RunQueued b e n))) d1))" for f b e n
    by (intro tick_steps)
  with first to1 show ?thesis
    by (auto simp: reapStaleRuns_def split: sum.split intro: runs_to_trans)
qed


section \<open>What becomes of a due time\<close>

text \<open>A call that finds no unfinished run leaves the tables alone, whether it fails or not.\<close>

lemma find_outcome:
  "db_outcome f (on_runs (\<lambda>t. (t, Inr (findUnfinishedRun i t)))) d =
     (d, case f of Fine \<Rightarrow> Inr (findUnfinishedRun i (db_runs d)) | FailsBefore e \<Rightarrow> Inl e | FailsAfter e \<Rightarrow> Inl e)"
  by (simp add: db_outcome_def on_runs_def split: fault.split)

lemma find_unfinished_None:
  "findUnfinishedRun i t = None \<longleftrightarrow> (\<forall>r \<in> set t. ar_automatonId r = i \<longrightarrow> \<not> unfinished r)"
  by (auto simp: findUnfinishedRun_def find_None_iff)

definition has_unfinished :: "string \<Rightarrow> run_rows \<Rightarrow> bool" where
  "has_unfinished i t = (\<exists>r \<in> set t. ar_automatonId r = i \<and> unfinished r)"

lemma find_unfinished_iff: "(\<exists>y. findUnfinishedRun i t = Some y) \<longleftrightarrow> has_unfinished i t"
  using find_unfinished_None [of i t] by (auto simp: has_unfinished_def)

lemma consumeDue_runs [simp]: "db_runs (fst (consumeDue env a next_due fired d)) = db_runs d"
  by (simp add: consumeDue_def db_outcome_def on_automata_def split: fault.split option.split)

lemma createRun_new: "set (fst (createRun x t)) \<subseteq> insert x (set t)"
  by (auto simp: createRun_def)

lemma skip_due_new:
  "set (db_runs (skip_due env now a dueAt action next_due d)) \<subseteq>
     insert (skipped_run env now a dueAt action) (set (db_runs d))"
  using createRun_new [of "skipped_run env now a dueAt action" "db_runs d"]
  by (auto simp: skip_due_def db_outcome_def on_runs_def case_prod_beta split: fault.split sum.split)

text \<open>A due time that is overlapped or too old never starts a run. When the automaton has an
  unfinished run, or its due time is past the grace period, the tick counts it as skipped whatever
  fails, and the only row it can add to the runs is a skip record.\<close>

theorem blocked_due_never_fires:
  assumes "au_nextDueAt a = Some dueAt"
    and "has_unfinished (au_id a) (db_runs d) \<or> AUTOMATON_GRACE_MS < now - dueAt"
  shows "snd (processDue env now a d) = Skipped \<and>
    (\<forall>r \<in> set (db_runs (fst (processDue env now a d))) - set (db_runs d). ar_status r = RunSkipped)"
proof -
  have action: "decideDueAction dueAt now (findUnfinishedRun (au_id a) (db_runs d) \<noteq> None) \<noteq> Fire"
    using assms(2) by (auto simp: decideDueAction_def find_unfinished_iff)
  have new: "\<forall>r \<in> set (db_runs (skip_due env now a dueAt action next_due d)) - set (db_runs d).
      ar_status r = RunSkipped" for action next_due
    using skip_due_new [of env now a dueAt action next_due d] by (auto simp: skipped_run_def)
  have disable: "db_runs (fst (db_outcome f (on_automata g) d)) = db_runs d" for f g
    by (simp add: db_outcome_def on_automata_def split: fault.split)
  show ?thesis
    using assms(1) action new
    by (auto simp: processDue_def find_outcome disable Let_def split: sum.split fault.split)
qed

text \<open>The D1 calls the tick makes for an automaton all succeed.\<close>

definition calm :: "tick_env \<Rightarrow> automaton \<Rightarrow> bool" where
  "calm env a = (\<forall>c \<in> {DisableInvalid, FindUnfinished, RecordSkip, Claim, FailRun, ConsumeDue}.
     te_fault env (c (au_id a)) = Fine)"

lemma calmD [simp]:
  assumes "calm env a"
  shows "te_fault env (DisableInvalid (au_id a)) = Fine" "te_fault env (FindUnfinished (au_id a)) = Fine"
    "te_fault env (RecordSkip (au_id a)) = Fine" "te_fault env (Claim (au_id a)) = Fine"
    "te_fault env (FailRun (au_id a)) = Fine" "te_fault env (ConsumeDue (au_id a)) = Fine"
  using assms by (simp_all add: calm_def)

lemma db_outcome_Fine [simp]: "db_outcome Fine statement d = statement d"
  by (simp add: db_outcome_def)

definition claim_taken :: "tick_env \<Rightarrow> automaton \<Rightarrow> int \<Rightarrow> run_rows \<Rightarrow> bool" where
  "claim_taken env a dueAt t = (\<exists>r \<in> set t. ar_id r = te_runId env (au_id a) \<or>
     (ar_trigger r = Scheduled \<and> ar_automatonId r = au_id a \<and> ar_dueAt r = Some dueAt))"

lemma createRun_free:
  assumes "ar_id x = te_runId env (au_id a)" and "ar_automatonId x = au_id a"
    and "ar_dueAt x = Some dueAt" and "ar_trigger x = Scheduled"
  shows "createRun x t = (if claim_taken env a dueAt t then (t, snd (createRun x t)) else (t @ [x], Inr ()))"
    and "(\<exists>e. snd (createRun x t) = Inl e \<and> isUniqueConstraintError e) = claim_taken env a dueAt t"
    and "snd (createRun x t) = Inr () \<longleftrightarrow> \<not> claim_taken env a dueAt t"
proof -
  have unique: "isUniqueConstraintError (unique_error columns)" for columns
    by (simp add: isUniqueConstraintError_def unique_error_def numeral_eq_Suc)
  show "createRun x t = (if claim_taken env a dueAt t then (t, snd (createRun x t)) else (t @ [x], Inr ()))"
    "(\<exists>e. snd (createRun x t) = Inl e \<and> isUniqueConstraintError e) = claim_taken env a dueAt t"
    "snd (createRun x t) = Inr () \<longleftrightarrow> \<not> claim_taken env a dueAt t"
    using assms by (auto simp: createRun_def claim_taken_def same_due_def unique)
qed

lemma consumeDue_calm:
  assumes "calm env a"
  shows "\<exists>d'. consumeDue env a next_due fired d = (d', Inr ())"
  using assms by (simp add: consumeDue_def on_automata_def split: option.split)

text \<open>C4: exactly when a due automaton fires. With D1 answering, a due automaton whose schedule is valid
  fires if and only if it has no unfinished run, its due time is within the grace period, nobody has
  claimed that due time yet, and the thread could be created and started.\<close>

theorem due_fires_iff:
  assumes "calm env a" and "au_nextDueAt a = Some dueAt"
    and "parseSchedule (te_json env) (te_cron_ok env) (au_scheduleJson a) = Inr schedule"
    and "next_due_of env a dueAt schedule = Inr next_due"
  shows "snd (processDue env now a d) = Fired \<longleftrightarrow>
    \<not> has_unfinished (au_id a) (db_runs d) \<and> now - dueAt \<le> AUTOMATON_GRACE_MS \<and>
    \<not> claim_taken env a dueAt (db_runs d) \<and> launch env a (Some dueAt) = Inr ()"
proof -
  let ?x = "claimed_run env a Scheduled (Some dueAt)"
  have x: "ar_id ?x = te_runId env (au_id a)" "ar_automatonId ?x = au_id a" "ar_dueAt ?x = Some dueAt"
    "ar_trigger ?x = Scheduled"
    by (simp_all add: claimed_run_def)
  have fire: "snd (fire_due env now a dueAt next_due d) = Fired \<longleftrightarrow>
      \<not> claim_taken env a dueAt (db_runs d) \<and> launch env a (Some dueAt) = Inr ()"
  proof (cases "snd (createRun ?x (db_runs d))")
    case (Inl e)
    with createRun_free(3) [OF x, of "db_runs d"] have "claim_taken env a dueAt (db_runs d)" by simp
    with Inl show ?thesis
      using assms(1)
      by (simp add: fire_due_def startAutomatonRun_def on_runs_def case_prod_beta)
  next
    case (Inr u)
    with createRun_free(3) [OF x, of "db_runs d"] have free: "\<not> claim_taken env a dueAt (db_runs d)" by simp
    obtain d' where fired: "consumeDue env a next_due (Some now) d2 = (d' d2, Inr ())" for d2
      using consumeDue_calm [OF assms(1)] by metis
    obtain d'' where failed: "consumeDue env a next_due None d2 = (d'' d2, Inr ())" for d2
      using consumeDue_calm [OF assms(1)] by metis
    show ?thesis
      using Inr free assms(1) fired failed
      by (simp add: fire_due_def startAutomatonRun_def on_runs_def no_result_def Let_def case_prod_beta
          split: sum.split)
  qed
  show ?thesis
    using assms fire
    by (auto simp: processDue_def find_outcome Let_def decideDueAction_def find_unfinished_iff)
qed

text \<open>After a tick dealt with a due time, the automaton must not be due at it any more.\<close>

definition past_due :: "int \<Rightarrow> automaton \<Rightarrow> bool" where
  "past_due dueAt a = (\<not> au_enabled a \<or> (\<exists>n. au_nextDueAt a = Some n \<and> dueAt < n))"

definition moved_on :: "string \<Rightarrow> int \<Rightarrow> automata_rows \<Rightarrow> automata_rows \<Rightarrow> bool" where
  "moved_on i dueAt t t' =
     list_all2 (\<lambda>x x'. au_id x' = au_id x \<and> (if au_id x = i then past_due dueAt x' else x' = x)) t t'"

lemma fired_at_fields [simp]:
  "au_id (fired_at f a) = au_id a" "au_enabled (fired_at f a) = au_enabled a"
  "au_nextDueAt (fired_at f a) = au_nextDueAt a"
  by (simp_all add: fired_at_def split: option.splits)

lemma moved_on_updates:
  "dueAt < n \<Longrightarrow> moved_on i dueAt t (advanceSchedule wall i n fired t)"
  "moved_on i dueAt t (disableAfterOnceFire wall i fired t)"
  "moved_on i dueAt t (disableWithReason i reason now t)"
  by (simp_all add: moved_on_def advanceSchedule_def disableAfterOnceFire_def disableWithReason_def
      sql_update_def list_all2_conv_all_nth past_due_def)

lemma consumeDue_moves_on:
  assumes "calm env a" and "\<And>n. next_due = Some n \<Longrightarrow> dueAt < n"
  shows "moved_on (au_id a) dueAt (db_automata d) (db_automata (fst (consumeDue env a next_due fired d)))"
  using assms by (simp add: consumeDue_def on_automata_def moved_on_updates split: option.split)

lemma startAutomatonRun_automata [simp]:
  "db_automata (fst (startAutomatonRun env a trigger dueAt d)) = db_automata d"
  by (simp add: startAutomatonRun_def db_outcome_def on_runs_def no_result_def Let_def case_prod_beta
      split: fault.split sum.split)

lemma createRun_automata [simp]: "db_automata (fst (on_runs f d)) = db_automata d"
  by (simp add: on_runs_def case_prod_beta)

lemma fire_due_moves_on:
  assumes "calm env a" and "\<And>n. next_due = Some n \<Longrightarrow> dueAt < n"
    and free: "\<not> claim_taken env a dueAt (db_runs d)"
  shows "moved_on (au_id a) dueAt (db_automata d) (db_automata (fst (fire_due env now a dueAt next_due d)))"
    and "snd (fire_due env now a dueAt next_due d) \<in> {Fired, Skipped}"
proof -
  let ?start = "startAutomatonRun env a Scheduled (Some dueAt) d"
  obtain d1 r where start: "?start = (d1, r)" by (cases ?start)
  have same: "db_automata d1 = db_automata d" using startAutomatonRun_automata [of env a Scheduled "Some dueAt" d] start
    by simp
  have "createRun (claimed_run env a Scheduled (Some dueAt)) (db_runs d) =
      (db_runs d @ [claimed_run env a Scheduled (Some dueAt)], Inr ())"
    using createRun_free(1) [of "claimed_run env a Scheduled (Some dueAt)" env a dueAt "db_runs d"] free
    by (simp add: claimed_run_def)
  then have claimed: "r \<noteq> Inl (Thrown e)" for e
    using start assms(1)
    by (auto simp: startAutomatonRun_def on_runs_def no_result_def Let_def case_prod_beta
        split: sum.splits)
  note move = consumeDue_moves_on [where next_due = next_due and d = d1, OF assms(1,2), unfolded same]
  obtain d2 where fired: "consumeDue env a next_due (Some now) d1 = (d2, Inr ())"
    using consumeDue_calm [OF assms(1)] by metis
  obtain d3 where failed: "consumeDue env a next_due None d1 = (d3, Inr ())"
    using consumeDue_calm [OF assms(1)] by metis
  show "moved_on (au_id a) dueAt (db_automata d) (db_automata (fst (fire_due env now a dueAt next_due d)))"
    "snd (fire_due env now a dueAt next_due d) \<in> {Fired, Skipped}"
    using start claimed fired failed move [where fired = "Some now"] move [where fired = None]
    by (auto simp: fire_due_def split: sum.split fire_error.split)
qed

lemma skip_due_moves_on:
  assumes "calm env a" and "\<And>n. next_due = Some n \<Longrightarrow> dueAt < n"
  shows "moved_on (au_id a) dueAt (db_automata d) (db_automata (skip_due env now a dueAt action next_due d))"
proof -
  let ?x = "skipped_run env now a dueAt action"
  have x: "ar_id ?x = te_runId env (au_id a)" "ar_automatonId ?x = au_id a" "ar_dueAt ?x = Some dueAt"
    "ar_trigger ?x = Scheduled"
    by (simp_all add: skipped_run_def)
  let ?d1 = "d\<lparr>db_runs := fst (createRun ?x (db_runs d))\<rparr>"
  have "\<forall>e. snd (createRun ?x (db_runs d)) = Inl e \<longrightarrow> isUniqueConstraintError e"
    using createRun_free(2,3) [OF x, of "db_runs d"]
    by (cases "claim_taken env a dueAt (db_runs d)") auto
  then have "skip_due env now a dueAt action next_due d = fst (consumeDue env a next_due None ?d1)"
    using assms(1) by (auto simp: skip_due_def on_runs_def case_prod_beta split: sum.split)
  with consumeDue_moves_on [where next_due = next_due and d = ?d1 and fired = None, OF assms]
  show ?thesis by simp
qed


lemma escape_cause:
  assumes "snd (processDue env now a d) = Escapes e"
  shows "\<exists>dueAt. au_nextDueAt a = Some dueAt \<and> launch env a (Some dueAt) \<noteq> Inr () \<and>
    te_fault env (ConsumeDue (au_id a)) \<in> {FailsBefore e, FailsAfter e}"
proof -
  have consume: "te_fault env (ConsumeDue (au_id a)) \<in> {FailsBefore e, FailsAfter e}"
    if "snd (consumeDue env a next_due fired d1) = Inl e" for next_due fired d1
    using that by (auto simp: consumeDue_def db_outcome_def on_automata_def split: fault.splits option.splits)
  have launch: "launch env a dueAt \<noteq> Inr ()"
    if "snd (startAutomatonRun env a trigger dueAt d1) = Inl (RunFailedAfterClaim e')"
    for trigger dueAt d1 e'
    using that by (auto simp: startAutomatonRun_def Let_def split: prod.splits sum.splits)
  have fire: "te_fault env (ConsumeDue (au_id a)) \<in> {FailsBefore e, FailsAfter e} \<and>
      launch env a (Some dueAt) \<noteq> Inr ()"
    if "snd (fire_due env now a dueAt next_due d1) = Escapes e" for dueAt next_due d1
    using that consume launch [of Scheduled "Some dueAt" d1]
    by (auto simp: fire_due_def split: prod.splits sum.splits fire_error.splits) (metis snd_conv)+
  show ?thesis
    using assms fire
    by (fastforce simp: processDue_def Let_def split: option.splits sum.splits prod.splits if_splits)
qed

lemma processDue_due: "au_nextDueAt a \<noteq> None \<Longrightarrow> snd (processDue env now a d) \<noteq> NotDue"
  by (auto simp: processDue_def fire_due_def Let_def split: option.splits sum.splits prod.splits
      fire_error.splits)

lemma fireLoop_counts:
  assumes "fireLoop env now due fired skipped d = (d', Inr (f, s))"
    and "\<forall>a \<in> set due. au_nextDueAt a \<noteq> None"
  shows "f + s = fired + skipped + length due"
  using assms
proof (induction due arbitrary: fired skipped d)
  case (Cons a due)
  obtain d1 r where run: "processDue env now a d = (d1, r)" by (cases "processDue env now a d")
  with processDue_due [of a env now d] Cons.prems(2) have "r \<noteq> NotDue" by simp
  with run Cons show ?case by (cases r) fastforce+
qed simp

lemma fireLoop_escape:
  "fireLoop env now due fired skipped d = (d', Inl e) \<Longrightarrow>
     \<exists>a \<in> set due. \<exists>d1. snd (processDue env now a d1) = Escapes e"
proof (induction due arbitrary: fired skipped d)
  case (Cons a due)
  obtain d1 r where run: "processDue env now a d = (d1, r)" by (cases "processDue env now a d")
  show ?case
  proof (cases "r = Escapes e")
    case True
    with run show ?thesis by (metis list.set_intros(1) snd_conv)
  next
    case False
    with run Cons show ?thesis by (cases r) fastforce+
  qed
qed simp

lemma reapStaleRuns_automata [simp]: "db_automata (reapStaleRuns env now d) = db_automata d"
  by (simp add: reapStaleRuns_def db_outcome_def on_runs_def no_result_def case_prod_beta
      split: fault.split)

lemma listDue_due: "a \<in> set (listDue now limit t) \<Longrightarrow> au_nextDueAt a \<noteq> None"
  by (auto simp: listDue_def is_due_def sql_select_def split: option.splits dest!: in_set_takeD)

lemma listDue_length: "length (listDue now limit t) \<le> limit"
  by (simp add: listDue_def)

text \<open>A tick accounts for its whole batch unless one call defeats it. It returns counts that add up to
  the number of due automata it listed, at most 50, or it throws; and it throws only when a claimed run
  could not be started and the write that then consumes its due time fails too.\<close>

theorem tick_accounts_for_batch:
  "case snd (fireDueAutomata env now d) of
     Inr (fired, skipped) \<Rightarrow> fired + skipped \<le> 50 \<and> fired + skipped =
       (if te_fault env ListDue = Fine then length (listDue now AUTOMATON_FIRE_BATCH (db_automata d)) else 0)
   | Inl e \<Rightarrow> \<exists>a \<in> set (listDue now AUTOMATON_FIRE_BATCH (db_automata d)). \<exists>dueAt.
       au_nextDueAt a = Some dueAt \<and> launch env a (Some dueAt) \<noteq> Inr () \<and>
       te_fault env (ConsumeDue (au_id a)) \<in> {FailsBefore e, FailsAfter e}"
proof (cases "te_fault env ListDue = Fine")
  case True
  let ?batch = "listDue now AUTOMATON_FIRE_BATCH (db_automata d)"
  obtain d' r where run: "fireLoop env now ?batch 0 0 (reapStaleRuns env now d) = (d', r)"
    by (cases "fireLoop env now ?batch 0 0 (reapStaleRuns env now d)")
  have small: "length ?batch \<le> 50" using listDue_length [of now 50] by (simp add: AUTOMATON_FIRE_BATCH_def)
  show ?thesis
  proof (cases r)
    case (Inl e)
    with fireLoop_escape [of env now ?batch] run escape_cause show ?thesis
      using True by (fastforce simp: fireDueAutomata_def)
  next
    case (Inr counts)
    obtain f s where "counts = (f, s)" by (cases counts)
    with fireLoop_counts [of env now ?batch] run Inr True small listDue_due show ?thesis
      by (fastforce simp: fireDueAutomata_def)
  qed
qed (auto simp: fireDueAutomata_def Let_def split: fault.split)

section \<open>Concrete ticks\<close>

definition demo_automaton :: automaton where
  "demo_automaton = \<lparr>au_id = ''a'', au_workspaceId = ''w'', au_agentId = ''g'', au_projectId = None,
     au_workbenchId = None, au_name = ''n'', au_prompt = ''p'', au_modelProvider = None, au_model = None,
     au_modelInputModalities = None, au_scheduleJson = ''s'', au_timezone = ''UTC'', au_enabled = True,
     au_disabledReason = None, au_nextDueAt = Some 5, au_lastFiredAt = None, au_archivedAt = None,
     au_updatedAt = 0\<rparr>"

definition demo_env :: tick_env where
  "demo_env = \<lparr>te_wall = 9, te_fault = (\<lambda>_. Fine), te_runId = (\<lambda>i. ''run '' @ i),
     te_threadId = (\<lambda>i. ''thread '' @ i), te_json = (\<lambda>_. Some (schedule_json (Hourly 7))),
     te_cron_ok = (\<lambda>_. True), te_cron_next = (\<lambda>e tz t. Inr (t + 3600000)),
     te_agent = (\<lambda>_. Inr (Some \<lparr>ag_provider = ''p'', ag_model = ''m'', ag_modelInputModalities = ''[]'',
       ag_showReasoning = True\<rparr>)),
     te_project = (\<lambda>p w. Inr None), te_workbench = (\<lambda>w ws. Inr w), te_createThread = (\<lambda>_. None),
     te_begin = (\<lambda>t p. None), te_events = (\<lambda>_. []), te_formatDue = (\<lambda>t tz. int_string t)\<rparr>"

definition demo_db :: automata_db where
  "demo_db = \<lparr>db_automata = [demo_automaton], db_runs = [demo_run ''q'' RunQueued]\<rparr>"

lemmas demo_tick = demo_automaton_def demo_env_def demo_db_def demo_run_def

lemma demo_due: "au_nextDueAt demo_automaton = Some 5"
  by (simp add: demo_automaton_def)

lemma demo_calm: "calm demo_env demo_automaton"
  by (simp add: calm_def demo_env_def)

lemma demo_schedule:
  "parseSchedule (te_json demo_env) (te_cron_ok demo_env) (au_scheduleJson demo_automaton) = Inr (Hourly 7)"
  "next_due_of demo_env demo_automaton 5 (Hourly 7) = Inr (Some 3600005)"
  by (simp_all add: demo_env_def parseSchedule_def parse_schedule_value_def parse_hourly_def
      intInRange_def next_due_of_def computeNextDueAt_def)

theorem blocked_due_never_fires_witness:
  "snd (processDue demo_env 9 demo_automaton demo_db) = Skipped"
  using blocked_due_never_fires [OF demo_due, of demo_db 9 demo_env]
  by (simp add: demo_tick has_unfinished_def run_statuses)

theorem due_fires_iff_witness:
  "snd (processDue demo_env 9 demo_automaton (demo_db\<lparr>db_runs := []\<rparr>)) = Fired"
  using due_fires_iff [OF demo_calm demo_due demo_schedule, of 9 "demo_db\<lparr>db_runs := []\<rparr>"]
  by (simp add: has_unfinished_def claim_taken_def AUTOMATON_GRACE_MS_def launch_def resolve_workbench_def
      demo_env_def demo_automaton_def)


end
