(* ===== verification/Base64url.thy ===== *)
theory Base64url
  imports Strings
begin

text \<open>
  \<open>src/encoding.ts\<close>: bytes as unpadded base64url and back, over \<open>btoa\<close> and the forgiving \<open>atob\<close> of
  the platform. A byte is a \<open>char\<close>, a base64 digit stands for six of its bits, highest first.
\<close>

section \<open>The platform's codec\<close>

type_synonym sextet = "bool \<times> bool \<times> bool \<times> bool \<times> bool \<times> bool"

definition base64_alphabet :: string where
  "base64_alphabet = ''ABCDEFGHIJKLMNOPQRSTUVWXYZabcdefghijklmnopqrstuvwxyz0123456789+/''"

fun sextet_index :: "sextet \<Rightarrow> nat" where
  "sextet_index (b5, b4, b3, b2, b1, b0) =
     32 * of_bool b5 + 16 * of_bool b4 + 8 * of_bool b3 + 4 * of_bool b2 + 2 * of_bool b1 + of_bool b0"

definition index_sextet :: "nat \<Rightarrow> sextet" where
  "index_sextet n = (odd (n div 32), odd (n div 16), odd (n div 8), odd (n div 4), odd (n div 2), odd n)"

definition digit :: "sextet \<Rightarrow> char" where
  "digit x = base64_alphabet ! sextet_index x"

definition sextet_of :: "char \<Rightarrow> sextet option" where
  "sextet_of = map_of (zip base64_alphabet (map index_sextet [0..<64]))"

fun to_sextets :: "string \<Rightarrow> sextet list" where
  "to_sextets [] = []"
| "to_sextets [Char a0 a1 a2 a3 a4 a5 a6 a7] =
     [(a7, a6, a5, a4, a3, a2), (a1, a0, False, False, False, False)]"
| "to_sextets [Char a0 a1 a2 a3 a4 a5 a6 a7, Char b0 b1 b2 b3 b4 b5 b6 b7] =
     [(a7, a6, a5, a4, a3, a2), (a1, a0, b7, b6, b5, b4), (b3, b2, b1, b0, False, False)]"
| "to_sextets (Char a0 a1 a2 a3 a4 a5 a6 a7 # Char b0 b1 b2 b3 b4 b5 b6 b7 #
     Char c0 c1 c2 c3 c4 c5 c6 c7 # s) =
     (a7, a6, a5, a4, a3, a2) # (a1, a0, b7, b6, b5, b4) # (b3, b2, b1, b0, c7, c6) #
     (c5, c4, c3, c2, c1, c0) # to_sextets s"

text \<open>The bits left over at the end are dropped.\<close>

fun from_sextets :: "sextet list \<Rightarrow> string" where
  "from_sextets ((a7, a6, a5, a4, a3, a2) # (a1, a0, b7, b6, b5, b4) # (b3, b2, b1, b0, c7, c6) #
     (c5, c4, c3, c2, c1, c0) # xs) =
     Char a0 a1 a2 a3 a4 a5 a6 a7 # Char b0 b1 b2 b3 b4 b5 b6 b7 #
     Char c0 c1 c2 c3 c4 c5 c6 c7 # from_sextets xs"
| "from_sextets [(a7, a6, a5, a4, a3, a2), (a1, a0, b7, b6, b5, b4), (b3, b2, b1, b0, _, _)] =
     [Char a0 a1 a2 a3 a4 a5 a6 a7, Char b0 b1 b2 b3 b4 b5 b6 b7]"
| "from_sextets [(a7, a6, a5, a4, a3, a2), (a1, a0, _, _, _, _)] = [Char a0 a1 a2 a3 a4 a5 a6 a7]"
| "from_sextets _ = []"

definition btoa :: "string \<Rightarrow> string" where
  "btoa s = (let d = map digit (to_sextets s) in d @ replicate ((4 - length d mod 4) mod 4) CHR ''='')"

text \<open>White space is skipped and up to two \<open>=\<close> that complete a group of four are dropped.\<close>

definition drop_padding :: "string \<Rightarrow> string" where
  "drop_padding s =
     (if length s mod 4 \<noteq> 0 \<or> s = [] \<or> last s \<noteq> CHR ''='' then s
      else if butlast s \<noteq> [] \<and> last (butlast s) = CHR ''='' then butlast (butlast s) else butlast s)"

definition atob :: "string \<Rightarrow> string option" where
  "atob s = (let t = drop_padding (filter (\<lambda>c. c \<notin> {CHR 0x09, CHR 0x0A, CHR 0x0C, CHR 0x0D, CHR 0x20}) s)
     in if length t mod 4 = 1 then None
        else if \<exists>c \<in> set t. sextet_of c = None then None
        else Some (from_sextets (map (\<lambda>c. the (sextet_of c)) t)))"

section \<open>The codec of the sources\<close>

text \<open>\<open>replaceAll\<close> of one character by another.\<close>

definition replace_char :: "char \<Rightarrow> char \<Rightarrow> string \<Rightarrow> string" where
  "replace_char a b s = map (\<lambda>c. if c = a then b else c) s"

definition bytesToBase64Url :: "string \<Rightarrow> string" where
  "bytesToBase64Url bytes =
     filter (\<lambda>c. c \<noteq> CHR ''='')
       (replace_char CHR ''/'' CHR ''_'' (replace_char CHR ''+'' CHR ''-'' (btoa bytes)))"

definition base64UrlToBytes :: "string \<Rightarrow> string option" where
  "base64UrlToBytes v =
     (let base64 = rev (dropWhile (\<lambda>c. c = CHR ''='')
            (rev (replace_char CHR ''_'' CHR ''/'' (replace_char CHR ''-'' CHR ''+'' v))))
      in atob (base64 @ replicate ((4 - length base64 mod 4) mod 4) CHR ''=''))"

section \<open>Round trip\<close>

lemma from_to_sextets: "from_sextets (to_sextets s) = s"
  by (induction s rule: to_sextets.induct) simp_all

lemma to_sextets_groups: "length (to_sextets s) mod 4 \<noteq> 1"
  by (induction s rule: to_sextets.induct) simp_all

lemma sextet_index: "index_sextet (sextet_index x) = x" "sextet_index x < 64"
  by (cases x; simp add: index_sextet_def split: bool.splits add: of_bool_def)+

lemma alphabet: "length base64_alphabet = 64" "distinct base64_alphabet"
    "set base64_alphabet \<inter> {CHR ''='', CHR ''-'', CHR ''_'', CHR ''.'', CHR 0x09, CHR 0x0A, CHR 0x0C, CHR 0x0D, CHR 0x20} = {}"
proof -
  have "distinct (map (of_char :: char \<Rightarrow> nat) base64_alphabet)"
    by (simp add: base64_alphabet_def)
  then show "distinct base64_alphabet" using distinct_map by blast
qed (simp_all add: base64_alphabet_def)

lemma digit_in: "digit x \<in> set base64_alphabet"
  by (simp add: digit_def alphabet sextet_index)

lemma sextet_of_digit [simp]: "sextet_of (digit x) = Some x"
proof -
  have "map_of (zip base64_alphabet (map index_sextet [0..<64])) (base64_alphabet ! sextet_index x) =
      Some (map index_sextet [0..<64] ! sextet_index x)"
    by (rule map_of_zip_nth) (simp_all add: alphabet sextet_index)
  then show ?thesis by (simp add: sextet_of_def digit_def sextet_index)
qed

lemma digit_simps [simp]: "digit x \<noteq> CHR ''=''" "digit x \<noteq> CHR ''-''" "digit x \<noteq> CHR ''_''"
  "digit x \<noteq> CHR ''.''" "digit x \<noteq> CHR 0x09" "digit x \<noteq> CHR 0x0A" "digit x \<noteq> CHR 0x0C"
  "digit x \<noteq> CHR 0x0D" "digit x \<noteq> CHR 0x20"
  using digit_in [of x] alphabet(3) by auto

lemmas digit_sym [simp] = digit_simps [symmetric]

text \<open>The URL-safe digits.\<close>

definition url_digit :: "sextet \<Rightarrow> char" where
  "url_digit x = (if digit x = CHR ''+'' then CHR ''-'' else if digit x = CHR ''/'' then CHR ''_'' else digit x)"

lemma bytesToBase64Url_digits: "bytesToBase64Url s = map url_digit (to_sextets s)"
proof -
  have "filter (\<lambda>c. c \<noteq> CHR ''='') (map url_digit xs @ replicate n CHR ''='') = map url_digit xs" for xs n
    by (auto simp: url_digit_def intro!: filter_True)
  moreover have "replace_char CHR ''/'' CHR ''_'' (replace_char CHR ''+'' CHR ''-'' (map digit xs @ replicate n CHR ''=''))
      = map url_digit xs @ replicate n CHR ''=''" for xs n
    by (simp add: replace_char_def url_digit_def)
  ultimately show ?thesis by (simp only: bytesToBase64Url_def btoa_def Let_def)
qed

lemma url_digit_back: "replace_char CHR ''_'' CHR ''/'' (replace_char CHR ''-'' CHR ''+'' (map url_digit xs)) = map digit xs"
  by (simp add: replace_char_def url_digit_def)

lemma drop_padding_digits:
  assumes "length xs mod 4 \<noteq> 1"
  shows "drop_padding (map digit xs @ replicate ((4 - length xs mod 4) mod 4) CHR ''='') = map digit xs"
proof -
  consider "length xs mod 4 = 0" | "length xs mod 4 = 2" | "length xs mod 4 = 3" using assms by linarith
  then show ?thesis
  proof cases
    case 1
    then show ?thesis by (cases xs rule: rev_cases) (simp_all add: drop_padding_def)
  next
    case 2
    then have "replicate ((4 - length xs mod 4) mod 4) CHR ''='' = ''==''" by (simp add: numeral_2_eq_2)
    moreover have "Suc (Suc (length xs)) mod 4 = 0" using 2 by presburger
    ultimately show ?thesis by (simp add: drop_padding_def butlast_append)
  next
    case 3
    then have "replicate ((4 - length xs mod 4) mod 4) CHR ''='' = ''=''" by simp
    moreover have "(length xs + 1) mod 4 = 0" using 3 by presburger
    moreover have "xs \<noteq> []" using 3 by auto
    ultimately show ?thesis by (simp add: drop_padding_def last_map)
  qed
qed

lemma base64UrlToBytes_padded:
  "base64UrlToBytes (map url_digit (to_sextets s) @ replicate k CHR ''='') = Some s"
proof -
  have "replace_char CHR ''_'' CHR ''/'' (replace_char CHR ''-'' CHR ''+'' (map url_digit (to_sextets s) @ replicate k CHR ''=''))
      = map digit (to_sextets s) @ replicate k CHR ''=''"
    using url_digit_back [of "to_sextets s"] by (simp add: replace_char_def)
  moreover have "rev (dropWhile (\<lambda>c. c = CHR ''='') (rev (map digit xs @ replicate k CHR ''=''))) = map digit xs" for xs
    by (cases xs rule: rev_cases) (simp_all add: dropWhile_append dropWhile_eq_Nil_conv)
  moreover have "filter (\<lambda>c. c \<notin> {CHR 0x09, CHR 0x0A, CHR 0x0C, CHR 0x0D, CHR 0x20}) (map digit xs @ replicate n CHR ''='')
      = map digit xs @ replicate n CHR ''=''" for xs n
    by (rule filter_True) auto
  ultimately show ?thesis
    using drop_padding_digits [of "to_sextets s"] to_sextets_groups [of s]
    by (simp add: base64UrlToBytes_def atob_def Let_def from_to_sextets comp_def)
qed

text \<open>Every byte string survives the base64url codec, also when the reader gets it with any number of
  padding characters, and the encoding never contains the dot that separates the parts of a token.
\<close>

theorem base64url_roundtrip:
  "base64UrlToBytes (bytesToBase64Url s @ replicate k CHR ''='') = Some s \<and>
   CHR ''.'' \<notin> set (bytesToBase64Url s)"
  using base64UrlToBytes_padded by (auto simp: bytesToBase64Url_digits url_digit_def)

lemma base64UrlToBytes_encoded [simp]: "base64UrlToBytes (map url_digit (to_sextets s)) = Some s"
  using base64UrlToBytes_padded [of s 0] by simp

end
