(* ===== verification/Signed_Tokens.thy ===== *)
theory Signed_Tokens
  imports Base64url Json_Values
begin

text \<open>
  The three kinds of signed token: completion tokens (\<open>src/compute/completion-token.ts\<close>), artifact
  view tokens (\<open>src/artifacts/view-token.ts\<close>) and the OAuth state (\<open>src/github/state.ts\<close>). Each is the
  base64url of a JSON payload, a dot, and the base64url of the payload's MAC.

  WebCrypto and the JSON codec are arguments: \<open>cr_importKey\<close> fails on a secret it cannot use,
  \<open>cr_hmac\<close> is the MAC that \<open>sign\<close> computes and \<open>verify\<close> compares with, \<open>cr_parse\<close> is \<open>JSON.parse\<close>
  on the decoded bytes. The payload a verifier returns keeps the fields it checked.
\<close>

record 'k crypto =
  cr_sha256 :: "string \<Rightarrow> string"
  cr_importKey :: "string \<Rightarrow> 'k option"
  cr_hmac :: "'k \<Rightarrow> string \<Rightarrow> string"
  cr_stringify :: "json \<Rightarrow> string"
  cr_parse :: "string \<Rightarrow> json option"

text \<open>\<open>JSON.parse\<close> may return null, whose fields cannot be read: \<open>Threw\<close>.\<close>

datatype 'p verdict = Verified 'p | Rejected | Threw

section \<open>Secrets, signing, and the check of the signature\<close>

definition hex_digit :: "nat \<Rightarrow> char" where
  "hex_digit n = ''0123456789abcdef'' ! n"

text \<open>\<open>value.toString(16).padStart(2, "0")\<close>.\<close>

definition hex_byte :: "char \<Rightarrow> string" where
  "hex_byte c = [hex_digit (byte c div 16), hex_digit (byte c mod 16)]"

definition derive_secret :: "'k crypto \<Rightarrow> string \<Rightarrow> string \<Rightarrow> string" where
  "derive_secret C context betterAuthSecret =
     concat (map hex_byte (cr_sha256 C (context @ [CHR 0x00] @ betterAuthSecret)))"

definition sign_json :: "'k crypto \<Rightarrow> string \<Rightarrow> json \<Rightarrow> string option" where
  "sign_json C secret payload =
     (let body = bytesToBase64Url (cr_stringify C payload)
      in map_option (\<lambda>key. body @ ''.'' @ bytesToBase64Url (cr_hmac C key body)) (cr_importKey C secret))"

definition body_of :: "string \<Rightarrow> string" where
  "body_of token = takeWhile (\<lambda>c. c \<noteq> CHR ''.'') token"

definition signature_of :: "string \<Rightarrow> string" where
  "signature_of token = tl (dropWhile (\<lambda>c. c \<noteq> CHR ''.'') token)"

text \<open>What the three verifiers do before they look at the payload.\<close>

definition signed_json :: "'k crypto \<Rightarrow> string \<Rightarrow> string \<Rightarrow> json option" where
  "signed_json C secret token =
     (if CHR ''.'' \<notin> set token then None
      else case cr_importKey C secret of
        None \<Rightarrow> None
      | Some key \<Rightarrow> (case base64UrlToBytes (signature_of token) of
            None \<Rightarrow> None
          | Some sig \<Rightarrow>
              if sig \<noteq> cr_hmac C key (body_of token) then None
              else Option.bind (base64UrlToBytes (body_of token)) (cr_parse C)))"

section \<open>Completion tokens\<close>

record completion_claims =
  ct_threadId :: string
  ct_processId :: string
  ct_exp :: json_number

definition COMPLETION_CONTEXT :: string where "COMPLETION_CONTEXT = ''nadi-compute-completion-v1''"

definition deriveCompletionSecret :: "'k crypto \<Rightarrow> string \<Rightarrow> string" where
  "deriveCompletionSecret C = derive_secret C COMPLETION_CONTEXT"

definition completion_json :: "completion_claims \<Rightarrow> json" where
  "completion_json p = JObject [(''threadId'', JString (ct_threadId p)),
     (''processId'', JString (ct_processId p)), (''exp'', JNumber (ct_exp p))]"

definition signCompletionToken :: "'k crypto \<Rightarrow> string \<Rightarrow> completion_claims \<Rightarrow> string option" where
  "signCompletionToken C secret p = sign_json C secret (completion_json p)"

definition verifyCompletionToken ::
    "'k crypto \<Rightarrow> string \<Rightarrow> string \<Rightarrow> int \<Rightarrow> completion_claims verdict" where
  "verifyCompletionToken C secret token now =
     (case signed_json C secret token of
        None \<Rightarrow> Rejected
      | Some JNull \<Rightarrow> Threw
      | Some v \<Rightarrow> (case (number_field v ''exp'', string_field v ''threadId'', string_field v ''processId'') of
            (Some e, Some t, Some p) \<Rightarrow>
              if number_le e now \<or> t = [] \<or> p = [] then Rejected
              else Verified \<lparr>ct_threadId = t, ct_processId = p, ct_exp = e\<rparr>
          | _ \<Rightarrow> Rejected))"

section \<open>Artifact view tokens\<close>

record artifact_claims =
  at_artifactId :: string
  at_exp :: json_number

definition ARTIFACT_VIEW_CONTEXT :: string where "ARTIFACT_VIEW_CONTEXT = ''nadi-artifact-view-v1''"

definition deriveArtifactViewSecret :: "'k crypto \<Rightarrow> string \<Rightarrow> string" where
  "deriveArtifactViewSecret C = derive_secret C ARTIFACT_VIEW_CONTEXT"

definition artifact_json :: "artifact_claims \<Rightarrow> json" where
  "artifact_json p = JObject [(''artifactId'', JString (at_artifactId p)), (''exp'', JNumber (at_exp p))]"

definition signArtifactViewToken :: "'k crypto \<Rightarrow> string \<Rightarrow> artifact_claims \<Rightarrow> string option" where
  "signArtifactViewToken C secret p = sign_json C secret (artifact_json p)"

definition verifyArtifactViewToken ::
    "'k crypto \<Rightarrow> string \<Rightarrow> string \<Rightarrow> int \<Rightarrow> artifact_claims verdict" where
  "verifyArtifactViewToken C secret token now =
     (case signed_json C secret token of
        None \<Rightarrow> Rejected
      | Some JNull \<Rightarrow> Threw
      | Some v \<Rightarrow> (case (number_field v ''exp'', string_field v ''artifactId'') of
            (Some e, Some a) \<Rightarrow>
              if number_le e now \<or> a = [] then Rejected
              else Verified \<lparr>at_artifactId = a, at_exp = e\<rparr>
          | _ \<Rightarrow> Rejected))"

section \<open>The OAuth state\<close>

record github_state =
  gs_workspaceId :: string
  gs_userId :: string
  gs_nonce :: string
  gs_exp :: json_number

definition github_json :: "github_state \<Rightarrow> json" where
  "github_json p = JObject [(''workspaceId'', JString (gs_workspaceId p)),
     (''userId'', JString (gs_userId p)), (''nonce'', JString (gs_nonce p)), (''exp'', JNumber (gs_exp p))]"

definition signGithubState :: "'k crypto \<Rightarrow> string \<Rightarrow> github_state \<Rightarrow> string option" where
  "signGithubState C secret p = sign_json C secret (github_json p)"

definition verifyGithubState :: "'k crypto \<Rightarrow> string \<Rightarrow> string \<Rightarrow> int \<Rightarrow> github_state verdict" where
  "verifyGithubState C secret token now =
     (case signed_json C secret token of
        None \<Rightarrow> Rejected
      | Some JNull \<Rightarrow> Threw
      | Some v \<Rightarrow> (case (number_field v ''exp'', string_field v ''workspaceId'', string_field v ''userId'',
              string_field v ''nonce'') of
            (Some e, Some w, Some u, Some n) \<Rightarrow>
              if number_le e now then Rejected
              else Verified \<lparr>gs_workspaceId = w, gs_userId = u, gs_nonce = n, gs_exp = e\<rparr>
          | _ \<Rightarrow> Rejected))"

section \<open>What a signature covers\<close>

lemma token_parts:
  assumes "CHR ''.'' \<notin> set body"
  shows "body_of (body @ ''.'' @ sig) = body" "signature_of (body @ ''.'' @ sig) = sig"
    "CHR ''.'' \<in> set (body @ ''.'' @ sig)"
  using assms by (induction body) (auto simp: body_of_def signature_of_def)

lemma token_whole: "CHR ''.'' \<in> set token \<Longrightarrow> token = body_of token @ ''.'' @ signature_of token"
  by (induction token) (auto simp: body_of_def signature_of_def)

text \<open>Whatever is signed is what the check of the signature finds.\<close>

lemma signed_json_sign:
  assumes "cr_parse C (cr_stringify C v) = Some v" and "sign_json C secret v = Some token"
  shows "signed_json C secret token = Some v"
proof -
  define body where "body = bytesToBase64Url (cr_stringify C v)"
  have dot: "CHR ''.'' \<notin> set body" by (auto simp: body_def bytesToBase64Url_digits url_digit_def)
  obtain key where key: "cr_importKey C secret = Some key"
    and token: "token = body @ ''.'' @ bytesToBase64Url (cr_hmac C key body)"
    using assms(2) by (auto simp: sign_json_def body_def Let_def)
  have "base64UrlToBytes body = Some (cr_stringify C v)"
    by (simp add: body_def bytesToBase64Url_digits)
  then show ?thesis
    using token_parts [OF dot] key assms(1)
    by (simp add: signed_json_def token bytesToBase64Url_digits)
qed

text \<open>A token that passes is its body, a dot and the body's MAC.\<close>

lemma signed_json_mac:
  assumes "signed_json C secret token = Some v"
  shows "\<exists>key sig. cr_importKey C secret = Some key \<and> token = body_of token @ ''.'' @ sig \<and>
    base64UrlToBytes sig = Some (cr_hmac C key (body_of token)) \<and>
    Option.bind (base64UrlToBytes (body_of token)) (cr_parse C) = Some v"
  using assms token_whole [of token]
  by (auto simp: signed_json_def split: if_splits option.splits)

section \<open>What the verifiers accept\<close>

lemma verifyCompletion_json:
  "signed_json C secret token = Some (completion_json p) \<Longrightarrow> verifyCompletionToken C secret token now =
     (if number_le (ct_exp p) now \<or> ct_threadId p = [] \<or> ct_processId p = [] then Rejected else Verified p)"
  by (simp add: verifyCompletionToken_def completion_json_def string_field_def number_field_def)

text \<open>C23: A token says one thing only. Read as a completion token, a signed completion token gives exactly
  the claims that were signed, until it expires, whatever padding its reader drops; and neither an
  artifact view token nor an OAuth state is ever accepted as a completion token, nor a completion
  token as one of them, even where the secrets are the same.
\<close>

theorem tokens_not_confused:
  assumes "\<And>v. v \<in> {completion_json p, artifact_json a, github_json g} \<Longrightarrow>
      cr_parse C (cr_stringify C v) = Some v"
    and "signCompletionToken C secret p = Some tc"
    and "signArtifactViewToken C secret a = Some ta"
    and "signGithubState C secret g = Some tg"
  shows "verifyCompletionToken C secret tc now =
      (if number_le (ct_exp p) now \<or> ct_threadId p = [] \<or> ct_processId p = [] then Rejected else Verified p) \<and>
    verifyArtifactViewToken C secret ta now =
      (if number_le (at_exp a) now \<or> at_artifactId a = [] then Rejected else Verified a) \<and>
    verifyGithubState C secret tg now = (if number_le (gs_exp g) now then Rejected else Verified g) \<and>
    verifyCompletionToken C secret ta now = Rejected \<and> verifyCompletionToken C secret tg now = Rejected \<and>
    verifyArtifactViewToken C secret tc now = Rejected \<and> verifyArtifactViewToken C secret tg now = Rejected \<and>
    verifyGithubState C secret tc now = Rejected \<and> verifyGithubState C secret ta now = Rejected"
proof -
  have "signed_json C secret tc = Some (completion_json p)" "signed_json C secret ta = Some (artifact_json a)"
    "signed_json C secret tg = Some (github_json g)"
    using assms by (simp_all add: signCompletionToken_def signArtifactViewToken_def signGithubState_def signed_json_sign)
  then show ?thesis
    by (simp add: verifyCompletionToken_def verifyArtifactViewToken_def verifyGithubState_def
        completion_json_def artifact_json_def github_json_def string_field_def number_field_def)
qed

section \<open>A concrete codec\<close>

fun demo_text :: "json \<Rightarrow> string" where
  "demo_text (JObject fs) = concat (map (\<lambda>(k, v). k @ demo_text v) fs)"
| "demo_text (JString s) = s"
| "demo_text _ = []"

text \<open>It reads back the given values.\<close>

definition demo_crypto :: "json list \<Rightarrow> string crypto" where
  "demo_crypto vs = \<lparr>cr_sha256 = rev, cr_importKey = (\<lambda>s. if s = [] then None else Some s),
     cr_hmac = (\<lambda>k b. rev k @ b), cr_stringify = demo_text,
     cr_parse = map_of (map (\<lambda>v. (demo_text v, v)) vs)\<rparr>"

definition demo_claims :: completion_claims where
  "demo_claims = \<lparr>ct_threadId = ''t1'', ct_processId = ''p1'', ct_exp = Whole 5000\<rparr>"

definition demo_artifact :: artifact_claims where
  "demo_artifact = \<lparr>at_artifactId = ''art_1'', at_exp = Whole 5000\<rparr>"

definition demo_state :: github_state where
  "demo_state = \<lparr>gs_workspaceId = ''w'', gs_userId = ''u'', gs_nonce = ''n'', gs_exp = Whole 5000\<rparr>"

definition demo_values :: "json list" where
  "demo_values = [completion_json demo_claims, artifact_json demo_artifact, github_json demo_state]"

lemma tokens_not_confused_witness:
  "verifyCompletionToken (demo_crypto demo_values) ''k''
     (the (signCompletionToken (demo_crypto demo_values) ''k'' demo_claims)) 4999 = Verified demo_claims \<and>
   verifyCompletionToken (demo_crypto demo_values) ''k''
     (the (signCompletionToken (demo_crypto demo_values) ''k'' demo_claims)) 5000 = Rejected"
proof -
  have codec: "cr_parse (demo_crypto demo_values) (cr_stringify (demo_crypto demo_values) v) = Some v"
    if "v \<in> {completion_json demo_claims, artifact_json demo_artifact, github_json demo_state}" for v
    using that by (auto simp: demo_crypto_def demo_values_def completion_json_def artifact_json_def github_json_def
        demo_claims_def demo_artifact_def demo_state_def)
  have signed: "signCompletionToken (demo_crypto demo_values) ''k'' demo_claims =
      Some (the (signCompletionToken (demo_crypto demo_values) ''k'' demo_claims))"
    "signArtifactViewToken (demo_crypto demo_values) ''k'' demo_artifact =
      Some (the (signArtifactViewToken (demo_crypto demo_values) ''k'' demo_artifact))"
    "signGithubState (demo_crypto demo_values) ''k'' demo_state =
      Some (the (signGithubState (demo_crypto demo_values) ''k'' demo_state))"
    by (simp_all add: signCompletionToken_def signArtifactViewToken_def signGithubState_def sign_json_def
        demo_crypto_def Let_def)
  show ?thesis
    using tokens_not_confused [OF codec signed, of 4999] tokens_not_confused [OF codec signed, of 5000]
    by (simp add: demo_claims_def)
qed

end
