(* ===== verification/Push_Completion.thy ===== *)
theory Push_Completion
  imports Compute_Alarm Fake_Thread Signed_Tokens
begin

text \<open>
  A process reports its own exit: the route of \<open>src/http/completion-routes.ts\<close> and
  \<open>reportProcessCompletion\<close> of \<open>src/agent/think-thread-agent.ts\<close>, over the thread object of
  \<open>Compute_Alarm\<close>. Other events run while the agent resolves its compute service; \<open>meanwhile\<close> is what
  they do to the thread.
\<close>

section \<open>The agent\<close>

datatype push_answer = PushAccepted "string option" | PushRefused string

definition pushed_terminal :: "int \<Rightarrow> int \<Rightarrow> work_terminal" where
  "pushed_terminal now exitCode = \<lparr>t_outcome = OExited, t_reason = RProcessExit, t_at = now,
     t_detail = ''exit code '' @ int_string exitCode, t_actor = None, t_exitCode = Some exitCode\<rparr>"

definition push_message :: "string \<Rightarrow> string \<Rightarrow> string \<Rightarrow> int \<Rightarrow> injected_message" where
  "push_message label command i exitCode = buildWatcherCompletionMessage
     (''Background process '' @ label @ '' ('' @ command @ '') exited with code '' @ int_string exitCode @ ''.'')
     \<lparr>wi_title = label, wi_command = command, wi_processId = i, wi_outcome = OExited,
      wi_reason = Some RProcessExit, wi_exitCode = Some exitCode, wi_outputTail = None\<rparr>"

text \<open>
  From the resolved facts on, without an \<open>await\<close> up to the teardown: \<open>terminalize\<close>, deliver, stamp.
  A buffer write that throws leaves the row closed and owed.
\<close>

definition close_pushed ::
    "'x alarm_host \<Rightarrow> string \<Rightarrow> int \<Rightarrow> 'x thread_object \<Rightarrow> 'x thread_object \<times> push_answer" where
  "close_pushed H i exitCode o1 =
     (let s = to_service o1;
          env = (sweep_env_of H s)\<lparr>se_service := map_option (\<lambda>_. service_view s) (ah_resolved H)\<rparr>;
          (label, command, _) = workFacts env i KProcess;
          now = the_time (ah_schedule H) s;
          (l, won) = terminalize i (pushed_terminal now exitCode) (sv_ledger s)
      in if \<not> won then (o1, PushAccepted (Some ''already_terminal''))
         else case deliverInjection env (work_dedupeKey KProcess i OExited) IkWatcherCompletion
                (push_message label command i exitCode)
                \<lparr>ss_ledger = l, ss_buffer = to_buffer o1, ss_kicks = to_kicks o1, ss_teardown = []\<rparr> of
            None \<Rightarrow> (o1\<lparr>to_service := s\<lparr>sv_ledger := l\<rparr>\<rparr>, PushRefused ''internal_error'')
          | Some st \<Rightarrow>
              (let s' = s\<lparr>sv_ledger := fst (markDelivered i now (ss_ledger st))\<rparr>
               in (\<lparr>to_service = (case ah_resolved H of None \<Rightarrow> s'
                      | Some D \<Rightarrow> fst (bestEffort (recordPushedExit D i exitCode) s')),
                    to_buffer = ss_buffer st, to_kicks = ss_kicks st\<rparr>, PushAccepted None)))"

text \<open>\<open>allowed\<close> is \<open>None\<close> when \<open>backgroundExecAdmitted\<close> throws.\<close>

definition reportProcessCompletion ::
    "'x alarm_host \<Rightarrow> bool option \<Rightarrow> ('x thread_object \<Rightarrow> 'x thread_object) \<Rightarrow> string \<Rightarrow> int \<Rightarrow>
     'x thread_object \<Rightarrow> 'x thread_object \<times> push_answer" where
  "reportProcessCompletion H allowed meanwhile i exitCode o0 =
     (case allowed of
        None \<Rightarrow> (o0, PushRefused ''internal_error'')
      | Some False \<Rightarrow> (o0, PushRefused ''background_work_disabled'')
      | Some True \<Rightarrow> (case get_row i (sv_ledger (to_service o0)) of
            None \<Rightarrow> (o0, PushRefused ''unknown_process'')
          | Some r \<Rightarrow>
              if wr_kind r \<noteq> KProcess then (o0, PushRefused ''unknown_process'')
              else if wr_terminal r \<noteq> None then (o0, PushAccepted (Some ''already_terminal''))
              else close_pushed H i exitCode (meanwhile o0)))"

section \<open>The route\<close>

record completion_request =
  rq_pathname :: string
  rq_method :: string
  rq_authorization :: "string option"
  rq_body :: "json option"

datatype completion_response =
  NotRouted | ErrorResponse nat string | AgentAnswer push_answer | RouteThrew

text \<open>\<open>replace(/^Bearer\s+/i, "")\<close>.\<close>

definition strip_bearer :: "string \<Rightarrow> string" where
  "strip_bearer s =
     (let rest = drop 6 s
      in if map lower_char (take 6 s) = ''bearer'' \<and> (case rest of c # _ \<Rightarrow> is_space c | [] \<Rightarrow> False)
         then trimStart rest else s)"

record 'x completion_env =
  pe_host :: "string \<Rightarrow> 'x alarm_host"
  pe_admitted :: "string \<Rightarrow> bool option"
  pe_meanwhile :: "string \<Rightarrow> 'x thread_object \<Rightarrow> 'x thread_object"
  pe_reached :: "string \<Rightarrow> bool"
  pe_now :: int

text \<open>The objects of all threads; an RPC that does not reach its object throws.\<close>

definition routeCompletion ::
    "'k crypto \<Rightarrow> string \<Rightarrow> 'x completion_env \<Rightarrow> completion_request \<Rightarrow> (string \<Rightarrow> 'x thread_object) \<Rightarrow>
     (string \<Rightarrow> 'x thread_object) \<times> completion_response" where
  "routeCompletion C betterAuthSecret E req threads =
     (if rq_pathname req \<noteq> ''/api/compute/completion'' \<or> rq_method req \<noteq> ''POST'' then (threads, NotRouted)
      else let token = (case rq_authorization req of None \<Rightarrow> [] | Some h \<Rightarrow> strip_bearer h)
        in case verifyCompletionToken C (deriveCompletionSecret C betterAuthSecret) token (pe_now E) of
          Threw \<Rightarrow> (threads, RouteThrew)
        | Rejected \<Rightarrow> (threads, ErrorResponse 401 ''invalid_token'')
        | Verified claims \<Rightarrow>
            (let body = or_else (rq_body req) JNull in
             case (string_field body ''processId'', number_field body ''exitCode'') of
               (Some i, Some (Whole exitCode)) \<Rightarrow>
                 if i \<noteq> ct_processId claims then (threads, ErrorResponse 403 ''process_mismatch'')
                 else let t = ct_threadId claims in
                   if \<not> pe_reached E t then (threads, RouteThrew)
                   else let result = reportProcessCompletion (pe_host E t) (pe_admitted E t) (pe_meanwhile E t)
                          i exitCode (threads t)
                        in (threads(t := fst result), AgentAnswer (snd result))
             | _ \<Rightarrow> (threads, ErrorResponse 400 ''bad_request'')))"

section \<open>One exit, one message\<close>

lemma keeps_ledger: "keeps sv_ledger (recordPushedExit D i c)"
proof -
  have ext: "keeps sv_ledger (ext m)" "keeps sv_ledger (dbw D m')" for m :: "('a, 'b) act" and m'
    unfolding dbw_def ext_def by (intro keeps_intros; simp)+
  have "keeps sv_ledger (releaseWorkHold D i)"
    unfolding releaseWorkHold_def on_state_def
    by (auto intro!: keeps_intros ext split: option.split prod.split)
  then show ?thesis
    unfolding recordPushedExit_def updateTerminalProcess_def reapProcess_def timed_def
    by (auto intro!: keeps_intros ext)
qed

definition closed_by_push :: "'x alarm_host \<Rightarrow> string \<Rightarrow> int \<Rightarrow> work_row \<Rightarrow> 'x thread_object \<Rightarrow>
    'x thread_object \<Rightarrow> push_answer \<Rightarrow> bool" where
  "closed_by_push H i c r o1 o2 answer \<longleftrightarrow>
     (let now = the_time (ah_schedule H) (to_service o1);
          key = work_dedupeKey KProcess i OExited;
          sent = (\<not> ah_bufferThrows H key)
      in get_row i (sv_ledger (to_service o2)) = Some (r\<lparr>wr_terminal := Some (pushed_terminal now c),
           wr_deliveredAt := (if sent then Some now else None)\<rparr>) \<and>
         (\<exists>label command. to_buffer o2 = (if sent then fst (enqueue key IkWatcherCompletion
            (push_message label command i c) now (to_buffer o1)) else to_buffer o1)) \<and>
         answer = (if sent then PushAccepted None else PushRefused ''internal_error''))"

lemma close_pushed_won:
  assumes inv: "ledger_inv (sv_ledger (to_service o1))"
    and r: "get_row i (sv_ledger (to_service o1)) = Some r" "wr_open r"
    and run: "close_pushed H i c o1 = (o2, answer)"
  shows "closed_by_push H i c r o1 o2 answer"
    and "j \<noteq> i \<Longrightarrow> get_row j (sv_ledger (to_service o2)) = get_row j (sv_ledger (to_service o1))"
proof -
  let ?s = "to_service o1" and ?key = "work_dedupeKey KProcess i OExited"
  let ?now = "the_time (ah_schedule H) ?s"
  define env where "env = (sweep_env_of H ?s)\<lparr>se_service := map_option (\<lambda>_. service_view ?s) (ah_resolved H)\<rparr>"
  obtain label command sv where facts: "workFacts env i KProcess = (label, command, sv)"
    using prod_cases3 by blast
  obtain l won where t: "terminalize i (pushed_terminal ?now c) (sv_ledger ?s) = (l, won)" by fastforce
  have won: won using gate_terminalize [OF inv, of i] r t by (metis snd_conv)
  have l: "get_row j l = (if j = i then Some (r\<lparr>wr_terminal := Some (pushed_terminal ?now c)\<rparr>)
      else get_row j (sv_ledger ?s))" for j
    using get_terminalize [of j i "pushed_terminal ?now c" "sv_ledger ?s"] t r
    by (auto simp: option.map_ident split: option.split)
  have none: "wr_deliveredAt r = None" using get_row_open_undelivered [OF inv r] .
  let ?msg = "push_message label command i c"
  let ?st = "\<lparr>ss_ledger = l, ss_buffer = to_buffer o1, ss_kicks = to_kicks o1, ss_teardown = []\<rparr>"
  have throws: "se_bufferThrows env = ah_bufferThrows H" and now: "se_now env = ?now"
    by (simp_all add: env_def sweep_env_of_def)
  have eq: "(o2, answer) = (case deliverInjection env ?key IkWatcherCompletion ?msg ?st of
        None \<Rightarrow> (o1\<lparr>to_service := ?s\<lparr>sv_ledger := l\<rparr>\<rparr>, PushRefused ''internal_error'')
      | Some st \<Rightarrow> (let s' = ?s\<lparr>sv_ledger := fst (markDelivered i ?now (ss_ledger st))\<rparr>
          in (\<lparr>to_service = (case ah_resolved H of None \<Rightarrow> s'
                | Some D \<Rightarrow> fst (bestEffort (recordPushedExit D i c) s')),
              to_buffer = ss_buffer st, to_kicks = ss_kicks st\<rparr>, PushAccepted None)))"
    using run by (simp add: close_pushed_def Let_def t won facts flip: env_def)
  have ledger: "sv_ledger (fst (bestEffort (recordPushedExit D i c) u)) = sv_ledger u" for D and u :: "'a service"
    using keeps_bestEffort [OF keeps_ledger, of D i c] by (simp add: keeps_def)
  have both: "closed_by_push H i c r o1 o2 answer \<and>
      (j \<noteq> i \<longrightarrow> get_row j (sv_ledger (to_service o2)) = get_row j (sv_ledger (to_service o1)))" for j
  proof (cases "ah_bufferThrows H ?key")
    case True
    then have "deliverInjection env ?key IkWatcherCompletion ?msg ?st = None"
      by (simp add: deliverInjection_def throws)
    then show ?thesis using eq True l none by (simp add: closed_by_push_def Let_def)
  next
    case False
    obtain b w where enq: "enqueue ?key IkWatcherCompletion ?msg ?now (to_buffer o1) = (b, w)" by fastforce
    from False obtain st where st: "deliverInjection env ?key IkWatcherCompletion ?msg ?st = Some st"
      "ss_ledger st = l" "ss_buffer st = fst (enqueue ?key IkWatcherCompletion ?msg ?now (to_buffer o1))"
      by (cases w; cases "se_turnActive env") (auto simp: deliverInjection_def throws now routeInjection_def enq)
    have ledger2: "sv_ledger (to_service o2) = fst (markDelivered i ?now l)"
      and "to_buffer o2 = fst (enqueue ?key IkWatcherCompletion ?msg ?now (to_buffer o1))"
      and "answer = PushAccepted None"
      using eq st by (simp_all add: Let_def ledger split: option.splits)
    moreover have "get_row k (fst (markDelivered i ?now l)) = (if k = i
        then Some (r\<lparr>wr_terminal := Some (pushed_terminal ?now c), wr_deliveredAt := Some ?now\<rparr>)
        else get_row k (sv_ledger ?s))" for k
      using none by (auto simp: get_markDelivered l wr_open_def option.map_ident split: option.split)
    ultimately show ?thesis using False by (auto simp: closed_by_push_def Let_def)
  qed
  show "closed_by_push H i c r o1 o2 answer" using both by blast
  show "j \<noteq> i \<Longrightarrow> get_row j (sv_ledger (to_service o2)) = get_row j (sv_ledger (to_service o1))"
    using both by blast
qed

text \<open>A row that is closed takes no further report.\<close>

lemma replay_ignored:
  assumes "get_row i (sv_ledger (to_service o1)) = Some r" "\<not> wr_open r"
  shows "fst (reportProcessCompletion H allowed id i c o1) = o1"
  using assms by (auto simp: reportProcessCompletion_def wr_open_def split: option.split bool.split)

text \<open>C19: A pushed exit closes its row and is told once. Whatever else happened to the thread while the
  agent resolved its compute service: if the row is still open it is closed with the reported code, and
  either exactly one message is queued and the row marked as told, or the queue write failed and the
  row is left owed, to be told by the sweep; if another writer closed it first, nothing is changed and
  no second message sent. No other row is touched, and every later report of the process, with
  whatever code, changes nothing.
\<close>

theorem push_reports_once:
  assumes "ledger_inv (sv_ledger (to_service (meanwhile o0)))"
    and "get_row i (sv_ledger (to_service o0)) = Some r0" "wr_kind r0 = KProcess" "wr_open r0"
    and "get_row i (sv_ledger (to_service (meanwhile o0))) = Some r"
    and "reportProcessCompletion H (Some True) meanwhile i c o0 = (o2, answer)"
  shows "(if wr_open r then closed_by_push H i c r (meanwhile o0) o2 answer
      else o2 = meanwhile o0 \<and> answer = PushAccepted (Some ''already_terminal'')) \<and>
    (j \<noteq> i \<longrightarrow> get_row j (sv_ledger (to_service o2)) = get_row j (sv_ledger (to_service (meanwhile o0)))) \<and>
    fst (reportProcessCompletion H' allowed id i c' o2) = o2"
proof -
  have run: "close_pushed H i c (meanwhile o0) = (o2, answer)"
    using assms(2-4,6) by (simp add: reportProcessCompletion_def wr_open_def)
  show ?thesis
  proof (cases "wr_open r")
    case True
    note won = close_pushed_won [OF assms(1,5) True run]
    have "fst (reportProcessCompletion H' allowed id i c' o2) = o2"
      using won(1) by (auto simp: closed_by_push_def Let_def wr_open_def intro!: replay_ignored)
    with won True show ?thesis by simp
  next
    case False
    then have "\<not> snd (terminalize i u (sv_ledger (to_service (meanwhile o0))))" for u
      using gate_terminalize [OF assms(1), of i u] assms(5) by auto
    with run have "o2 = meanwhile o0 \<and> answer = PushAccepted (Some ''already_terminal'')"
      by (simp add: close_pushed_def Let_def split_def)
    with False assms(5) replay_ignored [of i "meanwhile o0" r H' allowed c'] show ?thesis by simp
  qed
qed

text \<open>C18: A completion report reaches a thread only through a token signed for exactly that process.
  When the route changes any thread or calls one, the token it was given is a body, a dot and the
  body's MAC under the completion secret, the body is the signed claim for that thread and that
  process and has not expired, and the process the request names is the one of the claim; all other
  threads are left alone.
\<close>

theorem completion_needs_its_token:
  assumes "routeCompletion C key E req threads = (threads', response)"
    and "threads' \<noteq> threads \<or> (\<exists>a. response = AgentAnswer a)"
  shows "\<exists>claims token mac_key sig v body exitCode.
    verifyCompletionToken C (deriveCompletionSecret C key) token (pe_now E) = Verified claims \<and>
    rq_authorization req \<noteq> None \<and> token = strip_bearer (the (rq_authorization req)) \<and>
    cr_importKey C (deriveCompletionSecret C key) = Some mac_key \<and>
    token = body_of token @ ''.'' @ sig \<and>
    base64UrlToBytes sig = Some (cr_hmac C mac_key (body_of token)) \<and>
    Option.bind (base64UrlToBytes (body_of token)) (cr_parse C) = Some v \<and>
    string_field v ''threadId'' = Some (ct_threadId claims) \<and>
    string_field v ''processId'' = Some (ct_processId claims) \<and> \<not> number_le (ct_exp claims) (pe_now E) \<and>
    rq_body req = Some body \<and> string_field body ''processId'' = Some (ct_processId claims) \<and>
    number_field body ''exitCode'' = Some (Whole exitCode) \<and>
    threads' = threads(ct_threadId claims := fst (reportProcessCompletion (pe_host E (ct_threadId claims))
      (pe_admitted E (ct_threadId claims)) (pe_meanwhile E (ct_threadId claims)) (ct_processId claims) exitCode
      (threads (ct_threadId claims))))"
proof -
  let ?secret = "deriveCompletionSecret C key"
  define token where "token = (case rq_authorization req of None \<Rightarrow> [] | Some h \<Rightarrow> strip_bearer h)"
  obtain claims where verified: "verifyCompletionToken C ?secret token (pe_now E) = Verified claims"
    using assms by (auto simp: routeCompletion_def Let_def simp flip: token_def split: if_splits verdict.splits)
  then obtain v where v: "signed_json C ?secret token = Some v"
      "string_field v ''threadId'' = Some (ct_threadId claims)"
      "string_field v ''processId'' = Some (ct_processId claims)" "\<not> number_le (ct_exp claims) (pe_now E)"
    by (auto simp: verifyCompletionToken_def split: option.splits json.splits if_splits)
  from signed_json_mac [OF v(1)] obtain mac_key sig where mac: "cr_importKey C ?secret = Some mac_key"
      "token = body_of token @ ''.'' @ sig" "base64UrlToBytes sig = Some (cr_hmac C mac_key (body_of token))"
      "Option.bind (base64UrlToBytes (body_of token)) (cr_parse C) = Some v" by blast
  have header: "rq_authorization req \<noteq> None \<and> token = strip_bearer (the (rq_authorization req))"
    using mac(2) by (auto simp: token_def split: option.splits)
  have routed: "rq_pathname req = ''/api/compute/completion'' \<and> rq_method req = ''POST''"
    using assms by (auto simp: routeCompletion_def split: if_splits)
  have "\<exists>exitCode. string_field (or_else (rq_body req) JNull) ''processId'' = Some (ct_processId claims) \<and>
      number_field (or_else (rq_body req) JNull) ''exitCode'' = Some (Whole exitCode) \<and>
      threads' = threads(ct_threadId claims := fst (reportProcessCompletion (pe_host E (ct_threadId claims))
        (pe_admitted E (ct_threadId claims)) (pe_meanwhile E (ct_threadId claims)) (ct_processId claims) exitCode
        (threads (ct_threadId claims))))"
  proof (cases "string_field (or_else (rq_body req) JNull) ''processId''")
    case (Some i)
    note i = this
    show ?thesis
    proof (cases "number_field (or_else (rq_body req) JNull) ''exitCode''")
      case (Some n)
      with i Some assms verified routed show ?thesis
        by (cases n) (auto simp: routeCompletion_def Let_def simp flip: token_def split: if_splits)
    qed (use i assms verified routed in \<open>auto simp: routeCompletion_def Let_def simp flip: token_def\<close>)
  qed (use assms verified routed in \<open>auto simp: routeCompletion_def Let_def simp flip: token_def\<close>)
  then obtain exitCode where body: "string_field (or_else (rq_body req) JNull) ''processId'' = Some (ct_processId claims)"
      "number_field (or_else (rq_body req) JNull) ''exitCode'' = Some (Whole exitCode)"
      "threads' = threads(ct_threadId claims := fst (reportProcessCompletion (pe_host E (ct_threadId claims))
        (pe_admitted E (ct_threadId claims)) (pe_meanwhile E (ct_threadId claims)) (ct_processId claims) exitCode
        (threads (ct_threadId claims))))" by blast
  then obtain b where "rq_body req = Some b" by (cases "rq_body req") (auto simp: or_else_def string_field_def)
  with body header verified mac v show ?thesis by (auto simp: or_else_def)
qed

section \<open>Instances\<close>

text \<open>A thread with one process at work whose compute service does not resolve, and a request for it.\<close>

definition push_host :: "outside alarm_host" where
  "push_host = \<lparr>ah_resolved = None, ah_sweep_service = None, ah_schedule = fake_deps,
     ah_subagentLabel = (\<lambda>_. None), ah_bufferThrows = (\<lambda>_. False), ah_turnActive = False\<rparr>"

definition running_work :: work_row where
  "running_work = \<lparr>wr_id = ''p1'', wr_kind = KProcess, wr_startedAt = 0,
     wr_lastAliveAt = 0, wr_staleAfterMs = 180000, wr_deadlineAt = 3600000,
     wr_generation = UNKNOWN_GENERATION, wr_terminal = None, wr_deliveredAt = None,
     wr_clearedAt = None, wr_progress = None\<rparr>"

definition working_thread :: "outside thread_object" where
  "working_thread = \<lparr>to_service = new_thread\<lparr>sv_ledger := register running_work []\<rparr>,
     to_buffer = \<lparr>ib_rows = [], ib_last = 0\<rparr>, to_kicks = 0\<rparr>"

lemma working_thread_row: "get_row i (sv_ledger (to_service working_thread)) =
    (if i = ''p1'' then Some running_work else None)" "ledger_inv (sv_ledger (to_service working_thread))"
  by (simp_all add: working_thread_def get_register ledger_inv_register)
     (simp_all add: get_row_def registered_def sql_row_Nil running_work_def)

lemma push_reports_once_witness:
  "get_row ''p1'' (sv_ledger (to_service (fst (reportProcessCompletion push_host (Some True) id ''p1'' 3 working_thread)))) =
     Some (running_work\<lparr>wr_terminal := Some (pushed_terminal 1000 3), wr_deliveredAt := Some 1000\<rparr>)"
proof -
  have "the_time (ah_schedule push_host) (to_service working_thread) = 1000"
    by (simp add: the_time_def push_host_def fake_deps_def working_thread_def new_thread_def new_outside_def)
  then show ?thesis
    using push_reports_once [of id working_thread "''p1''" running_work running_work push_host 3
        "fst (reportProcessCompletion push_host (Some True) id ''p1'' 3 working_thread)"
        "snd (reportProcessCompletion push_host (Some True) id ''p1'' 3 working_thread)"]
    by (simp add: working_thread_row closed_by_push_def Let_def push_host_def)
       (simp add: running_work_def wr_open_def)
qed

definition push_crypto :: "string crypto" where
  "push_crypto = (demo_crypto [completion_json demo_claims])\<lparr>cr_sha256 := (\<lambda>_. ''x''), cr_hmac := (\<lambda>k b. k)\<rparr>"

definition push_request :: completion_request where
  "push_request = \<lparr>rq_pathname = ''/api/compute/completion'', rq_method = ''POST'',
     rq_authorization = Some (''Bearer '' @ the (signCompletionToken push_crypto
       (deriveCompletionSecret push_crypto ''s'') demo_claims)),
     rq_body = Some (JObject [(''processId'', JString ''p1''), (''exitCode'', JNumber (Whole 3))])\<rparr>"

definition push_env :: "outside completion_env" where
  "push_env = \<lparr>pe_host = (\<lambda>_. push_host), pe_admitted = (\<lambda>_. Some True), pe_meanwhile = (\<lambda>_. id),
     pe_reached = (\<lambda>_. True), pe_now = 1000\<rparr>"

lemma strip_bearer_token: "s = [] \<or> \<not> is_space (hd s) \<Longrightarrow> strip_bearer (''Bearer '' @ s) = s"
proof -
  assume s: "s = [] \<or> \<not> is_space (hd s)"
  have "map lower_char ''Bearer'' = ''bearer''" by code_simp
  then show ?thesis using s by (cases s) (simp_all add: strip_bearer_def trimStart_def is_space_def)
qed

lemma url_digit_not_space: "\<not> is_space (url_digit x)"
proof -
  have "\<forall>c \<in> set base64_alphabet. \<not> is_space c" by (simp add: base64_alphabet_def is_space_def)
  then show ?thesis using digit_in [of x] by (auto simp: url_digit_def is_space_def)
qed

lemma push_token: "\<exists>token. rq_authorization push_request = Some (''Bearer '' @ token) \<and>
    strip_bearer (''Bearer '' @ token) = token \<and>
    verifyCompletionToken push_crypto (deriveCompletionSecret push_crypto ''s'') token 1000 = Verified demo_claims"
proof -
  let ?secret = "deriveCompletionSecret push_crypto ''s''"
  have secret: "?secret = ''78''"
    by (simp add: deriveCompletionSecret_def derive_secret_def push_crypto_def hex_byte_def hex_digit_def byte_def)
  then obtain token where token: "signCompletionToken push_crypto ?secret demo_claims = Some token"
    by (simp add: signCompletionToken_def sign_json_def push_crypto_def demo_crypto_def Let_def)
  have "cr_parse push_crypto (cr_stringify push_crypto (completion_json demo_claims)) = Some (completion_json demo_claims)"
    by (simp add: push_crypto_def demo_crypto_def)
  then have "signed_json push_crypto ?secret token = Some (completion_json demo_claims)"
    using token by (simp add: signCompletionToken_def signed_json_sign)
  then have "verifyCompletionToken push_crypto ?secret token 1000 = Verified demo_claims"
    by (simp add: verifyCompletion_json) (simp add: demo_claims_def)
  moreover have "\<not> is_space (hd token)"
    using token url_digit_not_space
    by (auto simp: signCompletionToken_def sign_json_def Let_def push_crypto_def demo_crypto_def secret
        bytesToBase64Url_digits completion_json_def demo_claims_def)
  ultimately show ?thesis using token strip_bearer_token [of token] by (simp add: push_request_def)
qed

lemma completion_needs_its_token_witness:
  "fst (routeCompletion push_crypto ''s'' push_env push_request (\<lambda>_. working_thread)) ''t2'' = working_thread \<and>
   (\<exists>answer. snd (routeCompletion push_crypto ''s'' push_env push_request (\<lambda>_. working_thread)) = AgentAnswer answer)"
proof -
  obtain token where token: "rq_authorization push_request = Some (''Bearer '' @ token)"
    "strip_bearer (''Bearer '' @ token) = token"
    "verifyCompletionToken push_crypto (deriveCompletionSecret push_crypto ''s'') token 1000 = Verified demo_claims"
    using push_token by blast
  have answer: "\<exists>answer. snd (routeCompletion push_crypto ''s'' push_env push_request (\<lambda>_. working_thread)) = AgentAnswer answer"
    using token by (simp add: routeCompletion_def Let_def push_env_def)
      (simp add: push_request_def or_else_def string_field_def number_field_def demo_claims_def Let_def)
  show ?thesis
    using completion_needs_its_token [OF prod.collapse [symmetric], of push_crypto "''s''" push_env push_request
        "\<lambda>_. working_thread"] answer token
    by (auto simp: push_env_def demo_claims_def)
qed

end
