(* ===== verification/Command_Queries.thy ===== *)
theory Command_Queries
  imports Command_Safety Fake_Thread
begin

text \<open>
  What the model and the browser ask about a process, in \<open>src/compute/thread-service.ts\<close>: its status, a
  tail of its output, head and tail, a line or byte range, a search, and the list of processes.
\<close>

section \<open>Status\<close>

definition process_not_found :: compute_error where
  "process_not_found = OtherError ''sandbox_process_not_found''"

text \<open>What the provider answers while the stored status is still running.\<close>

definition settle_status ::
    "'x deps \<Rightarrow> string \<Rightarrow> process_status \<Rightarrow> process_status \<times> int option \<Rightarrow> ('x service, unit) act" where
  "settle_status D i stored status =
     andThen (if fst status \<noteq> stored \<or> snd status \<noteq> None
              then andThen (updateTerminalProcess D i status) (\<lambda>_.
                   if fst status \<noteq> PsRunning then emitCommandEvent ''command_completion'' i else ret ())
              else ret ()) (\<lambda>_.
     if fst status \<noteq> PsRunning then refreshProcessOutput D i else ret ())"

definition ask_provider :: "'x deps \<Rightarrow> string \<Rightarrow> compute_process \<Rightarrow> ('x service, unit) act" where
  "ask_provider D i p = on_state (\<lambda>state.
     case (active_runtime state, cp_backendProcessRef p) of
       (Some runtime, Some ref) \<Rightarrow>
         if cp_status p \<noteq> PsRunning then ret ()
         else catching
           (andThen (ext (rb_getProcessStatus (sd_backend D) runtime ref)) (settle_status D i (cp_status p)))
           (\<lambda>e. if isRuntimeMissing e then markRuntimeMissing D else raise e)
     | _ \<Rightarrow> ret ())"

text \<open>\<open>store.getProcess(i) ?? process\<close>.\<close>

definition fresh_process :: "string \<Rightarrow> compute_process \<Rightarrow> 'x service \<Rightarrow> compute_process" where
  "fresh_process i p s = (case getProcess i (sv_db s) of None \<Rightarrow> p | Some q \<Rightarrow> q)"

definition known_process :: "string \<Rightarrow> (compute_process \<Rightarrow> ('x service, 'a) act) \<Rightarrow> ('x service, 'a) act" where
  "known_process i f = reading (\<lambda>s. getProcess i (sv_db s)) (\<lambda>p. case p of
     None \<Rightarrow> raise process_not_found | Some p \<Rightarrow> f p)"

definition execStatus :: "'x deps \<Rightarrow> string \<Rightarrow> ('x service, process_status \<times> int option) act" where
  "execStatus D i = known_process i (\<lambda>p.
     andThen (ask_provider D i p) (\<lambda>_.
     reading (fresh_process i p) (\<lambda>q. ret (cp_status q, cp_exitCode q))))"

definition refreshProcessStatusBestEffort :: "'x deps \<Rightarrow> string \<Rightarrow> ('x service, unit) act" where
  "refreshProcessStatusBestEffort D i = bestEffort (andThen (execStatus D i) (\<lambda>_. ret ()))"

section \<open>Output\<close>

record query_limits =
  ql_tailMaxLines :: int
  ql_tailMaxBytes :: nat
  ql_grepMaxContextLines :: nat
  ql_grepMaxMatches :: nat
  ql_grepMaxReturnedLines :: nat
  ql_grepMaxBytes :: nat
  ql_readMaxLines :: nat
  ql_readMaxBytes :: nat

text \<open>\<open>limited\<close> with its reason; \<open>Retention\<close> when output was dropped before it was stored.\<close>

datatype limited = NotLimited | WindowLimited limit_reason | RetentionLimited

definition withRetention :: "string \<Rightarrow> limit_reason option \<Rightarrow> 'x service \<Rightarrow> limited" where
  "withRetention i reason s = (case reason of
       Some r \<Rightarrow> WindowLimited r
     | None \<Rightarrow> (case getProcess i (sv_db s) of
           None \<Rightarrow> NotLimited
         | Some p \<Rightarrow> if cp_outputTruncated p then RetentionLimited else NotLimited))"

record tail_answer =
  ta_label :: "string option"
  ta_command :: string
  ta_status :: process_status
  ta_exitCode :: "int option"
  ta_stream :: out_stream
  ta_guidance :: bool
  ta_text :: string
  ta_limited :: limited

text \<open>The status, then the output of a process that is still running.\<close>

definition freshen :: "'x deps \<Rightarrow> string \<Rightarrow> compute_process \<Rightarrow> ('x service, unit) act" where
  "freshen D i p =
     andThen (refreshProcessStatusBestEffort D i) (\<lambda>_.
     reading (fresh_process i p) (\<lambda>q. if cp_status q = PsRunning then refreshProcessOutput D i else ret ()))"

definition stored_chunks :: "string \<Rightarrow> out_stream \<Rightarrow> 'x service \<Rightarrow> output_chunk list" where
  "stored_chunks i stream s = listOutputChunks i (Some stream) (cd_chunks (sv_db s))"

definition capped :: "'a::linorder option \<Rightarrow> 'a \<Rightarrow> 'a" where
  "capped asked limit = (case asked of None \<Rightarrow> limit | Some n \<Rightarrow> min n limit)"

definition answer_output ::
    "query_limits \<Rightarrow> string \<Rightarrow> out_stream \<Rightarrow> int option \<Rightarrow> nat option \<Rightarrow> compute_process \<Rightarrow> 'x service \<Rightarrow> tail_answer" where
  "answer_output Q i stream maxLines maxBytes p s =
     (let fresh = fresh_process i p s;
          tail = tailOutputChunks stream (capped maxLines (ql_tailMaxLines Q)) (capped maxBytes (ql_tailMaxBytes Q))
            (stored_chunks i stream s)
      in \<lparr>ta_label = cp_label fresh, ta_command = cp_command fresh, ta_status = cp_status fresh,
          ta_exitCode = cp_exitCode fresh, ta_stream = stream, ta_guidance = (cp_status fresh = PsRunning),
          ta_text = fst tail, ta_limited = withRetention i (snd tail) s\<rparr>)"

definition execOutput ::
    "'x deps \<Rightarrow> query_limits \<Rightarrow> string \<Rightarrow> out_stream \<Rightarrow> int option \<Rightarrow> nat option \<Rightarrow> ('x service, tail_answer) act" where
  "execOutput D Q i stream maxLines maxBytes = known_process i (\<lambda>p.
     andThen (freshen D i p) (\<lambda>_. reading (answer_output Q i stream maxLines maxBytes p) ret))"

definition execOutputHeadTail ::
    "'x deps \<Rightarrow> query_limits \<Rightarrow> string \<Rightarrow> out_stream \<Rightarrow> nat option \<Rightarrow> nat option \<Rightarrow>
     ('x service, head_tail \<times> bool \<times> out_stream) act" where
  "execOutputHeadTail D Q i requested headLines tailLines = known_process i (\<lambda>p.
     andThen (freshen D i p) (\<lambda>_. reading (\<lambda>s.
       let maxLines = nat (ql_tailMaxLines Q);
           slice = (\<lambda>st. headTailOutputChunks st (min (case headLines of None \<Rightarrow> 20 | Some n \<Rightarrow> n) maxLines)
             (min (case tailLines of None \<Rightarrow> 20 | Some n \<Rightarrow> n) maxLines) (stored_chunks i st s));
           sliced = slice requested; err = slice Stderr;
           falls_back = (requested = Stdout \<and> ht_head sliced = [] \<and> ht_tail sliced = [] \<and>
             ht_hiddenLines sliced = 0 \<and> (ht_head err \<noteq> [] \<or> ht_tail err \<noteq> []))
       in (if falls_back then err else sliced, cp_outputTruncated (fresh_process i p s),
           if falls_back then Stderr else requested)) ret))"

definition execOutputGrep ::
    "'x deps \<Rightarrow> query_limits \<Rightarrow> (string \<Rightarrow> bool \<Rightarrow> string + line_test) \<Rightarrow> string \<Rightarrow> string \<Rightarrow> out_stream option \<Rightarrow>
     bool \<Rightarrow> nat option \<Rightarrow> ('x service, grep_match list \<times> limited) act" where
  "execOutputGrep D Q compile i pattern stream caseSensitive contextLines =
     andThen (refreshProcessOutput D i) (\<lambda>_. reading (\<lambda>s. s) (\<lambda>s.
       case grepOutputChunks compile \<lparr>gi_pattern = pattern, gi_stream = stream,
           gi_caseSensitive = caseSensitive,
           gi_contextLines = min (case contextLines of None \<Rightarrow> 0 | Some n \<Rightarrow> n) (ql_grepMaxContextLines Q),
           gi_maxMatches = ql_grepMaxMatches Q, gi_maxReturnedLines = ql_grepMaxReturnedLines Q,
           gi_maxBytes = ql_grepMaxBytes Q\<rparr> (listOutputChunks i None (cd_chunks (sv_db s))) of
         Inl PatternTooLong \<Rightarrow> raise (OtherError ''sandbox_grep_pattern_too_long'')
       | Inl (PatternInvalid e) \<Rightarrow> raise (OtherError e)
       | Inr (matches, reason) \<Rightarrow> ret (matches, withRetention i reason s)))"

definition execOutputRead ::
    "'x deps \<Rightarrow> query_limits \<Rightarrow> string \<Rightarrow> out_stream \<Rightarrow> int option \<Rightarrow> int option \<Rightarrow> nat option \<Rightarrow>
     nat option \<Rightarrow> ('x service, string \<times> limited) act" where
  "execOutputRead D Q i stream startLine endLine startByte maxLines =
     andThen (timed D (cleanupExpiredRecovery D False)) (\<lambda>_.
     andThen (refreshProcessOutput D i) (\<lambda>_. reading (\<lambda>s.
       let result = readOutputChunks \<lparr>ri_stream = stream, ri_startLine = startLine, ri_endLine = endLine,
             ri_startByte = startByte, ri_maxLines = Some (capped maxLines (ql_readMaxLines Q)),
             ri_maxBytes = ql_readMaxBytes Q\<rparr> (stored_chunks i stream s)
       in (fst result, withRetention i (snd result) s)) ret))"

text \<open>\<open>slice(0, limit)\<close>: a negative limit leaves out that many at the end.\<close>

definition js_slice_to :: "int \<Rightarrow> 'a list \<Rightarrow> 'a list" where
  "js_slice_to n xs = (if n < 0 then take (length xs - nat (- n)) xs else take (nat n) xs)"

definition execList :: "'x deps \<Rightarrow> process_status option \<Rightarrow> int option \<Rightarrow> ('x service, compute_process list) act" where
  "execList D status limit =
     andThen (timed D (cleanupExpiredRecovery D False)) (\<lambda>_. reading (\<lambda>s.
       js_slice_to (min (case limit of None \<Rightarrow> 20 | Some n \<Rightarrow> n) 100)
         (filter (\<lambda>p. case status of None \<Rightarrow> True | Some st \<Rightarrow> cp_status p = st) (listProcesses 1000 (sv_db s)))) ret)"

section \<open>A question never starts a container\<close>

definition maintains :: "('s \<Rightarrow> bool) \<Rightarrow> ('s, 'a) act \<Rightarrow> bool" where
  "maintains P m \<longleftrightarrow> (\<forall>s. P s \<longrightarrow> P (fst (m s)))"

lemma maintains_wp: "maintains P m \<longleftrightarrow> (\<forall>s. P s \<longrightarrow> wp m (\<lambda>_. P) (\<lambda>_. P) s)"
  by (simp add: maintains_def wp_final)

named_theorems maintains_intros

lemma maintains_andThen [maintains_intros]:
  "maintains P m \<Longrightarrow> (\<And>a. maintains P (g a)) \<Longrightarrow> maintains P (andThen m g)"
  unfolding maintains_wp wp_andThen by (blast intro: wp_conseq)

lemma maintains_catching [maintains_intros]:
  "maintains P m \<Longrightarrow> (\<And>e. maintains P (h e)) \<Longrightarrow> maintains P (catching m h)"
  unfolding maintains_wp wp_catching by (blast intro: wp_conseq)

lemma maintains_simple [maintains_intros]: "maintains P (ret a)" "maintains P (raise e)"
  "(\<And>x. maintains P (g x)) \<Longrightarrow> maintains P (reading h g)"
  "maintains P m \<Longrightarrow> maintains P n \<Longrightarrow> maintains P (if b then m else n)"
  by (simp_all add: maintains_wp wp_simps)

lemma maintains_bestEffort [maintains_intros]: "maintains P m \<Longrightarrow> maintains P (bestEffort m)"
  unfolding bestEffort_def by (intro maintains_intros)

text \<open>
  The container of the row is the one it was, or the row says that there is none; nothing was
  released.
\<close>

definition same_container :: "'x service \<Rightarrow> 'x service \<Rightarrow> bool" where
  "same_container s t \<longleftrightarrow> store_ok (sv_db t) \<and> sv_releases t = sv_releases s \<and>
     (row_refs t = row_refs s \<or> row_refs t = Some (Absent, None, None))"

abbreviation asks_only :: "'x service \<Rightarrow> ('x service, 'a) act \<Rightarrow> bool" where
  "asks_only s m \<equiv> maintains (same_container s) m"

lemma same_container_core: "core t = core u \<Longrightarrow> same_container s t = same_container s u"
  by (simp add: same_container_def core_def row_refs_def row_def getComputeState_def store_ok_def)

lemma asks_keeps: "keeps core m \<Longrightarrow> asks_only s m"
  using same_container_core by (auto simp: maintains_def keeps_def)

lemma asks_markAbsent: "asks_only s (dbw D (markAbsent now))"
proof -
  have "same_container s (t\<lparr>sv_ext := x, sv_db := fst (markAbsent now (sv_db t))\<rparr>)"
    if t: "same_container s t" for t x
  proof -
    have "store_ok (sv_db t)" using t by (simp add: same_container_def)
    from store_exec_accepted [OF this, of "OpAbsent now"] t show ?thesis
      by (simp add: same_container_def row_refs_def row_def next_state_def absent_state_def)
  qed
  moreover have "same_container s (t\<lparr>sv_ext := x\<rparr>)" if "same_container s t" for t x
    using that same_container_core [of "t\<lparr>sv_ext := x\<rparr>" t] by (simp add: core_def)
  moreover have "fst (dbw D (markAbsent now) t) = t\<lparr>sv_ext := fst (sd_sql D (sv_ext t))\<rparr> \<or>
      fst (dbw D (markAbsent now) t) =
        t\<lparr>sv_ext := fst (sd_sql D (sv_ext t)), sv_db := fst (markAbsent now (sv_db t))\<rparr>" for t
    by (simp add: dbw_def andThen_def ext_def on_part_def split: prod.split sum.split)
  ultimately show ?thesis by (metis maintains_def)
qed

lemma keeps_core_event: "keeps core (emitCommandEvent ev i)"
  unfolding emitCommandEvent_def by (intro keeps_intros) (simp add: core_def)

lemma keeps_core_output: "keeps core (updateTerminalProcess D i r)" "keeps core (ingestCumulativeOutput D i st c)"
proof -
  have append: "keeps core (service_appendOutput D i st t)" for t
    unfolding service_appendOutput_def
    by (auto intro!: keeps_intros split: option.split simp: db_appendOutput_def on_processes_def Let_def)
  show "keeps core (ingestCumulativeOutput D i st c)"
    unfolding ingestCumulativeOutput_def by (auto intro!: keeps_intros append split: option.split)
qed (unfold updateTerminalProcess_def, intro keeps_intros)

lemmas asks_output = asks_keeps [OF keeps_core_ext] asks_keeps [OF keeps_core_output(1)]
  asks_keeps [OF keeps_core_output(2)] asks_keeps [OF keeps_core_event]

lemmas asks_calls = asks_keeps [OF keeps_core_stop] asks_keeps [OF keeps_core_clearWatchers]
  asks_keeps [OF keeps_core_quota(1)] asks_keeps [OF keeps_core_clearLifecycleState]
  asks_keeps [OF keeps_core_clearAlarm] asks_keeps [OF keeps_core_remind]
  asks_keeps [OF keeps_core_destroy] asks_keeps [OF keeps_core_emit]

lemma asks_missing: "asks_only s (markRuntimeMissing D)"
  unfolding markRuntimeMissing_def timed_def
  by (intro maintains_intros asks_markAbsent asks_calls)

lemma asks_refresh: "asks_only s (refreshProcessOutput D i)"
  unfolding refreshProcessOutput_def on_state_def
  by (auto split: option.split intro!: maintains_intros asks_missing asks_output)

lemma asks_expiry: "asks_only s (cleanupExpiredRecovery D b now)"
  unfolding cleanupExpiredRecovery_def on_state_def
  by (auto split: option.split intro!: maintains_intros asks_markAbsent asks_calls)

lemma asks_status: "asks_only s (execStatus D i)"
proof -
  have "asks_only s (settle_status D i stored status)" for stored status
    unfolding settle_status_def
    by (intro maintains_intros asks_refresh asks_output)
  then show ?thesis
    unfolding execStatus_def known_process_def ask_provider_def on_state_def
    by (auto split: option.split intro!: maintains_intros asks_missing asks_output)
qed

lemma asks_freshen: "asks_only s (freshen D i p)"
  unfolding freshen_def refreshProcessStatusBestEffort_def
  by (intro maintains_intros asks_status asks_refresh)



end
