(* ===== verification/Artifact_Publishing.thy ===== *)
theory Artifact_Publishing
  imports Command_Queries
begin

text \<open>
  Files in and out of the container: upload, download and the publishing of a directory as an
  artifact, of \<open>src/compute/thread-service.ts\<close> and \<open>src/artifacts/mime.ts\<close>.

  The calls of the provider that only these operations make are the record \<open>transfer_backend\<close>; a read
  comes with the provider's mime type.
\<close>

section \<open>Mime types\<close>

definition EXTENSION_MIME :: "(string \<times> string) list" where
  "EXTENSION_MIME =
     [(''css'', ''text/css''), (''gif'', ''image/gif''), (''htm'', ''text/html''), (''html'', ''text/html''),
      (''ico'', ''image/x-icon''), (''jpeg'', ''image/jpeg''), (''jpg'', ''image/jpeg''),
      (''js'', ''application/javascript''), (''json'', ''application/json''), (''map'', ''application/json''),
      (''mjs'', ''application/javascript''), (''png'', ''image/png''), (''svg'', ''image/svg+xml''),
      (''ttf'', ''font/ttf''), (''txt'', ''text/plain''), (''wasm'', ''application/wasm''),
      (''webp'', ''image/webp''), (''woff'', ''font/woff''), (''woff2'', ''font/woff2'')]"

text \<open>
  The lookup in an object literal also finds what the object inherits; of its names these are in lower
  case. Their values, as the text a header makes of them.
\<close>

definition inherited_names :: "(string \<times> string) list" where
  "inherited_names =
     [(''constructor'', ''function Object() { [native code] }''), (''__proto__'', ''[object Object]'')]"

definition OCTET_STREAM :: string where "OCTET_STREAM = ''application/octet-stream''"

definition mimeFromFilename :: "string \<Rightarrow> string" where
  "mimeFromFilename name =
     (if CHR ''.'' \<notin> set name then OCTET_STREAM
      else let e = map lower_char (rev (takeWhile (\<lambda>c. c \<noteq> CHR ''.'') (rev name)))
        in (case map_of (EXTENSION_MIME @ inherited_names) e of None \<Rightarrow> OCTET_STREAM | Some m \<Rightarrow> m))"

section \<open>Upload and download\<close>

record 'x transfer_backend =
  tr_inspectPath :: "backend_reference \<Rightarrow> string \<Rightarrow> ('x, path_type option) act"
  tr_listDirectory :: "backend_reference \<Rightarrow> string \<Rightarrow> ('x, dir_entry list) act"
  tr_readFile :: "backend_reference \<Rightarrow> string \<Rightarrow> int \<Rightarrow> ('x, string \<times> string option) act"

definition validateComputePath :: "string \<Rightarrow> compute_error + string" where
  "validateComputePath v =
     (let path = trim v
      in if path = [] \<or> NUL \<in> set path \<or> ''..'' \<in> set (js_split CHR ''/'' path)
         then Inl (OtherError ''compute_invalid_path'') else Inr path)"

definition given_path :: "string \<Rightarrow> (string \<Rightarrow> ('s, 'a) act) \<Rightarrow> ('s, 'a) act" where
  "given_path v f = (case validateComputePath v of Inl e \<Rightarrow> raise e | Inr path \<Rightarrow> f path)"

definition after_transfer :: "'x deps \<Rightarrow> ('x service, unit) act" where
  "after_transfer D = andThen (timed D (\<lambda>now. dbw D (touchLastUsed now)))
     (\<lambda>_. refreshRelease D (sd_idleTimeoutMs D))"

definition execUploadFile ::
    "'x deps \<Rightarrow> int \<Rightarrow> string \<Rightarrow> string \<Rightarrow> bool \<Rightarrow> ('x service, string) act" where
  "execUploadFile D maxUploadBytes destinationPath bytes overwrite =
     andThen (ext (sd_markSandboxDirty D)) (\<lambda>_.
     given_path destinationPath (\<lambda>path.
       if int (length bytes) > maxUploadBytes then raise (OtherError ''compute_file_too_large'')
       else andThen (ensureRuntime D) (\<lambda>runtime.
            andThen (ext (rb_writeFile (sd_backend D) runtime path bytes True overwrite)) (\<lambda>_.
            andThen (after_transfer D) (\<lambda>_. ret path)))))"

definition execDownloadFile ::
    "'x deps \<Rightarrow> 'x transfer_backend \<Rightarrow> int \<Rightarrow> string \<Rightarrow> int \<Rightarrow>
     ('x service, string \<times> string option \<times> string option) act" where
  "execDownloadFile D T maxDownloadBytes v maxBytes =
     given_path v (\<lambda>path.
       andThen (ensureRuntime D) (\<lambda>runtime.
       andThen (ext (tr_readFile T runtime path (min maxBytes maxDownloadBytes))) (\<lambda>(bytes, mime).
       andThen (after_transfer D) (\<lambda>_.
       ret (bytes, (let name = last (js_split CHR ''/'' path) in if name = [] then None else Some name), mime)))))"

section \<open>Publishing a directory\<close>

record published_file =
  pf_relativePath :: string
  pf_bytes :: string
  pf_mimeType :: string

definition MAX_ARTIFACT_BYTES :: int where "MAX_ARTIFACT_BYTES = 20000000"
definition MAX_ARTIFACT_FILES :: nat where "MAX_ARTIFACT_FILES = 100"

definition published_mime :: "string \<Rightarrow> string option \<Rightarrow> string" where
  "published_mime rel provider =
     (if mimeFromFilename rel = OCTET_STREAM
      then (case provider of None \<Rightarrow> OCTET_STREAM | Some m \<Rightarrow> m) else mimeFromFilename rel)"

text \<open>The files collected so far and their size.\<close>

type_synonym collected = "published_file list \<times> int"

definition too_many_files :: compute_error where "too_many_files = OtherError ''artifact_too_many_files''"
definition artifact_too_large :: compute_error where "artifact_too_large = OtherError ''artifact_too_large''"

definition child_rel :: "string \<Rightarrow> string \<Rightarrow> string" where
  "child_rel base name = (if base = [] then name else base @ ''/'' @ name)"

text \<open>\<open>${absDir.replace(/\/$/, "")}/${name}\<close>.\<close>

definition child_abs :: "string \<Rightarrow> string \<Rightarrow> string" where
  "child_abs dir name = (if dir \<noteq> [] \<and> last dir = CHR ''/'' then butlast dir else dir) @ ''/'' @ name"

definition collect_file ::
    "'x transfer_backend \<Rightarrow> backend_reference \<Rightarrow> int \<Rightarrow> string \<Rightarrow> string \<Rightarrow> collected \<Rightarrow> ('x, collected) act" where
  "collect_file T r maxTotal path rel acc =
     (if length (fst acc) \<ge> MAX_ARTIFACT_FILES then raise too_many_files
      else if maxTotal - snd acc \<le> 0 then raise artifact_too_large
      else andThen (tr_readFile T r path (maxTotal - snd acc)) (\<lambda>(bytes, mime).
        if snd acc + int (length bytes) > maxTotal then raise artifact_too_large
        else ret (fst acc @ [\<lparr>pf_relativePath = rel, pf_bytes = bytes, pf_mimeType = published_mime rel mime\<rparr>],
                  snd acc + int (length bytes))))"

text \<open>The entries of one directory; \<open>sub\<close> walks a subdirectory.\<close>

fun walk_entries ::
    "(string \<Rightarrow> string \<Rightarrow> collected \<Rightarrow> ('x, collected option) act) \<Rightarrow> 'x transfer_backend \<Rightarrow> backend_reference \<Rightarrow>
     int \<Rightarrow> string \<Rightarrow> string \<Rightarrow> dir_entry list \<Rightarrow> collected \<Rightarrow> ('x, collected option) act" where
  "walk_entries sub T r maxTotal dir base [] acc = ret (Some acc)"
| "walk_entries sub T r maxTotal dir base (e # es) acc =
     (if de_name e = ''.'' \<or> de_name e = ''..'' \<or> de_type e = PathT SymlinkT \<or> de_type e = OtherT
      then walk_entries sub T r maxTotal dir base es acc
      else if de_type e = PathT DirectoryT
      then andThen (sub (child_abs dir (de_name e)) (child_rel base (de_name e)) acc) (\<lambda>found. case found of
             None \<Rightarrow> ret None
           | Some acc' \<Rightarrow> walk_entries sub T r maxTotal dir base es acc')
      else andThen (collect_file T r maxTotal (child_abs dir (de_name e)) (child_rel base (de_name e)) acc)
             (walk_entries sub T r maxTotal dir base es))"

text \<open>\<open>depth\<close> bounds the nesting of directories; \<open>None\<close> when it does not suffice.\<close>

fun walk ::
    "nat \<Rightarrow> 'x transfer_backend \<Rightarrow> backend_reference \<Rightarrow> int \<Rightarrow> string \<Rightarrow> string \<Rightarrow> collected \<Rightarrow>
     ('x, collected option) act" where
  "walk 0 T r maxTotal dir base acc = ret None"
| "walk (Suc depth) T r maxTotal dir base acc =
     andThen (tr_listDirectory T r dir) (\<lambda>es.
     walk_entries (walk depth T r maxTotal) T r maxTotal dir base es acc)"

definition em_dash :: string where "em_dash = [CHR 0xE2, CHR 0x80, CHR 0x94]"

definition not_directory :: "string \<Rightarrow> compute_error" where
  "not_directory root = OtherError (''artifact_path_not_directory: '' @ root @
     '' is a file '' @ em_dash @ '' pass its parent directory as path and its filename as entryPath'')"

definition execPublishArtifact ::
    "nat \<Rightarrow> 'x deps \<Rightarrow> 'x transfer_backend \<Rightarrow> string \<Rightarrow> string option \<Rightarrow> int option \<Rightarrow>
     ('x service, collected option) act" where
  "execPublishArtifact depth D T v entry maxBytes =
     given_path v (\<lambda>root.
       let entryPath = (case entry of None \<Rightarrow> ''index.html'' | Some e \<Rightarrow> e);
           maxTotal = min (case maxBytes of None \<Rightarrow> MAX_ARTIFACT_BYTES | Some n \<Rightarrow> n) MAX_ARTIFACT_BYTES
       in if ''..'' \<in> set (js_split CHR ''/'' entryPath) then raise (OtherError ''compute_invalid_path'')
          else andThen (ensureRuntime D) (\<lambda>runtime.
               andThen (ext (tr_inspectPath T runtime root)) (\<lambda>info.
               if info = Some FileT then raise (not_directory root)
               else andThen (ext (walk depth T runtime maxTotal root [] ([], 0))) (\<lambda>found. case found of
                      None \<Rightarrow> ret None
                    | Some acc \<Rightarrow>
                        if entryPath \<notin> pf_relativePath ` set (fst acc)
                        then raise (OtherError ''artifact_entry_missing'')
                        else andThen (after_transfer D) (\<lambda>_. ret (Some acc))))))"

section \<open>The walk collects the tree in order\<close>

text \<open>A tree of files; the mime type is the provider's.\<close>

datatype file_tree = FileNode string "string option" | DirNode "(string \<times> file_tree) list" | LinkNode | OtherNode

fun entry_of :: "string \<times> file_tree \<Rightarrow> dir_entry" where
  "entry_of (n, FileNode b m) = \<lparr>de_name = n, de_type = PathT FileT\<rparr>"
| "entry_of (n, DirNode cs) = \<lparr>de_name = n, de_type = PathT DirectoryT\<rparr>"
| "entry_of (n, LinkNode) = \<lparr>de_name = n, de_type = PathT SymlinkT\<rparr>"
| "entry_of (n, OtherNode) = \<lparr>de_name = n, de_type = OtherT\<rparr>"

text \<open>The provider serves the tree at a path, by the contract of \<open>src/compute/backend.ts\<close>; \<open>oversize\<close> is its
  error \<open>compute_file_too_large\<close>.\<close>

fun serves :: "compute_error \<Rightarrow> 'x transfer_backend \<Rightarrow> backend_reference \<Rightarrow> 'x \<Rightarrow> string \<Rightarrow> file_tree \<Rightarrow> bool" where
  "serves oversize T r x path (FileNode b m) \<longleftrightarrow>
     (\<forall>limit. tr_readFile T r path limit x = (x, if int (length b) \<le> limit then Inr (b, m) else Inl oversize))"
| "serves oversize T r x path (DirNode cs) \<longleftrightarrow>
     tr_listDirectory T r path x = (x, Inr (map entry_of cs)) \<and>
     (\<forall>c \<in> set cs. fst c \<noteq> ''.'' \<longrightarrow> fst c \<noteq> ''..'' \<longrightarrow> serves oversize T r x (child_abs path (fst c)) (snd c))"
| "serves oversize T r x path LinkNode \<longleftrightarrow> True"
| "serves oversize T r x path OtherNode \<longleftrightarrow> True"

text \<open>The regular files of the tree, in the order of the listings.\<close>

fun files_below :: "string \<Rightarrow> string \<times> file_tree \<Rightarrow> (string \<times> string \<times> string option) list" where
  "files_below base (n, FileNode b m) =
     (if n = ''.'' \<or> n = ''..'' then [] else [(child_rel base n, b, m)])"
| "files_below base (n, DirNode cs) =
     (if n = ''.'' \<or> n = ''..'' then [] else concat (map (files_below (child_rel base n)) cs))"
| "files_below base (n, LinkNode) = []"
| "files_below base (n, OtherNode) = []"

text \<open>Taking them one after the other, within the limits.\<close>

fun take_files :: "compute_error \<Rightarrow> int \<Rightarrow> (string \<times> string \<times> string option) list \<Rightarrow> collected \<Rightarrow> compute_error + collected" where
  "take_files oversize maxTotal [] acc = Inr acc"
| "take_files oversize maxTotal ((rel, b, m) # fs) acc =
     (if length (fst acc) \<ge> MAX_ARTIFACT_FILES then Inl too_many_files
      else if maxTotal \<le> snd acc then Inl artifact_too_large
      else if snd acc + int (length b) > maxTotal then Inl oversize
      else take_files oversize maxTotal fs
             (fst acc @ [\<lparr>pf_relativePath = rel, pf_bytes = b, pf_mimeType = published_mime rel m\<rparr>],
              snd acc + int (length b)))"

fun tree_depth :: "file_tree \<Rightarrow> nat" where
  "tree_depth (DirNode cs) = Suc (Max (insert 0 (tree_depth ` snd ` set cs)))"
| "tree_depth _ = 0"

lemma take_files_append: "take_files oversize n (fs @ gs) acc =
    (case take_files oversize n fs acc of Inl e \<Rightarrow> Inl e | Inr acc' \<Rightarrow> take_files oversize n gs acc')"
  by (induction fs arbitrary: acc) auto

lemma walk_collects:
  assumes "serves oversize T r x dir (DirNode cs)" and "tree_depth (DirNode cs) \<le> depth"
  shows "walk depth T r n dir base acc x =
    (x, map_sum (\<lambda>e. e) Some (take_files oversize n (concat (map (files_below base) cs)) acc))"
  using assms
proof (induction depth arbitrary: dir base cs acc)
  case (Suc depth)
  have each: "walk_entries (walk depth T r n) T r n dir base (map entry_of ds) acc x =
      (x, map_sum (\<lambda>e. e) Some (take_files oversize n (concat (map (files_below base) ds)) acc))"
    if "set ds \<subseteq> set cs" for ds acc
    using that
  proof (induction ds arbitrary: acc)
    case (Cons d ds)
    obtain name t where d: "d = (name, t)" by fastforce
    have rest: "walk_entries (walk depth T r n) T r n dir base (map entry_of ds) acc' x =
        (x, map_sum (\<lambda>e. e) Some (take_files oversize n (concat (map (files_below base) ds)) acc'))" for acc'
      using Cons by simp
    have d_in: "(name, t) \<in> set cs" using Cons.prems d by simp
    show ?case
    proof (cases "name = ''.'' \<or> name = ''..''")
      case True
      then have "de_name (entry_of d) = name" "files_below base d = []" by (cases t; auto simp: d)+
      with True rest show ?thesis by auto
    next
      case False
      then have t: "serves oversize T r x (child_abs dir name) t" using Suc.prems(1) d_in by force
      show ?thesis
      proof (cases t)
        case (FileNode b m)
        then show ?thesis using False t rest
          by (simp add: d collect_file_def andThen_def raise_def ret_def algebra_simps)
      next
        case (DirNode es)
        have "tree_depth t \<le> Max (insert 0 (tree_depth ` snd ` set cs))"
          using d_in by (intro Max_ge) (auto intro!: image_eqI [of _ tree_depth t] image_eqI [of _ snd "(name, t)"])
        then have "tree_depth (DirNode es) \<le> depth" using Suc.prems(2) unfolding DirNode tree_depth.simps(1) by linarith
        with DirNode t have "walk depth T r n (child_abs dir name) (child_rel base name) acc x =
            (x, map_sum (\<lambda>e. e) Some (take_files oversize n (concat (map (files_below (child_rel base name)) es)) acc))" for acc
          using Suc.IH by blast
        then show ?thesis using False DirNode rest
          by (simp add: d andThen_def take_files_append split: sum.split)
      qed (use rest d in simp_all)
    qed
  qed (simp add: ret_def)
  from Suc.prems(1) each [of cs acc] show ?case by (simp add: andThen_def)
qed simp

section \<open>What a publication holds\<close>

definition published :: "string \<times> string \<times> string option \<Rightarrow> published_file" where
  "published f = (case f of (rel, b, m) \<Rightarrow>
     \<lparr>pf_relativePath = rel, pf_bytes = b, pf_mimeType = published_mime rel m\<rparr>)"

definition total_bytes :: "(string \<times> string \<times> string option) list \<Rightarrow> int" where
  "total_bytes fs = sum_list (map (\<lambda>(rel, b, m). int (length b)) fs)"

text \<open>At most 100 files; each is begun with room left and ends within the limit.\<close>

definition fits :: "int \<Rightarrow> (string \<times> string \<times> string option) list \<Rightarrow> bool" where
  "fits n fs \<longleftrightarrow> length fs \<le> MAX_ARTIFACT_FILES \<and>
     (\<forall>k < length fs. total_bytes (take k fs) < n \<and> total_bytes (take (Suc k) fs) \<le> n)"

lemma total_bytes_simps [simp]: "total_bytes [] = 0"
  "total_bytes ((rel, b, m) # fs) = int (length b) + total_bytes fs" "total_bytes (f # fs) = int (length (fst (snd f))) + total_bytes fs"
  by (auto simp: total_bytes_def split: prod.split)

lemma all_less_Cons: "(\<forall>k < length (f # fs). P k) \<longleftrightarrow> P 0 \<and> (\<forall>k < length fs. P (Suc k))"
  by (auto simp: less_Suc_eq_0_disj)

definition fits_from :: "nat \<Rightarrow> int \<Rightarrow> int \<Rightarrow> (string \<times> string \<times> string option) list \<Rightarrow> bool" where
  "fits_from c t n fs \<longleftrightarrow> c + length fs \<le> MAX_ARTIFACT_FILES \<and>
     (\<forall>k < length fs. t + total_bytes (take k fs) < n \<and> t + total_bytes (take (Suc k) fs) \<le> n)"

lemma fits_from_Cons: "fits_from c t n ((rel, b, m) # fs) \<longleftrightarrow>
    c < MAX_ARTIFACT_FILES \<and> t < n \<and> t + int (length b) \<le> n \<and> fits_from (Suc c) (t + int (length b)) n fs"
  unfolding fits_from_def all_less_Cons by (auto simp: add.assoc)

lemma take_files_from:
  assumes "length (fst acc) \<le> MAX_ARTIFACT_FILES"
  shows "if fits_from (length (fst acc)) (snd acc) n fs
    then take_files oversize n fs acc = Inr (fst acc @ map published fs, snd acc + total_bytes fs)
    else take_files oversize n fs acc \<in> Inl ` {too_many_files, artifact_too_large, oversize}"
  using assms
proof (induction fs arbitrary: acc)
  case (Cons f fs)
  obtain rel b m where f: "f = (rel, b, m)" using prod_cases3 by blast
  define acc' where "acc' = (fst acc @ [published f], snd acc + int (length b))"
  show ?case
  proof (cases "length (fst acc) < MAX_ARTIFACT_FILES \<and> snd acc < n \<and> snd acc + int (length b) \<le> n")
    case True
    then have step: "take_files oversize n ((rel, b, m) # fs) acc = take_files oversize n fs acc'"
      by (simp add: f acc'_def published_def)
    have sizes: "length (fst acc') = Suc (length (fst acc))" "snd acc' = snd acc + int (length b)"
      "fst acc' = fst acc @ [published f]" by (simp_all add: acc'_def)
    have "length (fst acc') \<le> MAX_ARTIFACT_FILES" using True sizes by simp
    from Cons.IH [OF this] True show ?thesis
      unfolding f fits_from_Cons step sizes by (auto simp: add.assoc f split: if_splits)
  next
    case False
    then have "take_files oversize n (f # fs) acc \<in> Inl ` {too_many_files, artifact_too_large, oversize}"
      by (auto simp: f)
    with False show ?thesis by (auto simp: f fits_from_Cons)
  qed
qed (cases acc; simp add: fits_from_def)

lemma take_files_fits:
  "if fits n fs then take_files oversize n fs ([], 0) = Inr (map published fs, total_bytes fs)
   else take_files oversize n fs ([], 0) \<in> Inl ` {too_many_files, artifact_too_large, oversize}"
  using take_files_from [of "([], 0)" n fs oversize] by (auto simp: fits_def fits_from_def split: if_splits)

lemma reads_outside: "m (sv_ext s) = (sv_ext s, r) \<Longrightarrow>
    andThen (ext m) f s = (case r of Inl e \<Rightarrow> (s, Inl e) | Inr a \<Rightarrow> f a s)"
  by (simp add: andThen_def ext_def on_part_def split: sum.split)


section \<open>A page with a style sheet\<close>

definition demo_site :: "(string \<times> file_tree) list" where
  "demo_site = [(''index.html'', FileNode ''<p>'' None), (''css'', DirNode [(''a.css'', FileNode ''p{}'' (Some ''text/plain''))]),
     (''link'', LinkNode)]"

definition demo_transfer :: "outside transfer_backend" where
  "demo_transfer = \<lparr>tr_inspectPath = (\<lambda>_ _ x. (x, Inr (Some DirectoryT))),
     tr_listDirectory = (\<lambda>_ p x. (x, Inr (map entry_of
       (if p = ''/workspace/site'' then demo_site else [(''a.css'', FileNode ''p{}'' (Some ''text/plain''))])))),
     tr_readFile = (\<lambda>_ p limit x. (x,
       let f = (if p = ''/workspace/site/index.html'' then (''<p>'', None) else (''p{}'', Some ''text/plain''))
       in if int (length (fst f)) \<le> limit then Inr f else Inl (compute_error CeFileTooLarge)))\<rparr>"


end
