(* ===== verification/Artifact_Serving.thy ===== *)
theory Artifact_Serving
  imports Artifact_Publishing Signed_Tokens "HOL-Library.List_Lexorder" "HOL-Library.Char_ord"
begin

text \<open>
  Published artifacts from the tool to the browser: the tool \<open>exec_publish_artifact\<close>
  (\<open>src/agent/compute-tools.ts\<close>), the table (\<open>src/db/artifact-repository.ts\<close>), the routes of a signed-in
  user (\<open>src/http/artifact-routes.ts\<close>) and the isolated host that serves the files
  (\<open>src/artifacts/serve.ts\<close>, \<open>src/artifacts/paths.ts\<close>).

  D1 and R2 are one state; \<open>aw_fails\<close> says of its \<open>n\<close>th call whether it fails, before or after its
  effect. The session of a request, the clock and the random id are arguments.
\<close>

section \<open>Tables and objects\<close>

datatype artifact_status = ArtifactActive | ArtifactExpired

record artifact_row =
  ar_id :: string
  ar_workspaceId :: string
  ar_threadId :: string
  ar_title :: string
  ar_entryPath :: string
  ar_fileCount :: nat
  ar_byteSize :: int
  ar_r2Prefix :: string
  ar_status :: artifact_status
  ar_expiresAt :: int
  ar_createdAt :: int

record thread_entry =
  te_id :: string
  te_workspaceId :: string
  te_feedback :: bool

record stored_object =
  so_key :: string
  so_bytes :: string
  so_contentType :: "string option"

record artifact_world =
  aw_artifacts :: "artifact_row list"
  aw_threads :: "thread_entry list"
  aw_members :: "(string \<times> string) list"
  aw_feedbackThreads :: "(string \<times> string) list"
  aw_objects :: "stored_object list"
  aw_calls :: nat
  aw_fails :: "nat \<Rightarrow> call_fault option"

text \<open>A call of D1 or R2.\<close>

definition calling :: "(artifact_world \<Rightarrow> artifact_world \<times> 'a) \<Rightarrow> (artifact_world, 'a) act" where
  "calling f w =
     (let w1 = w\<lparr>aw_calls := Suc (aw_calls w)\<rparr>
      in case aw_fails w (aw_calls w) of
           Some FailsBefore \<Rightarrow> (w1, Inl (OtherError ''call failed''))
         | Some FailsAfter \<Rightarrow> (fst (f w1), Inl (OtherError ''call failed''))
         | None \<Rightarrow> (fst (f w1), Inr (snd (f w1))))"

definition asking :: "(artifact_world \<Rightarrow> 'a) \<Rightarrow> (artifact_world, 'a) act" where
  "asking g = calling (\<lambda>w. (w, g w))"

definition updating :: "(artifact_world \<Rightarrow> artifact_world) \<Rightarrow> (artifact_world, unit) act" where
  "updating g = calling (\<lambda>w. (g w, ()))"

section \<open>The repository and the bucket\<close>

definition artifact_of :: "string \<Rightarrow> artifact_world \<Rightarrow> artifact_row option" where
  "artifact_of i w = sql_row ar_id i (aw_artifacts w)"

definition artifact_getById :: "string \<Rightarrow> (artifact_world, artifact_row option) act" where
  "artifact_getById i = asking (artifact_of i)"

text \<open>A primary key already taken is refused.\<close>

definition artifact_insert :: "artifact_row \<Rightarrow> (artifact_world, unit) act" where
  "artifact_insert r = andThen (calling (\<lambda>w.
       if artifact_of (ar_id r) w \<noteq> None then (w, False)
       else (w\<lparr>aw_artifacts := aw_artifacts w @ [r]\<rparr>, True)))
     (\<lambda>inserted. if inserted then ret () else raise (OtherError ''UNIQUE constraint failed: artifacts.id''))"

definition set_artifact :: "string \<Rightarrow> (artifact_row \<Rightarrow> artifact_row) \<Rightarrow> artifact_world \<Rightarrow> artifact_world" where
  "set_artifact i f w = w\<lparr>aw_artifacts := sql_update (\<lambda>r. ar_id r = i) f (aw_artifacts w)\<rparr>"

definition markExpired :: "string \<Rightarrow> (artifact_world, unit) act" where
  "markExpired i = updating (set_artifact i (\<lambda>r. r\<lparr>ar_status := ArtifactExpired\<rparr>))"

definition reactivate :: "string \<Rightarrow> int \<Rightarrow> (artifact_world, unit) act" where
  "reactivate i expiresAt =
     updating (set_artifact i (\<lambda>r. r\<lparr>ar_status := ArtifactActive, ar_expiresAt := expiresAt\<rparr>))"

definition artifact_listByThread :: "string \<Rightarrow> (artifact_world, artifact_row list) act" where
  "artifact_listByThread t = asking (\<lambda>w.
     sort_key (\<lambda>r. - ar_createdAt r) (filter (\<lambda>r. ar_threadId r = t) (aw_artifacts w)))"

definition object_of :: "string \<Rightarrow> artifact_world \<Rightarrow> stored_object option" where
  "object_of k w = sql_row so_key k (aw_objects w)"

definition bucket_get :: "string \<Rightarrow> (artifact_world, stored_object option) act" where
  "bucket_get k = asking (object_of k)"

definition bucket_put :: "stored_object \<Rightarrow> (artifact_world, unit) act" where
  "bucket_put x = updating (\<lambda>w. w\<lparr>aw_objects := sql_upsert so_key x (\<lambda>_. x) (aw_objects w)\<rparr>)"

definition bucket_delete :: "string \<Rightarrow> (artifact_world, unit) act" where
  "bucket_delete k = updating (\<lambda>w. w\<lparr>aw_objects := sql_delete (\<lambda>x. so_key x = k) (aw_objects w)\<rparr>)"

definition starts_with :: "string \<Rightarrow> string \<Rightarrow> bool" where
  "starts_with p s \<longleftrightarrow> take (length p) s = p"

text \<open>A page of at most 1000 keys in order, after the cursor, and the next cursor.\<close>

definition bucket_list :: "string \<Rightarrow> string option \<Rightarrow> nat \<Rightarrow> (artifact_world, string list \<times> string option) act" where
  "bucket_list p cursor limit = asking (\<lambda>w.
     let ks = sort (filter (\<lambda>k. starts_with p k \<and> (case cursor of None \<Rightarrow> True | Some c \<Rightarrow> c < k))
                (map so_key (aw_objects w)))
     in (take limit ks, if length ks > limit then Some (last (take limit ks)) else None))"

section \<open>Publishing\<close>

text \<open>
  \<open>deleteR2PrefixBestEffort\<close>: page after page, each key's own failure swallowed. \<open>pages\<close> bounds the
  number of pages.
\<close>

fun delete_pages :: "nat \<Rightarrow> string \<Rightarrow> string option \<Rightarrow> (artifact_world, unit) act" where
  "delete_pages 0 p cursor = ret ()"
| "delete_pages (Suc pages) p cursor =
     andThen (bucket_list p cursor 1000) (\<lambda>(ks, next).
     andThen (forEach (\<lambda>k. bestEffort (bucket_delete k)) ks) (\<lambda>_.
     case next of None \<Rightarrow> ret () | Some c \<Rightarrow> delete_pages pages p (Some c)))"

definition deleteR2PrefixBestEffort :: "nat \<Rightarrow> string \<Rightarrow> (artifact_world, unit) act" where
  "deleteR2PrefixBestEffort pages p = bestEffort (delete_pages pages p None)"

definition ARTIFACT_TTL_MS :: int where "ARTIFACT_TTL_MS = 24 * 60 * 60 * 1000"

definition artifact_prefix :: "string \<Rightarrow> string" where
  "artifact_prefix artifactId = ''artifacts/'' @ artifactId @ ''/''"

record publication =
  pb_workspaceId :: string
  pb_threadId :: string
  pb_title :: string
  pb_entryPath :: string
  pb_files :: "published_file list"
  pb_totalBytes :: int

definition object_for :: "string \<Rightarrow> published_file \<Rightarrow> stored_object" where
  "object_for p f = \<lparr>so_key = p @ pf_relativePath f, so_bytes = pf_bytes f, so_contentType = Some (pf_mimeType f)\<rparr>"

definition new_artifact :: "string \<Rightarrow> int \<Rightarrow> publication \<Rightarrow> artifact_row" where
  "new_artifact artifactId createdAt x = \<lparr>ar_id = artifactId, ar_workspaceId = pb_workspaceId x,
     ar_threadId = pb_threadId x, ar_title = pb_title x, ar_entryPath = pb_entryPath x,
     ar_fileCount = length (pb_files x), ar_byteSize = pb_totalBytes x, ar_r2Prefix = artifact_prefix artifactId,
     ar_status = ArtifactActive, ar_expiresAt = createdAt + ARTIFACT_TTL_MS, ar_createdAt = createdAt\<rparr>"

text \<open>What the tool does with what \<open>execPublishArtifact\<close> returned; \<open>uuid\<close> is the random id.\<close>

definition store_artifact :: "nat \<Rightarrow> string \<Rightarrow> int \<Rightarrow> publication \<Rightarrow> (artifact_world, artifact_row) act" where
  "store_artifact pages uuid createdAt x =
     (let artifactId = ''art_'' @ uuid; p = artifact_prefix artifactId
      in catching
           (andThen (forEach (\<lambda>f. bucket_put (object_for p f)) (pb_files x)) (\<lambda>_.
            andThen (artifact_insert (new_artifact artifactId createdAt x)) (\<lambda>_.
            ret (new_artifact artifactId createdAt x))))
           (\<lambda>e. andThen (deleteR2PrefixBestEffort pages p) (\<lambda>_. raise e)))"

section \<open>Paths below the prefix\<close>

text \<open>\<open>posix.normalize\<close> of a path that is not absolute: the segments kept so far, innermost first.\<close>

fun normalize_segments :: "string list \<Rightarrow> string list \<Rightarrow> string list" where
  "normalize_segments kept [] = rev kept"
| "normalize_segments kept (x # xs) =
     (if x = [] \<or> x = ''.'' then normalize_segments kept xs
      else if x = ''..'' \<and> kept \<noteq> [] \<and> hd kept \<noteq> ''..'' then normalize_segments (tl kept) xs
      else normalize_segments (x # kept) xs)"

definition posix_normalize :: "string \<Rightarrow> string" where
  "posix_normalize s =
     (let t = js_join ''/'' (normalize_segments [] (js_split CHR ''/'' s));
          u = (if t = [] then ''.'' else t)
      in if s \<noteq> [] \<and> last s = CHR ''/'' then u @ ''/'' else u)"

definition normalizeArtifactRelPath :: "string \<Rightarrow> string option" where
  "normalizeArtifactRelPath raw =
     (if raw = [] \<or> CHR 0x5C \<in> set raw \<or> hd raw = CHR ''/'' then None
      else let n = posix_normalize raw
        in if n = ''.'' \<or> n = ''..'' then None
           else if starts_with ''../'' n \<or> (\<exists>a b. n = a @ ''/../'' @ b) then None
           else if hd n = CHR ''/'' then None
           else let t = (if length n > 1 then rev (dropWhile (\<lambda>c. c = CHR ''/'') (rev n)) else n)
             in if t = [] \<or> t = ''.'' then None else Some t)"

section \<open>The host of the artifacts\<close>

definition artifactExpired :: "artifact_row \<Rightarrow> int \<Rightarrow> bool" where
  "artifactExpired r now \<longleftrightarrow> ar_status r = ArtifactExpired \<or> ar_expiresAt r < now"

datatype host_response =
    HostText nat string
  | HostObject string "string option" string

definition respondExpired :: "string \<Rightarrow> (artifact_world, host_response) act" where
  "respondExpired i = andThen (bestEffort (markExpired i)) (\<lambda>_. ret (HostText 410 ''Artifact expired''))"

text \<open>
  \<open>/^\/v\/([^/]+)\/(art_[^/]+)(?:\/(.*))?$/\<close> on the pathname of a URL, which has no line breaks: the
  token, the id and the rest.
\<close>

definition artifact_path :: "string \<Rightarrow> (string \<times> string \<times> string option) option" where
  "artifact_path pathname =
     (case js_split CHR ''/'' pathname of
        a # b # token # i # rest \<Rightarrow>
          if a = [] \<and> b = ''v'' \<and> token \<noteq> [] \<and> starts_with ''art_'' i \<and> length i > 4
          then Some (token, i, if rest = [] then None else Some (js_join ''/'' rest)) else None
      | _ \<Rightarrow> None)"

text \<open>\<open>contentType?.split(";")[0]?.trim() ?? mimeFromFilename(rel)\<close>.\<close>

definition served_mime :: "string \<Rightarrow> stored_object \<Rightarrow> string" where
  "served_mime rel x = (case so_contentType x of
       None \<Rightarrow> mimeFromFilename rel | Some t \<Rightarrow> trim (hd (js_split CHR '';'' t)))"

definition serve_object :: "artifact_row \<Rightarrow> string \<Rightarrow> (artifact_world, host_response) act" where
  "serve_object r rel = andThen (bucket_get (ar_r2Prefix r @ rel)) (\<lambda>found. case found of
       None \<Rightarrow> ret (HostText 404 ''Not found'')
     | Some x \<Rightarrow>
         let mime = served_mime rel x
         in ret (HostObject mime (if mime = OCTET_STREAM then Some (last (js_split CHR ''/'' rel)) else None)
              (so_bytes x)))"

definition handleArtifactHostRequest ::
    "'k crypto \<Rightarrow> string \<Rightarrow> int \<Rightarrow> string \<Rightarrow> string \<Rightarrow> (artifact_world, host_response) act" where
  "handleArtifactHostRequest C betterAuthSecret now method pathname =
     (if method \<noteq> ''GET'' then ret (HostText 405 ''Method not allowed'')
      else case artifact_path pathname of
        None \<Rightarrow> ret (HostText 404 ''Not found'')
      | Some (token, i, rest) \<Rightarrow>
          (case verifyArtifactViewToken C (deriveArtifactViewSecret C betterAuthSecret) token now of
             Threw \<Rightarrow> raise (OtherError ''TypeError'')
           | Rejected \<Rightarrow> ret (HostText 401 ''Unauthorized'')
           | Verified claims \<Rightarrow>
               if at_artifactId claims \<noteq> i then ret (HostText 401 ''Unauthorized'')
               else andThen (artifact_getById i) (\<lambda>found. case found of
                   None \<Rightarrow> respondExpired i
                 | Some r \<Rightarrow>
                     if artifactExpired r now then respondExpired i
                     else if rest = None \<or> rest = Some [] then serve_object r (ar_entryPath r)
                     else (case normalizeArtifactRelPath (the rest) of
                             None \<Rightarrow> ret (HostText 404 ''Not found'')
                           | Some rel \<Rightarrow> serve_object r rel))))"

section \<open>The routes of a signed-in user\<close>

definition VIEW_TTL_MS :: int where "VIEW_TTL_MS = 15 * 60 * 1000"

record route_request =
  rr_session :: "string option"
  rr_hostname :: string
  rr_port :: string

datatype route_response =
    RouteText nat string
  | RouteMetadata artifact_row
  | RouteView string int
  | RouteList "artifact_row list"

definition is_local_host :: "string \<Rightarrow> bool" where
  "is_local_host host \<longleftrightarrow> host \<in> {''localhost'', ''127.0.0.1'', ''[::1]''} \<or> suffix ''.localhost'' host"

definition resolveArtifactOrigin :: "route_request \<Rightarrow> string \<Rightarrow> string" where
  "resolveArtifactOrigin req artifactsHost =
     (if is_local_host (map lower_char (rr_hostname req))
      then ''http://'' @ artifactsHost @ (if rr_port req = [] then [] else '':'' @ rr_port req)
      else ''https://'' @ artifactsHost)"

definition thread_of :: "string \<Rightarrow> artifact_world \<Rightarrow> thread_entry option" where
  "thread_of t w = sql_row te_id t (aw_threads w)"

definition memberWorkspaceForThread :: "string \<Rightarrow> string \<Rightarrow> (artifact_world, string option) act" where
  "memberWorkspaceForThread t user = asking (\<lambda>w. Option.bind (thread_of t w) (\<lambda>th.
     if (te_workspaceId th, user) \<in> set (aw_members w) then Some (te_workspaceId th) else None))"

definition assertFeedbackReporter :: "string \<Rightarrow> string \<Rightarrow> (artifact_world, bool) act" where
  "assertFeedbackReporter t user =
     andThen (asking (\<lambda>w. map_of (aw_feedbackThreads w) user)) (\<lambda>mapping. ret (mapping = Some t))"

definition authorizeArtifactAccess :: "string \<Rightarrow> string \<Rightarrow> (artifact_world, bool) act" where
  "authorizeArtifactAccess t user = andThen (asking (thread_of t)) (\<lambda>found. case found of
       None \<Rightarrow> ret False
     | Some th \<Rightarrow> if te_feedback th then assertFeedbackReporter t user
         else andThen (memberWorkspaceForThread t user) (\<lambda>ws. ret (ws \<noteq> None)))"

definition unauthorized :: route_response where "unauthorized = RouteText 401 ''Unauthorized''"
definition not_found :: route_response where "not_found = RouteText 404 ''Not found''"

definition signed_in :: "route_request \<Rightarrow> (string \<Rightarrow> (artifact_world, route_response) act) \<Rightarrow> (artifact_world, route_response) act" where
  "signed_in req f = (case rr_session req of None \<Rightarrow> ret unauthorized | Some user \<Rightarrow> f user)"

text \<open>The row, for a user with access to its thread.\<close>

definition loadAuthorizedArtifact ::
    "string \<Rightarrow> string \<Rightarrow> (artifact_row \<Rightarrow> (artifact_world, route_response) act) \<Rightarrow> (artifact_world, route_response) act" where
  "loadAuthorizedArtifact i user f =
     andThen (artifact_getById i) (\<lambda>found. case found of
       None \<Rightarrow> ret not_found
     | Some r \<Rightarrow> andThen (authorizeArtifactAccess (ar_threadId r) user) (\<lambda>allowed.
         if allowed then f r else ret not_found))"

definition unless_expired ::
    "int \<Rightarrow> string \<Rightarrow> (artifact_row \<Rightarrow> (artifact_world, route_response) act) \<Rightarrow> artifact_row \<Rightarrow> (artifact_world, route_response) act" where
  "unless_expired now i f r =
     (if artifactExpired r now then andThen (respondExpired i) (\<lambda>_. ret (RouteText 410 ''Artifact expired''))
      else f r)"

definition handleMetadata :: "route_request \<Rightarrow> int \<Rightarrow> string \<Rightarrow> (artifact_world, route_response) act" where
  "handleMetadata req now i = signed_in req (\<lambda>user.
     loadAuthorizedArtifact i user (unless_expired now i (\<lambda>r. ret (RouteMetadata r))))"

definition mint_view :: "'k crypto \<Rightarrow> string \<Rightarrow> route_request \<Rightarrow> string \<Rightarrow> int \<Rightarrow> string \<Rightarrow> (artifact_world, route_response) act" where
  "mint_view C betterAuthSecret req host now i =
     (case signArtifactViewToken C (deriveArtifactViewSecret C betterAuthSecret)
             \<lparr>at_artifactId = i, at_exp = Whole (now + VIEW_TTL_MS)\<rparr> of
        None \<Rightarrow> raise (OtherError ''DataError'')
      | Some token \<Rightarrow> ret (RouteView
          (resolveArtifactOrigin req host @ ''/v/'' @ token @ ''/'' @ i @ ''/'') (now + VIEW_TTL_MS)))"

text \<open>\<open>later\<close> is the clock when the token is made, after the reads.\<close>

definition handleViewMint ::
    "'k crypto \<Rightarrow> string \<Rightarrow> string \<Rightarrow> route_request \<Rightarrow> int \<Rightarrow> int \<Rightarrow> string \<Rightarrow> (artifact_world, route_response) act" where
  "handleViewMint C betterAuthSecret artifactsHost req now later i = signed_in req (\<lambda>user.
     if trim artifactsHost = [] then ret (RouteText 503 ''Artifact preview host is not configured'')
     else loadAuthorizedArtifact i user
       (unless_expired now i (\<lambda>_. mint_view C betterAuthSecret req (trim artifactsHost) later i)))"

definition ARTIFACT_FILES_GONE :: string where
  "ARTIFACT_FILES_GONE = ''This artifact's files are gone. Ask the assistant to publish it again.''"

definition r2PrefixHasObjects :: "string \<Rightarrow> (artifact_world, bool) act" where
  "r2PrefixHasObjects p = andThen (bucket_list p None 1) (\<lambda>(ks, _). ret (ks \<noteq> []))"

definition handleRepublish :: "route_request \<Rightarrow> int \<Rightarrow> string \<Rightarrow> (artifact_world, route_response) act" where
  "handleRepublish req now i = signed_in req (\<lambda>user. loadAuthorizedArtifact i user (\<lambda>r.
     andThen (r2PrefixHasObjects (ar_r2Prefix r)) (\<lambda>present.
     if \<not> present then ret (RouteText 410 ARTIFACT_FILES_GONE)
     else andThen (reactivate i (now + ARTIFACT_TTL_MS)) (\<lambda>_.
          ret (RouteMetadata (r\<lparr>ar_status := ArtifactActive, ar_expiresAt := now + ARTIFACT_TTL_MS\<rparr>))))))"

definition handleThreadList :: "route_request \<Rightarrow> string \<Rightarrow> (artifact_world, route_response) act" where
  "handleThreadList req t = signed_in req (\<lambda>user.
     andThen (authorizeArtifactAccess t user) (\<lambda>allowed.
     if \<not> allowed then ret not_found
     else andThen (artifact_listByThread t) (\<lambda>rs. ret (RouteList rs))))"

text \<open>The paths of the routes; \<open>decode\<close> is \<open>decodeURIComponent\<close>, which may throw.\<close>

definition routeArtifacts ::
    "'k crypto \<Rightarrow> string \<Rightarrow> string \<Rightarrow> (string \<Rightarrow> string option) \<Rightarrow> int \<Rightarrow> int \<Rightarrow> string \<Rightarrow> string \<Rightarrow> route_request \<Rightarrow>
     (artifact_world, route_response option) act" where
  "routeArtifacts C betterAuthSecret artifactsHost decode now later method pathname req =
     (let reply = (\<lambda>m. andThen m (\<lambda>x. ret (Some x)))
      in case js_split CHR ''/'' pathname of
           [a, b, c, i] \<Rightarrow>
             if a = [] \<and> b = ''api'' \<and> c = ''artifacts'' \<and> i \<noteq> [] \<and> method = ''GET''
             then reply (handleMetadata req now i) else ret None
         | [a, b, c, i, d] \<Rightarrow>
             if a = [] \<and> b = ''api'' \<and> c = ''threads'' \<and> i \<noteq> [] \<and> d = ''artifacts'' \<and> method = ''GET''
             then (case decode i of None \<Rightarrow> raise (OtherError ''URIError'')
                   | Some t \<Rightarrow> reply (handleThreadList req t))
             else if a = [] \<and> b = ''api'' \<and> c = ''artifacts'' \<and> i \<noteq> [] \<and> d = ''view'' \<and> method = ''POST''
             then reply (handleViewMint C betterAuthSecret artifactsHost req now later i)
             else if a = [] \<and> b = ''api'' \<and> c = ''artifacts'' \<and> i \<noteq> [] \<and> d = ''republish'' \<and> method = ''POST''
             then reply (handleRepublish req now i)
             else ret None
         | _ \<Rightarrow> ret None)"

section \<open>Calls\<close>

lemma reads_counted [simp]:
  "artifact_of i (w\<lparr>aw_calls := n\<rparr>) = artifact_of i w" "object_of k (w\<lparr>aw_calls := n\<rparr>) = object_of k w"
  "thread_of t (w\<lparr>aw_calls := n\<rparr>) = thread_of t w"
  by (simp_all add: artifact_of_def object_of_def thread_of_def)

lemma wp_asking:
  assumes "\<And>n. Q (g (w\<lparr>aw_calls := n\<rparr>)) (w\<lparr>aw_calls := n\<rparr>)" and "\<And>n. E (OtherError ''call failed'') (w\<lparr>aw_calls := n\<rparr>)"
  shows "wp (asking g) Q E w"
  using assms by (simp add: wp_def asking_def calling_def Let_def split: option.split call_fault.split)

lemma wp_updating:
  assumes "\<And>n. Q () (g (w\<lparr>aw_calls := n\<rparr>))" and "\<And>n. E (OtherError ''call failed'') (g (w\<lparr>aw_calls := n\<rparr>))"
    and "\<And>n. E (OtherError ''call failed'') (w\<lparr>aw_calls := n\<rparr>)"
  shows "wp (updating g) Q E w"
  using assms by (simp add: wp_def updating_def calling_def Let_def split: option.split call_fault.split)

section \<open>Paths stay below the prefix\<close>

definition confined :: "string \<Rightarrow> bool" where
  "confined rel \<longleftrightarrow> (\<forall>x \<in> set (js_split CHR ''/'' rel). x \<notin> {[], ''.'', ''..''})"

definition kept_ok :: "string list \<Rightarrow> bool" where
  "kept_ok kept \<longleftrightarrow> (\<exists>n ys. kept = ys @ replicate n ''..'' \<and>
     (\<forall>y \<in> set ys. y \<notin> {[], ''.'', ''..''}) \<and> (\<forall>y \<in> set kept. CHR ''/'' \<notin> set y))"

lemma kept_ok_push: "kept_ok kept \<Longrightarrow> x \<notin> {[], ''.''} \<Longrightarrow> CHR ''/'' \<notin> set x \<Longrightarrow>
    x = ''..'' \<longrightarrow> kept = [] \<or> hd kept = ''..'' \<Longrightarrow> kept_ok (x # kept)"
proof -
  assume kept: "kept_ok kept" and x: "x \<notin> {[], ''.''}" "CHR ''/'' \<notin> set x"
    and up: "x = ''..'' \<longrightarrow> kept = [] \<or> hd kept = ''..''"
  from kept obtain n ys where k: "kept = ys @ replicate n ''..''" "\<forall>y \<in> set ys. y \<notin> {[], ''.'', ''..''}"
    "\<forall>y \<in> set kept. CHR ''/'' \<notin> set y" by (auto simp: kept_ok_def)
  show ?thesis
  proof (cases "x = ''..''")
    case True
    with up k have "ys = []" by (cases ys) auto
    with True k x show ?thesis unfolding kept_ok_def by (intro exI [of _ "Suc n"] exI [of _ "[]"]) auto
  next
    case False
    with k x show ?thesis unfolding kept_ok_def by (intro exI [of _ n] exI [of _ "x # ys"]) auto
  qed
qed

lemma kept_ok_pop: "kept_ok kept \<Longrightarrow> kept \<noteq> [] \<Longrightarrow> hd kept \<noteq> ''..'' \<Longrightarrow> kept_ok (tl kept)"
proof -
  assume kept: "kept_ok kept" "kept \<noteq> []" "hd kept \<noteq> ''..''"
  from kept(1) obtain n ys where k: "kept = ys @ replicate n ''..''" "\<forall>y \<in> set ys. y \<notin> {[], ''.'', ''..''}"
    "\<forall>y \<in> set kept. CHR ''/'' \<notin> set y" unfolding kept_ok_def by blast
  with kept(2,3) obtain y ys' where "ys = y # ys'" by (cases ys; cases n) auto
  with k show ?thesis unfolding kept_ok_def by (intro exI [of _ n] exI [of _ ys']) auto
qed

lemma normalize_segments_ok:
  "kept_ok kept \<Longrightarrow> \<forall>x \<in> set xs. CHR ''/'' \<notin> set x \<Longrightarrow> kept_ok (rev (normalize_segments kept xs))"
proof (induction kept xs rule: normalize_segments.induct)
  case (2 kept x xs)
  then show ?case using kept_ok_push [of kept x] kept_ok_pop [of kept] by auto
qed simp

lemma strip_slash:
  assumes "s \<noteq> [] \<longrightarrow> last s \<noteq> CHR ''/''"
  shows "rev (dropWhile (\<lambda>c. c = CHR ''/'') (rev s)) = s" "rev (dropWhile (\<lambda>c. c = CHR ''/'') (rev (s @ ''/''))) = s"
  using assms by (cases s rule: rev_cases; simp)+

lemma normalize_confined:
  assumes "normalizeArtifactRelPath raw = Some t"
  shows "confined t"
proof -
  define segs where "segs = normalize_segments [] (js_split CHR ''/'' raw)"
  have "kept_ok (rev segs)"
    unfolding segs_def by (rule normalize_segments_ok) (auto simp: kept_ok_def dest: js_split_parts)
  then obtain n ys where "rev segs = ys @ replicate n ''..''" and ys: "\<forall>y \<in> set ys. y \<notin> {[], ''.'', ''..''}"
    and slash: "\<forall>y \<in> set segs. CHR ''/'' \<notin> set y" by (auto simp: kept_ok_def)
  then have segs: "segs = replicate n ''..'' @ rev ys" by (metis rev_append rev_replicate rev_rev_ident)
  define u where "u = js_join ''/'' segs"
  have up: "n = 0"
  proof (rule ccontr)
    assume "n \<noteq> 0"
    then obtain m where "segs = ''..'' # (replicate m ''..'' @ rev ys)" unfolding segs by (cases n) auto
    then have "u = ''..'' \<or> starts_with ''../'' u" by (cases "replicate m ''..'' @ rev ys") (auto simp: u_def starts_with_def js_join_Cons)
    then show False
      using assms by (auto simp: normalizeArtifactRelPath_def posix_normalize_def Let_def starts_with_def
          simp flip: segs_def u_def split: if_splits)
  qed
  show ?thesis
  proof (cases "ys = []")
    case True
    then have "u = []" by (simp add: u_def segs up)
    then show ?thesis
      using assms by (auto simp: normalizeArtifactRelPath_def posix_normalize_def Let_def
          simp flip: segs_def u_def split: if_splits)
  next
    case False
    then have "segs \<noteq> []" "last segs \<noteq> []" using ys segs up by (auto simp: last_rev hd_in_set)
    then have last: "u \<noteq> []" "last u = last (last segs)" using last_js_join [of segs "''/''"] by (auto simp: u_def)
    moreover have "CHR ''/'' \<notin> set (last segs)" using slash \<open>segs \<noteq> []\<close> by simp
    ultimately have "last u \<noteq> CHR ''/''" using \<open>last segs \<noteq> []\<close> by (metis last_in_set)
    with last have "t = u"
      using assms strip_slash [of u] by (auto simp: normalizeArtifactRelPath_def posix_normalize_def Let_def
          simp flip: segs_def u_def split: if_splits)
    moreover have "js_split CHR ''/'' u = segs"
      unfolding u_def using js_split_join [of segs "CHR ''/''"] \<open>segs \<noteq> []\<close> slash by simp
    ultimately show ?thesis using ys segs up by (auto simp: confined_def)
  qed
qed

section \<open>What the host gives away\<close>

text \<open>The tables and objects are those of \<open>w\<close>, but for the status of the artifact \<open>i\<close>.\<close>

definition only_expired :: "string \<Rightarrow> artifact_world \<Rightarrow> artifact_world \<Rightarrow> bool" where
  "only_expired i w w' \<longleftrightarrow> (\<exists>n. w' = w\<lparr>aw_calls := n\<rparr> \<or>
     w' = (set_artifact i (\<lambda>r. r\<lparr>ar_status := ArtifactExpired\<rparr>) w)\<lparr>aw_calls := n\<rparr>)"

lemma set_artifact_counted [simp]: "set_artifact i f (w\<lparr>aw_calls := n\<rparr>) = (set_artifact i f w)\<lparr>aw_calls := n\<rparr>"
  by (simp add: set_artifact_def)

lemma only_expired_refl: "only_expired i w (w\<lparr>aw_calls := n\<rparr>)"
  by (auto simp: only_expired_def)

lemma wp_respondExpired:
  "wp (respondExpired i) (\<lambda>a w'. a = HostText 410 ''Artifact expired'' \<and> only_expired i w w') (\<lambda>_ _. False) (w\<lparr>aw_calls := n\<rparr>)"
  unfolding respondExpired_def markExpired_def
  by (simp add: wp_simps, rule wp_updating) (auto simp: only_expired_def)

definition view_granted ::
    "'k crypto \<Rightarrow> string \<Rightarrow> int \<Rightarrow> string \<Rightarrow> string \<Rightarrow> bool" where
  "view_granted C betterAuthSecret now token i \<longleftrightarrow>
     (\<exists>claims key sig. let secret = deriveArtifactViewSecret C betterAuthSecret in
        verifyArtifactViewToken C secret token now = Verified claims \<and> at_artifactId claims = i \<and>
        \<not> number_le (at_exp claims) now \<and> cr_importKey C secret = Some key \<and>
        token = body_of token @ ''.'' @ sig \<and> base64UrlToBytes sig = Some (cr_hmac C key (body_of token)))"

lemma verified_granted:
  assumes "verifyArtifactViewToken C (deriveArtifactViewSecret C key) token now = Verified claims"
  shows "view_granted C key now token (at_artifactId claims)"
proof -
  from assms obtain v where v: "signed_json C (deriveArtifactViewSecret C key) token = Some v"
      "\<not> number_le (at_exp claims) now"
    by (auto simp: verifyArtifactViewToken_def split: option.splits json.splits if_splits)
  from signed_json_mac [OF v(1)] assms v(2) show ?thesis
    by (auto simp: view_granted_def Let_def)
qed

definition served_from :: "artifact_world \<Rightarrow> string \<Rightarrow> int \<Rightarrow> host_response \<Rightarrow> bool" where
  "served_from w i now response \<longleftrightarrow> (\<exists>r rel x. artifact_of i w = Some r \<and> \<not> artifactExpired r now \<and>
     (rel = ar_entryPath r \<or> confined rel) \<and> object_of (ar_r2Prefix r @ rel) w = Some x \<and>
     response = HostObject (served_mime rel x)
       (if served_mime rel x = OCTET_STREAM then Some (last (js_split CHR ''/'' rel)) else None) (so_bytes x))"

lemma wp_serve_object:
  assumes "artifact_of i w = Some r" "\<not> artifactExpired r now" "rel = ar_entryPath r \<or> confined rel"
  shows "wp (serve_object r rel) (\<lambda>a w'. only_expired i w w' \<and>
     (\<forall>m d b. a = HostObject m d b \<longrightarrow> served_from w i now a)) (\<lambda>_ w'. only_expired i w w') (w\<lparr>aw_calls := n\<rparr>)"
  unfolding serve_object_def bucket_get_def wp_andThen
  by (rule wp_asking)
     (use assms in \<open>auto simp: wp_simps only_expired_refl served_from_def Let_def split: option.split\<close>)

text \<open>C20: The artifact host gives nothing away without a ticket, and nothing but the artifact. A file is
  served only to a GET whose path carries an unexpired view token for exactly that artifact, MACed under
  the view secret; the artifact is registered, active and not past its expiry; and the object lies
  below the artifact's prefix, at its entry path or at a path without empty, dot or dot-dot
  segments, with exactly the stored bytes. Nothing is changed, except that the artifact may be
  marked expired.
\<close>

theorem artifact_host_guarded:
  assumes "handleArtifactHostRequest C key now method pathname w = (w', result)"
  shows "(case result of
       Inr (HostObject mime name bytes) \<Rightarrow> method = ''GET'' \<and>
         (\<exists>token i rest. artifact_path pathname = Some (token, i, rest) \<and> view_granted C key now token i \<and>
            served_from w i now (HostObject mime name bytes))
     | _ \<Rightarrow> True) \<and>
     (w' = w \<or> (\<exists>token i rest. artifact_path pathname = Some (token, i, rest) \<and>
        view_granted C key now token i \<and> only_expired i w w'))"
proof -
  let ?path = "\<lambda>i. \<exists>token rest. artifact_path pathname = Some (token, i, rest) \<and> view_granted C key now token i"
  define Q where "Q a u \<longleftrightarrow> (\<forall>m d b. a = HostObject m d b \<longrightarrow> method = ''GET'' \<and> (\<exists>i. ?path i \<and> served_from w i now a)) \<and>
      (u = w \<or> (\<exists>i. ?path i \<and> only_expired i w u))" for a u
  define E :: "compute_error \<Rightarrow> artifact_world \<Rightarrow> bool" where "E e u \<longleftrightarrow> u = w \<or> (\<exists>i. ?path i \<and> only_expired i w u)" for e u
  have same [simp]: "Q (HostText c t) w" "E e w" for c t e by (simp_all add: Q_def E_def)
  have "wp (handleArtifactHostRequest C key now method pathname) Q E w"
  proof (cases "method = ''GET''")
    case get: True
    show ?thesis
    proof (cases "artifact_path pathname")
      case (Some p)
      obtain token i rest where p: "p = (token, i, rest)" using prod_cases3 by blast
      show ?thesis
      proof (cases "\<exists>claims. verifyArtifactViewToken C (deriveArtifactViewSecret C key) token now = Verified claims \<and>
          at_artifactId claims = i")
        case True
        then obtain claims where claims: "verifyArtifactViewToken C (deriveArtifactViewSecret C key) token now = Verified claims"
          "at_artifactId claims = i" by blast
        have path: "?path i" using Some p verified_granted [OF claims(1)] claims(2) by auto
        have expired: "wp (respondExpired i) Q E (w\<lparr>aw_calls := n\<rparr>)" for n
          by (rule wp_conseq [OF wp_respondExpired]) (use path in \<open>auto simp: Q_def E_def\<close>)
        have served: "wp (serve_object r rel) Q E (w\<lparr>aw_calls := n\<rparr>)"
          if "artifact_of i w = Some r" "\<not> artifactExpired r now" "rel = ar_entryPath r \<or> confined rel" for r rel n
          by (rule wp_conseq [OF wp_serve_object [OF that]]) (use path get in \<open>auto simp: Q_def E_def\<close>)
        have said: "Q (HostText c t) (w\<lparr>aw_calls := n\<rparr>)" "E e (w\<lparr>aw_calls := n\<rparr>)" for c t e n
          using path only_expired_refl by (auto simp: Q_def E_def)
        have "wp (case found of None \<Rightarrow> respondExpired i
            | Some r \<Rightarrow> if artifactExpired r now then respondExpired i
                else if rest = None \<or> rest = Some [] then serve_object r (ar_entryPath r)
                else (case normalizeArtifactRelPath (the rest) of
                        None \<Rightarrow> ret (HostText 404 ''Not found'')
                      | Some rel \<Rightarrow> serve_object r rel)) Q E (w\<lparr>aw_calls := n\<rparr>)"
          if "found = artifact_of i w" for found n
          using that
          by (auto split: option.split intro!: expired served simp: wp_ret said dest: normalize_confined)
        then show ?thesis
          unfolding handleArtifactHostRequest_def using get Some p claims
          by (simp add: artifact_getById_def wp_andThen) (rule wp_asking, simp_all add: said)
      next
        case False
        then show ?thesis
          unfolding handleArtifactHostRequest_def using get Some p
          by (auto split: verdict.split simp: wp_simps)
      qed
    qed (simp add: handleArtifactHostRequest_def get wp_simps)
  qed (simp add: handleArtifactHostRequest_def wp_simps)
  then show ?thesis
    unfolding wp_def assms prod.case
    by (cases result) (auto simp: Q_def E_def split: host_response.splits)
qed

section \<open>Who may see an artifact\<close>

definition may_view :: "string \<Rightarrow> string \<Rightarrow> artifact_world \<Rightarrow> bool" where
  "may_view user t w \<longleftrightarrow> (\<exists>th. thread_of t w = Some th \<and>
     (if te_feedback th then map_of (aw_feedbackThreads w) user = Some t
      else (te_workspaceId th, user) \<in> set (aw_members w)))"

lemma may_view_counted [simp]: "may_view user t (w\<lparr>aw_calls := n\<rparr>) = may_view user t w"
  by (simp add: may_view_def)

definition denials :: "route_response set" where
  "denials = {unauthorized, not_found, RouteText 503 ''Artifact preview host is not configured''}"

text \<open>Access was granted, or nothing happened; at most the artifact's own row changed.\<close>

definition row_only :: "string \<Rightarrow> artifact_world \<Rightarrow> artifact_world \<Rightarrow> bool" where
  "row_only i w u \<longleftrightarrow> (\<exists>f n. u = (set_artifact i f w)\<lparr>aw_calls := n\<rparr>)"

definition kept_out :: "bool \<Rightarrow> string \<Rightarrow> artifact_world \<Rightarrow> artifact_world \<Rightarrow> bool" where
  "kept_out granted i w u \<longleftrightarrow> row_only i w u \<and> (granted \<or> (\<exists>n. u = w\<lparr>aw_calls := n\<rparr>))"

lemma row_only_refl: "row_only i w (w\<lparr>aw_calls := n\<rparr>)"
proof -
  have "set_artifact i (\<lambda>r. r) w = w" by (simp add: set_artifact_def sql_update_def)
  then show ?thesis unfolding row_only_def by metis
qed

lemma kept_out_refl [simp]: "kept_out g i w (w\<lparr>aw_calls := n\<rparr>)"
  by (auto simp: kept_out_def row_only_refl)

lemma kept_out_set: "g \<Longrightarrow> kept_out g i w ((set_artifact i f w)\<lparr>aw_calls := n\<rparr>)"
  by (auto simp: kept_out_def row_only_def)

abbreviation guarded ::
    "bool \<Rightarrow> string \<Rightarrow> artifact_world \<Rightarrow> (artifact_world, route_response) act \<Rightarrow> nat \<Rightarrow> bool" where
  "guarded g i w m n \<equiv> wp m (\<lambda>a u. kept_out g i w u \<and> (g \<or> a \<in> denials)) (\<lambda>_ u. kept_out g i w u) (w\<lparr>aw_calls := n\<rparr>)"

lemma wp_authorize:
  assumes "\<And>n. Q (may_view user t w) (w\<lparr>aw_calls := n\<rparr>)" "\<And>e n. E e (w\<lparr>aw_calls := n\<rparr>)"
  shows "wp (authorizeArtifactAccess t user) Q E (w\<lparr>aw_calls := n\<rparr>)"
proof -
  have none: "thread_of t w = None \<Longrightarrow> \<not> may_view user t w" by (simp add: may_view_def)
  have feedback: "wp (assertFeedbackReporter t user) Q E (w\<lparr>aw_calls := n\<rparr>)"
    if "thread_of t w = Some th" "te_feedback th" for th n
    unfolding assertFeedbackReporter_def wp_andThen
    by (rule wp_asking) (use assms that in \<open>auto simp: wp_ret may_view_def\<close>)
  have member: "wp (andThen (memberWorkspaceForThread t user) (\<lambda>ws. ret (ws \<noteq> None))) Q E (w\<lparr>aw_calls := n\<rparr>)"
    if "thread_of t w = Some th" "\<not> te_feedback th" for th n
    unfolding memberWorkspaceForThread_def wp_andThen
    by (rule wp_asking) (use assms that in \<open>auto simp: wp_ret may_view_def split: if_splits\<close>)
  show ?thesis
    unfolding authorizeArtifactAccess_def wp_andThen
    by (rule wp_asking) (use assms feedback member none in \<open>auto simp: wp_simps split: option.split\<close>)
qed

definition may_open :: "route_request \<Rightarrow> string \<Rightarrow> artifact_world \<Rightarrow> bool" where
  "may_open req i w \<longleftrightarrow> (\<exists>user r. rr_session req = Some user \<and> artifact_of i w = Some r \<and>
     may_view user (ar_threadId r) w)"

lemma load_guarded:
  assumes "rr_session req = Some user"
    and "\<And>r n. artifact_of i w = Some r \<Longrightarrow> may_open req i w \<Longrightarrow> guarded True i w (f r) n"
  shows "guarded (may_open req i w) i w (loadAuthorizedArtifact i user f) n"
proof -
  define Q where "Q a u \<longleftrightarrow> kept_out (may_open req i w) i w u \<and> (may_open req i w \<or> a \<in> denials)" for a u
  define E :: "compute_error \<Rightarrow> artifact_world \<Rightarrow> bool" where "E e u \<longleftrightarrow> kept_out (may_open req i w) i w u" for e u
  have denied: "Q not_found (w\<lparr>aw_calls := n\<rparr>)" "E e (w\<lparr>aw_calls := n\<rparr>)" for n e
    by (simp_all add: Q_def E_def denials_def)
  have "wp (andThen (authorizeArtifactAccess (ar_threadId r) user) (\<lambda>allowed. if allowed then f r else ret not_found))
      Q E (w\<lparr>aw_calls := n\<rparr>)" if r: "artifact_of i w = Some r" for r n
    unfolding wp_andThen
  proof (rule wp_authorize)
    show "wp (if may_view user (ar_threadId r) w then f r else ret not_found) Q E (w\<lparr>aw_calls := n\<rparr>)" for n
    proof (cases "may_view user (ar_threadId r) w")
      case True
      then have "may_open req i w" using assms(1) r by (auto simp: may_open_def)
      with assms(2) [OF r this, of n] True show ?thesis by (simp add: Q_def [abs_def] E_def [abs_def])
    qed (simp add: wp_ret denied)
  qed (rule denied)
  then have "wp (loadAuthorizedArtifact i user f) Q E (w\<lparr>aw_calls := n\<rparr>)"
    unfolding loadAuthorizedArtifact_def artifact_getById_def wp_andThen
    by (intro wp_asking) (auto split: option.split simp: wp_ret wp_andThen denied)
  then show ?thesis by (simp add: Q_def [abs_def] E_def [abs_def])
qed

lemma sign_in_guarded:
  "(\<And>user. rr_session req = Some user \<Longrightarrow> guarded g i w (f user) n) \<Longrightarrow> guarded g i w (signed_in req f) n"
  by (cases "rr_session req") (simp_all add: signed_in_def wp_ret denials_def)

lemma expired_guarded:
  assumes "guarded True i w (f r) n"
  shows "guarded True i w (unless_expired now i f r) n"
proof (cases "artifactExpired r now")
  case True
  have "kept_out True i w u" if "only_expired i w u" for u
    using that kept_out_set [of True i w] by (auto simp: only_expired_def)
  then show ?thesis
    unfolding unless_expired_def using True
    by (simp add: wp_simps) (rule wp_conseq [OF wp_respondExpired], auto)
qed (use assms in \<open>simp add: unless_expired_def\<close>)

lemma metadata_guarded: "guarded (may_open req i w) i w (handleMetadata req now i) n"
  unfolding handleMetadata_def
  by (intro sign_in_guarded load_guarded expired_guarded) (simp_all add: wp_ret)

lemma mint_guarded: "guarded (may_open req i w) i w (handleViewMint C key host req now later i) n"
proof -
  have "guarded True i w (mint_view C key req h later i) n" for h n
    unfolding mint_view_def by (simp add: wp_simps split: option.split)
  then have "guarded (may_open req i w) i w (loadAuthorizedArtifact i user
       (unless_expired now i (\<lambda>_. mint_view C key req h later i))) n"
    if "rr_session req = Some user" for user h
    by (intro load_guarded expired_guarded that)
  then show ?thesis
    unfolding handleViewMint_def by (intro sign_in_guarded) (simp add: wp_ret denials_def)
qed

lemma republish_guarded: "guarded (may_open req i w) i w (handleRepublish req now i) n"
proof -
  have wrote: "wp (reactivate i t) (\<lambda>_. kept_out True i w) (\<lambda>_. kept_out True i w) (w\<lparr>aw_calls := n\<rparr>)" for t n
    unfolding reactivate_def by (rule wp_updating) (simp_all add: kept_out_set)
  have "guarded True i w (andThen (r2PrefixHasObjects p) (\<lambda>present.
      if \<not> present then ret (RouteText 410 ARTIFACT_FILES_GONE)
      else andThen (reactivate i t) (\<lambda>_. ret x))) n" for p t x n
    unfolding r2PrefixHasObjects_def bucket_list_def wp_andThen
    by (rule wp_asking) (auto simp: wp_ret Let_def wp_andThen wrote split: prod.split)
  then show ?thesis
    unfolding handleRepublish_def by (intro sign_in_guarded load_guarded)
qed

lemma list_guarded:
  "guarded (\<exists>user. rr_session req = Some user \<and> may_view user t w) i w (handleThreadList req t) n"
proof -
  have "guarded (\<exists>user. rr_session req = Some user \<and> may_view user t w) i w
      (andThen (authorizeArtifactAccess t user) (\<lambda>allowed. if \<not> allowed then ret not_found
        else andThen (artifact_listByThread t) (\<lambda>rs. ret (RouteList rs)))) n"
    if user: "rr_session req = Some user" for user
    unfolding wp_andThen
  proof (rule wp_authorize)
    show "guarded (\<exists>user. rr_session req = Some user \<and> may_view user t w) i w
        (if \<not> may_view user t w then ret not_found
         else andThen (artifact_listByThread t) (\<lambda>rs. ret (RouteList rs))) n" for n
    proof (cases "may_view user t w")
      case True
      then show ?thesis
        unfolding artifact_listByThread_def
        by (simp add: wp_andThen, intro wp_asking) (use user in \<open>auto simp: wp_ret\<close>)
    qed (simp add: wp_ret denials_def)
  qed simp
  then show ?thesis unfolding handleThreadList_def by (intro sign_in_guarded)
qed

text \<open>The thread a path is about.\<close>

definition target_thread :: "(string \<Rightarrow> string option) \<Rightarrow> string \<Rightarrow> artifact_world \<Rightarrow> string option" where
  "target_thread decode pathname w =
     (let segments = js_split CHR ''/'' pathname
      in if segments ! 2 = ''threads'' then decode (segments ! 3)
         else map_option ar_threadId (artifact_of (segments ! 3) w))"

definition has_access :: "(string \<Rightarrow> string option) \<Rightarrow> string \<Rightarrow> route_request \<Rightarrow> artifact_world \<Rightarrow> bool" where
  "has_access decode pathname req w \<longleftrightarrow> (\<exists>user t. rr_session req = Some user \<and>
     target_thread decode pathname w = Some t \<and> may_view user t w)"

lemma four_or_five:
  obtains a b c j where "xs = [a, b, c, j]" | a b c j d where "xs = [a, b, c, j, d]" | "length xs \<notin> {4, 5}"
proof (cases "length xs \<in> {4, 5}")
  case True
  have "length xs = 4 \<Longrightarrow> \<exists>a b c j. xs = [a, b, c, j]" "length xs = 5 \<Longrightarrow> \<exists>a b c j d. xs = [a, b, c, j, d]"
    by (auto simp: length_Suc_conv numeral_eq_Suc)
  with True that show ?thesis by blast
qed (use that in blast)

lemma other_lengths: "length xs \<notin> {4, 5} \<Longrightarrow>
    (case xs of [a, b, c, i] \<Rightarrow> f a b c i | [a, b, c, i, d] \<Rightarrow> g a b c i d | _ \<Rightarrow> z) = z"
  by (auto split: list.split)

text \<open>C21: Artifacts are seen only by those who may see their thread. Unless the caller is signed in and the
  thread of the path is one it may see (a member of the thread's workspace; for a feedback thread
  only its reporter), an artifact route changes nothing and answers nothing but 401, the 404 of
  an unknown id, or 503. With access it changes at most the row of the artifact named, never an
  object or another row.
\<close>

theorem artifact_routes_need_access:
  assumes "routeArtifacts C key host decode now later method pathname req w = (w', result)"
  shows "row_only (js_split CHR ''/'' pathname ! 3) w w' \<and>
    (has_access decode pathname req w \<or>
     (\<exists>n. w' = w\<lparr>aw_calls := n\<rparr>) \<and> (\<forall>x. result = Inr (Some x) \<longrightarrow> x \<in> denials))"
proof -
  define g where "g = has_access decode pathname req w"
  define i where "i = js_split CHR ''/'' pathname ! 3"
  define Q where "Q a u \<longleftrightarrow> kept_out g i w u \<and> (g \<or> (\<forall>x. a = Some x \<longrightarrow> x \<in> denials))" for a u
  define E :: "compute_error \<Rightarrow> artifact_world \<Rightarrow> bool" where "E e u \<longleftrightarrow> kept_out g i w u" for e u
  have here: "w\<lparr>aw_calls := aw_calls w\<rparr> = w" by simp
  have none: "Q None w" "E e w" for e
    using kept_out_refl [of g i w "aw_calls w"] unfolding here by (simp_all add: Q_def E_def)
  have reply: "wp (andThen m (\<lambda>x. ret (Some x))) Q E w" if "guarded g i w m (aw_calls w)" for m
    using that unfolding here wp_andThen wp_ret by (rule wp_conseq) (auto simp: Q_def E_def)
  have artifact: "may_open req i w = g" if "js_split CHR ''/'' pathname ! 2 = ''artifacts''"
    using that by (auto simp: g_def i_def has_access_def target_thread_def Let_def may_open_def)
  have listed: "(\<exists>user. rr_session req = Some user \<and> may_view user t w) = g"
    if "js_split CHR ''/'' pathname ! 2 = ''threads''" "decode i = Some t" for t
    using that by (auto simp: g_def i_def has_access_def target_thread_def Let_def)
  have metadata: "wp (andThen (handleMetadata req now i) (\<lambda>x. ret (Some x))) Q E w"
    and mint: "wp (andThen (handleViewMint C key host req now later i) (\<lambda>x. ret (Some x))) Q E w"
    and republish: "wp (andThen (handleRepublish req now i) (\<lambda>x. ret (Some x))) Q E w"
    if "js_split CHR ''/'' pathname ! 2 = ''artifacts''"
    by (rule reply, unfold artifact [OF that, symmetric], rule metadata_guarded mint_guarded republish_guarded)+
  have listing: "wp (andThen (handleThreadList req t) (\<lambda>x. ret (Some x))) Q E w"
    if "js_split CHR ''/'' pathname ! 2 = ''threads''" "decode i = Some t" for t
    by (rule reply, unfold listed [OF that, symmetric], rule list_guarded)
  have "wp (routeArtifacts C key host decode now later method pathname req) Q E w"
  proof -
    note simps = routeArtifacts_def Let_def list.case
    consider a b c j where "js_split CHR ''/'' pathname = [a, b, c, j]"
      | a b c j d where "js_split CHR ''/'' pathname = [a, b, c, j, d]"
      | "length (js_split CHR ''/'' pathname) \<notin> {4, 5}"
      by (rule four_or_five)
    then show ?thesis
    proof cases
      case (1 a b c j)
      then have "j = i" "c = ''artifacts'' \<Longrightarrow> js_split CHR ''/'' pathname ! 2 = ''artifacts''"
        by (simp_all add: i_def)
      with metadata show ?thesis unfolding simps 1 by (cases "c = ''artifacts''") (simp_all only: wp_if wp_ret none simp_thms if_True if_False split: if_split)
    next
      case (2 a b c j d)
      then have j: "j = i" by (simp add: i_def)
      have "wp (if a = [] \<and> b = ''api'' \<and> c = ''threads'' \<and> i \<noteq> [] \<and> d = ''artifacts'' \<and> method = ''GET''
          then (case decode i of None \<Rightarrow> raise (OtherError ''URIError'')
                | Some t \<Rightarrow> andThen (handleThreadList req t) (\<lambda>x. ret (Some x))) else rest) Q E w"
        if "wp rest Q E w" for rest
        using listing [unfolded 2] that none by (cases "decode i") (auto simp: wp_raise)
      moreover have "wp (if a = [] \<and> b = ''api'' \<and> c = ''artifacts'' \<and> i \<noteq> [] \<and> d = ''view'' \<and> method = ''POST''
          then andThen (handleViewMint C key host req now later i) (\<lambda>x. ret (Some x)) else rest) Q E w"
        if "wp rest Q E w" for rest
        using mint [unfolded 2] that by auto
      moreover have "wp (if a = [] \<and> b = ''api'' \<and> c = ''artifacts'' \<and> i \<noteq> [] \<and> d = ''republish'' \<and> method = ''POST''
          then andThen (handleRepublish req now i) (\<lambda>x. ret (Some x)) else ret None) Q E w"
        using republish [unfolded 2] by (auto simp: wp_ret none)
      ultimately show ?thesis unfolding simps 2 j by blast
    next
      case 3
      show ?thesis unfolding routeArtifacts_def Let_def other_lengths [OF 3] wp_ret by (rule none)
    qed
  qed
  then show ?thesis
    by (cases result) (auto simp: wp_def assms Q_def E_def kept_out_def g_def i_def)
qed

section \<open>From the tool to the browser\<close>

definition same_users :: "artifact_world \<Rightarrow> artifact_world \<Rightarrow> bool" where
  "same_users w u \<longleftrightarrow> aw_threads u = aw_threads w \<and> aw_members u = aw_members w \<and>
     aw_feedbackThreads u = aw_feedbackThreads w \<and> aw_fails u = aw_fails w"

lemma object_for_key [simp]: "so_key (object_for p f) = p @ pf_relativePath f"
  by (simp add: object_for_def)

lemma object_put [simp]: "object_of k (w\<lparr>aw_calls := n, aw_objects := sql_upsert so_key x (\<lambda>_. x) (aw_objects w)\<rparr>) =
    (if k = so_key x then Some x else object_of k w)"
  by (simp add: object_of_def sql_row_upsert split: option.split)

lemma puts_stored:
  assumes "distinct (map pf_relativePath fs)"
  shows "wp (forEach (\<lambda>f. bucket_put (object_for p f)) fs)
    (\<lambda>_ u. (\<forall>f \<in> set fs. object_of (p @ pf_relativePath f) u = Some (object_for p f)) \<and>
       (\<forall>k. k \<notin> (\<lambda>f. p @ pf_relativePath f) ` set fs \<longrightarrow> object_of k u = object_of k w) \<and>
       aw_artifacts u = aw_artifacts w \<and> same_users w u) (\<lambda>_ _. True) w"
  using assms
proof (induction fs arbitrary: w)
  case (Cons f fs)
  let ?x = "object_for p f"
  have new: "p @ pf_relativePath f \<notin> (\<lambda>f. p @ pf_relativePath f) ` set fs" using Cons.prems by auto
  have put: "object_of k (w\<lparr>aw_calls := n, aw_objects := sql_upsert so_key ?x (\<lambda>_. ?x) (aw_objects w)\<rparr>) =
      (if k = p @ pf_relativePath f then Some ?x else object_of k w)" for k n
    by simp
  have "wp (forEach (\<lambda>f. bucket_put (object_for p f)) fs)
      (\<lambda>_ u. (\<forall>f' \<in> set (f # fs). object_of (p @ pf_relativePath f') u = Some (object_for p f')) \<and>
         (\<forall>k. k \<notin> (\<lambda>f. p @ pf_relativePath f) ` set (f # fs) \<longrightarrow> object_of k u = object_of k w) \<and>
         aw_artifacts u = aw_artifacts w \<and> same_users w u) (\<lambda>_ _. True)
      (w\<lparr>aw_calls := n, aw_objects := sql_upsert so_key ?x (\<lambda>_. ?x) (aw_objects w)\<rparr>)" for n
    by (rule wp_conseq [OF Cons.IH]) (use Cons.prems put new in \<open>auto simp: same_users_def\<close>)
  then show ?case
    unfolding forEach.simps wp_andThen bucket_put_def by (intro wp_updating) simp_all
qed (simp add: wp_ret same_users_def)

lemma artifact_stored:
  assumes "distinct (map pf_relativePath (pb_files x))"
  shows "wp (store_artifact pages uuid createdAt x)
    (\<lambda>r u. r = new_artifact (''art_'' @ uuid) createdAt x \<and> artifact_of (''art_'' @ uuid) u = Some r \<and>
       (\<forall>f \<in> set (pb_files x). object_of (ar_r2Prefix r @ pf_relativePath f) u = Some (object_for (ar_r2Prefix r) f)) \<and>
       same_users w u) (\<lambda>_ _. True) w"
proof -
  define i where "i = ''art_'' @ uuid"
  define r where "r = new_artifact i createdAt x"
  have r: "ar_id r = i" "ar_r2Prefix r = artifact_prefix i" by (simp_all add: r_def new_artifact_def)
  let ?Q = "\<lambda>r' u. r' = r \<and> artifact_of i u = Some r \<and>
       (\<forall>f \<in> set (pb_files x). object_of (artifact_prefix i @ pf_relativePath f) u = Some (object_for (artifact_prefix i) f)) \<and>
       same_users w u"
  have failing: "wp (andThen (deleteR2PrefixBestEffort pages q) (\<lambda>_. raise e)) ?Q (\<lambda>_ _. True) u" for q e u
    by (simp add: wp_simps) (simp add: wp_run)
  have insert: "wp (andThen (artifact_insert r) (\<lambda>_. ret r)) ?Q (\<lambda>e. wp (andThen (deleteR2PrefixBestEffort pages q) (\<lambda>_. raise e)) ?Q (\<lambda>_ _. True)) u"
    if "\<forall>f \<in> set (pb_files x). object_of (artifact_prefix i @ pf_relativePath f) u = Some (object_for (artifact_prefix i) f)"
      "same_users w u" for u q
    using that failing unfolding artifact_insert_def
    by (auto simp: wp_simps wp_def [of "calling f" for f] calling_def Let_def r artifact_of_def object_of_def sql_simps same_users_def
        split: option.split call_fault.split)
  have "wp (store_artifact pages uuid createdAt x) ?Q (\<lambda>_ _. True) w"
    unfolding store_artifact_def Let_def i_def [symmetric] r_def [symmetric] wp_catching wp_andThen [of "forEach f xs" for f xs]
    by (rule wp_conseq [OF puts_stored [OF assms]]) (use insert failing in \<open>auto simp: wp_andThen\<close>)
  then show ?thesis by (rule wp_conseq) (use r in \<open>auto simp: i_def r_def\<close>)
qed

lemma js_split_glue: "js_split c (a @ c # b) = js_split c a @ js_split c b"
proof (induction a)
  case (Cons x a)
  then show ?case by (cases "js_split c a") auto
qed simp

lemma normalize_segments_id: "\<forall>x \<in> set xs. x \<notin> {[], ''.'', ''..''} \<Longrightarrow> normalize_segments kept xs = rev kept @ xs"
  by (induction xs arbitrary: kept) auto

lemma normalize_id:
  assumes "confined rel" and "CHR 0x5C \<notin> set rel"
  shows "normalizeArtifactRelPath rel = Some rel"
proof -
  let ?segs = "js_split CHR ''/'' rel"
  have segs: "\<forall>x \<in> set ?segs. x \<notin> {[], ''.'', ''..''}" using assms(1) by (simp add: confined_def)
  have no_glue: "[] \<notin> set (js_split CHR ''/'' a) \<union> set (js_split CHR ''/'' b)" if "rel = a @ CHR ''/'' # b" for a b
    using segs unfolding that js_split_glue set_append by blast
  have ne: "rel \<noteq> []"
  proof
    assume "rel = []"
    then have "[] \<in> set ?segs" by simp
    with segs show False by blast
  qed
  have ends: "hd rel \<noteq> CHR ''/''" "last rel \<noteq> CHR ''/''"
  proof -
    show "hd rel \<noteq> CHR ''/''" using ne no_glue [of "[]" "tl rel"] by (cases rel) auto
    show "last rel \<noteq> CHR ''/''" using ne no_glue [of "butlast rel" "[]"] by (cases rel rule: rev_cases) auto
  qed
  have same: "posix_normalize rel = rel"
    using ne ends segs by (simp add: posix_normalize_def normalize_segments_id js_join_split)
  have "rel \<noteq> ''.'' \<and> rel \<noteq> ''..'' \<and> \<not> starts_with ''../'' rel"
  proof (intro conjI)
    have "rel \<in> {''.'', ''..''} \<Longrightarrow> rel \<in> set ?segs" by auto
    then show "rel \<noteq> ''.''" "rel \<noteq> ''..''" using segs by blast+
    show "\<not> starts_with ''../'' rel"
    proof
      assume "starts_with ''../'' rel"
      then have "take 3 rel = ''../''" by (simp add: starts_with_def numeral_3_eq_3)
      then have "rel = ''..'' @ CHR ''/'' # drop 3 rel" using append_take_drop_id [of 3 rel] by simp
      then have "''..'' \<in> set ?segs" using js_split_glue [of "CHR ''/''" "''..''" "drop 3 rel"] by simp
      with segs show False by blast
    qed
  qed
  moreover have "\<not> (\<exists>a b. rel = a @ ''/../'' @ b)"
  proof
    assume "\<exists>a b. rel = a @ ''/../'' @ b"
    then obtain a b where "rel = a @ CHR ''/'' # (''..'' @ CHR ''/'' # b)" by auto
    then have "''..'' \<in> set ?segs" by (simp add: js_split_glue)
    with segs show False by blast
  qed
  ultimately show ?thesis
    using ne ends assms(2) strip_slash(1) [of rel] by (simp add: normalizeArtifactRelPath_def Let_def same)
qed

lemma url_digit_slash [simp]: "url_digit x \<noteq> CHR ''/''" "CHR ''/'' \<noteq> url_digit x"
  by (auto simp: url_digit_def)

lemma token_no_slash:
  assumes "sign_json C secret v = Some token"
  shows "CHR ''/'' \<notin> set token" "token \<noteq> []"
  using assms by (auto simp: sign_json_def Let_def bytesToBase64Url_digits simp del: split_paired_Ex)

text \<open>The path of a view URL, with a file below it.\<close>

definition view_path :: "string \<Rightarrow> string \<Rightarrow> string" where
  "view_path token i = ''/v/'' @ token @ ''/'' @ i @ ''/''"

lemma artifact_path_view:
  assumes "CHR ''/'' \<notin> set token" "token \<noteq> []" "CHR ''/'' \<notin> set uuid" "uuid \<noteq> []"
  shows "artifact_path (view_path token (''art_'' @ uuid) @ rel) = Some (token, ''art_'' @ uuid, Some rel)"
proof -
  let ?i = "''art_'' @ uuid"
  have i: "CHR ''/'' \<notin> set ?i" using assms(3) by simp
  have "view_path token ?i @ rel = [] @ CHR ''/'' # (''v'' @ CHR ''/'' # (token @ CHR ''/'' # (?i @ CHR ''/'' # rel)))"
    by (simp add: view_path_def)
  then have "js_split CHR ''/'' (view_path token ?i @ rel) = [] # ''v'' # token # ?i # js_split CHR ''/'' rel"
    using assms(1) i by (simp only: js_split_append js_split_no_sep) (simp add: js_split_append js_split_no_sep)
  moreover have "js_join ''/'' (js_split CHR ''/'' rel) = rel" by simp
  ultimately show ?thesis
    using assms(2,4) unfolding artifact_path_def by (simp add: starts_with_def)
qed

lemma quiet_asking: "aw_fails w = (\<lambda>_. None) \<Longrightarrow>
    asking g w = (w\<lparr>aw_calls := Suc (aw_calls w)\<rparr>, Inr (g (w\<lparr>aw_calls := Suc (aw_calls w)\<rparr>)))"
  by (simp add: asking_def calling_def Let_def)

lemma quiet_authorize:
  assumes "aw_fails w = (\<lambda>_. None)" "may_view user t w"
  shows "\<exists>n. authorizeArtifactAccess t user w = (w\<lparr>aw_calls := n\<rparr>, Inr True)"
  using assms
  by (auto simp: authorizeArtifactAccess_def andThen_def quiet_asking may_view_def ret_def
      assertFeedbackReporter_def memberWorkspaceForThread_def split: if_splits)


section \<open>Instances\<close>

definition demo_world :: artifact_world where
  "demo_world = \<lparr>aw_artifacts = [], aw_threads = [\<lparr>te_id = ''t1'', te_workspaceId = ''w1'', te_feedback = False\<rparr>],
     aw_members = [(''w1'', ''u1'')], aw_feedbackThreads = [], aw_objects = [], aw_calls = 0, aw_fails = (\<lambda>_. None)\<rparr>"

definition demo_page :: published_file where
  "demo_page = \<lparr>pf_relativePath = ''index.html'', pf_bytes = ''<p>'', pf_mimeType = ''text/html''\<rparr>"

definition demo_publication :: publication where
  "demo_publication = \<lparr>pb_workspaceId = ''w1'', pb_threadId = ''t1'', pb_title = ''page'', pb_entryPath = ''index.html'',
     pb_files = [demo_page], pb_totalBytes = 3\<rparr>"

definition demo_view :: artifact_claims where
  "demo_view = \<lparr>at_artifactId = ''art_1'', at_exp = Whole (2000 + VIEW_TTL_MS)\<rparr>"

definition view_crypto :: "string crypto" where
  "view_crypto = (demo_crypto [artifact_json demo_view])\<lparr>cr_sha256 := (\<lambda>_. ''x''), cr_hmac := (\<lambda>k b. k)\<rparr>"

definition signed_in_user :: route_request where
  "signed_in_user = \<lparr>rr_session = Some ''u1'', rr_hostname = ''app.example'', rr_port = []\<rparr>"

lemma demo_stored: "\<exists>w1 r. store_artifact 1 ''1'' 1000 demo_publication demo_world = (w1, Inr r) \<and> ar_id r = ''art_1''"
proof -
  have "snd (store_artifact 1 ''1'' 1000 demo_publication demo_world) = Inr (new_artifact ''art_1'' 1000 demo_publication)"
    by (simp add: store_artifact_def demo_publication_def demo_world_def catching_def andThen_def bucket_put_def updating_def
        calling_def Let_def ret_def artifact_insert_def artifact_of_def sql_simps)
  then show ?thesis by (metis prod.collapse new_artifact_def artifact_row.select_convs(1))
qed


definition served_world :: artifact_world where
  "served_world = demo_world\<lparr>aw_artifacts := [new_artifact ''art_1'' 1000 demo_publication],
     aw_objects := [object_for ''artifacts/art_1/'' demo_page]\<rparr>"

lemma demo_granted: "\<exists>token. verifyArtifactViewToken view_crypto (deriveArtifactViewSecret view_crypto ''s'') token 3000 =
    Verified demo_view \<and> CHR ''/'' \<notin> set token \<and> token \<noteq> []"
proof -
  let ?secret = "deriveArtifactViewSecret view_crypto ''s''"
  have "?secret = ''78''"
    by (simp add: deriveArtifactViewSecret_def derive_secret_def view_crypto_def hex_byte_def hex_digit_def byte_def)
  then obtain token where token: "sign_json view_crypto ?secret (artifact_json demo_view) = Some token"
    by (simp add: sign_json_def view_crypto_def demo_crypto_def Let_def)
  have "cr_parse view_crypto (cr_stringify view_crypto (artifact_json demo_view)) = Some (artifact_json demo_view)"
    by (simp add: view_crypto_def demo_crypto_def)
  from signed_json_sign [OF this token] have "verifyArtifactViewToken view_crypto ?secret token 3000 = Verified demo_view"
    by (simp add: verifyArtifactViewToken_def artifact_json_def string_field_def number_field_def)
       (simp add: demo_view_def VIEW_TTL_MS_def)
  with token_no_slash [OF token] show ?thesis by blast
qed

lemma artifact_host_guarded_witness:
  "\<exists>token. view_granted view_crypto ''s'' 3000 token ''art_1'' \<and>
     served_from served_world ''art_1'' 3000 (HostObject ''text/html'' None ''<p>'')"
proof -
  obtain token where token: "verifyArtifactViewToken view_crypto (deriveArtifactViewSecret view_crypto ''s'') token 3000 =
    Verified demo_view" "CHR ''/'' \<notin> set token" "token \<noteq> []" using demo_granted by blast
  have path: "artifact_path (view_path token ''art_1'') = Some (token, ''art_1'', Some [])"
    using artifact_path_view [OF token(2,3), of "''1''" "[]"] by simp
  define r where "r = new_artifact ''art_1'' 1000 demo_publication"
  have row: "artifact_getById ''art_1'' served_world = (served_world\<lparr>aw_calls := Suc 0\<rparr>, Inr (Some r))"
    by (simp add: artifact_getById_def quiet_asking served_world_def demo_world_def artifact_of_def sql_simps r_def new_artifact_def)
  have alive: "\<not> artifactExpired r 3000" unfolding r_def by code_simp
  have "snd (serve_object r (ar_entryPath r) (served_world\<lparr>aw_calls := Suc 0\<rparr>)) = Inr (HostObject ''text/html'' None ''<p>'')"
    unfolding r_def by code_simp
  then obtain u where "serve_object r (ar_entryPath r) (served_world\<lparr>aw_calls := Suc 0\<rparr>) =
      (u, Inr (HostObject ''text/html'' None ''<p>''))" by (metis prod.collapse)
  then have "\<exists>w'. handleArtifactHostRequest view_crypto ''s'' 3000 ''GET'' (view_path token ''art_1'') served_world =
      (w', Inr (HostObject ''text/html'' None ''<p>''))"
    using row alive by (simp add: handleArtifactHostRequest_def path token(1) demo_view_def andThen_def)
  then obtain w' where "handleArtifactHostRequest view_crypto ''s'' 3000 ''GET'' (view_path token ''art_1'') served_world =
      (w', Inr (HostObject ''text/html'' None ''<p>''))" by blast
  from artifact_host_guarded [OF this] path show ?thesis by auto
qed

lemma artifact_routes_need_access_witness:
  "row_only ''art_1'' served_world (fst (routeArtifacts view_crypto ''s'' ''files.example'' (\<lambda>_. None) 2000 2000 ''POST''
     ''/api/artifacts/art_1/view'' (signed_in_user\<lparr>rr_session := Some ''u2''\<rparr>) served_world)) \<and>
   snd (routeArtifacts view_crypto ''s'' ''files.example'' (\<lambda>_. None) 2000 2000 ''POST''
     ''/api/artifacts/art_1/view'' (signed_in_user\<lparr>rr_session := Some ''u2''\<rparr>) served_world) = Inr (Some not_found)"
proof (rule conjI)
  have segments: "js_split CHR ''/'' ''/api/artifacts/art_1/view'' ! 3 = ''art_1''" by code_simp
  show "row_only ''art_1'' served_world (fst (routeArtifacts view_crypto ''s'' ''files.example'' (\<lambda>_. None) 2000 2000 ''POST''
     ''/api/artifacts/art_1/view'' (signed_in_user\<lparr>rr_session := Some ''u2''\<rparr>) served_world))"
    using artifact_routes_need_access [OF prod.collapse [symmetric]] segments by metis
qed code_simp

end
