(* ===== verification/Modular_Power.thy ===== *)
theory Modular_Power
  imports Complex_Main
begin

text \<open>
  Powers modulo a prime, for the RSA signatures of \<open>Rsa_Signing\<close>: Fermat's little theorem, exponents
  reduced modulo \<open>p - 1\<close>, and numbers that agree modulo two coprime factors.
\<close>

definition prime_number :: "int \<Rightarrow> bool" where
  "prime_number p \<longleftrightarrow> 1 < p \<and> (\<forall>m. 0 < m \<longrightarrow> m dvd p \<longrightarrow> m = 1 \<or> m = p)"

lemma prime_coprime:
  assumes "prime_number p" "\<not> p dvd a"
  shows "coprime p a"
proof -
  have "gcd p a dvd p" "0 < gcd p a" using assms by (auto simp: prime_number_def)
  then have "gcd p a = 1 \<or> gcd p a = p" using assms(1) by (auto simp: prime_number_def)
  moreover have "gcd p a \<noteq> p" using assms(2) by (metis gcd_dvd2)
  ultimately show ?thesis by (simp add: coprime_iff_gcd_eq_1)
qed

section \<open>Fermat's little theorem\<close>

lemma prime_dvd_choose:
  assumes "prime_number p" "0 < k" "k < nat p"
  shows "p dvd int (nat p choose k)"
proof -
  obtain j where k: "k = Suc j" using assms(2) by (cases k) auto
  obtain n where n: "nat p = Suc n" using assms(3) by (cases "nat p") auto
  have "k * (nat p choose k) = nat p * (n choose j)" unfolding n k by (rule Suc_times_binomial)
  then have "int (k * (nat p choose k)) = int (nat p * (n choose j))" by (simp only:)
  moreover have "int (nat p) = p" using assms(1) by (simp add: prime_number_def)
  ultimately have "int k * int (nat p choose k) = p * int (n choose j)" by (simp only: of_nat_mult)
  then have "p dvd int k * int (nat p choose k)" by simp
  moreover have "\<not> p dvd int k" using assms(2,3) zdvd_imp_le [of p "int k"] by auto
  ultimately show ?thesis using prime_coprime [OF assms(1)] coprime_dvd_mult_right_iff by blast
qed

lemma freshman:
  assumes "prime_number p"
  shows "p dvd (a + 1) ^ nat p - (a ^ nat p + 1)"
proof -
  let ?n = "nat p"
  have pos: "0 < ?n" using assms by (simp add: prime_number_def)
  have "(a + 1) ^ ?n = (\<Sum>k\<le>?n. of_nat (?n choose k) * a ^ k)" by (simp add: binomial_ring)
  also have "\<dots> = (\<Sum>k \<in> {0, ?n}. of_nat (?n choose k) * a ^ k) + (\<Sum>k \<in> {..?n} - {0, ?n}. of_nat (?n choose k) * a ^ k)"
    by (subst sum.subset_diff [of "{0, ?n}"]) auto
  also have "(\<Sum>k \<in> {0, ?n}. of_nat (?n choose k) * a ^ k) = 1 + a ^ ?n" using pos by simp
  finally have "(a + 1) ^ ?n - (a ^ ?n + 1) = (\<Sum>k \<in> {..?n} - {0, ?n}. of_nat (?n choose k) * a ^ k)" by simp
  moreover have "p dvd (\<Sum>k \<in> {..?n} - {0, ?n}. of_nat (?n choose k) * a ^ k)"
    by (intro dvd_sum dvd_mult2 prime_dvd_choose [OF assms]) auto
  ultimately show ?thesis by simp
qed

lemma fermat_nat: "prime_number p \<Longrightarrow> p dvd int a ^ nat p - int a"
proof (induction a)
  case 0
  then have zero: "(0 :: int) ^ nat p = 0" by (intro zero_power) (simp add: prime_number_def)
  show ?case unfolding of_nat_0 zero by simp
next
  case (Suc a)
  have "int (Suc a) ^ nat p - int (Suc a) =
      ((int a + 1) ^ nat p - (int a ^ nat p + 1)) + (int a ^ nat p - int a)" by (simp add: algebra_simps)
  then show ?case using freshman [OF Suc.prems, of "int a"] Suc.IH [OF Suc.prems] by (metis dvd_add)
qed

lemma fermat:
  assumes "prime_number p" "0 \<le> m" "\<not> p dvd m"
  shows "m ^ nat (p - 1) mod p = 1"
proof -
  have p: "nat p = Suc (nat (p - 1))" using assms(1) by (auto simp: prime_number_def)
  have "p dvd m ^ nat p - m" using fermat_nat [OF assms(1), of "nat m"] assms(2) by simp
  then have "p dvd m * (m ^ nat (p - 1) - 1)" by (simp add: p algebra_simps)
  then have "p dvd m ^ nat (p - 1) - 1"
    using prime_coprime [OF assms(1,3)] coprime_dvd_mult_right_iff by blast
  then show ?thesis using assms(1) by (simp add: prime_number_def mod_eq_dvd_iff [symmetric])
qed

section \<open>Exponents\<close>

text \<open>Exponents that agree modulo \<open>p - 1\<close> and are positive give the same power modulo \<open>p\<close>.\<close>

lemma power_mod_exponent:
  assumes "prime_number p" "0 \<le> m" "i mod nat (p - 1) = j mod nat (p - 1)" "0 < i" "0 < j"
  shows "m ^ i mod p = m ^ j mod p"
proof (cases "p dvd m")
  case True
  then have "p dvd m ^ i" "p dvd m ^ j" using assms(4,5) by (simp_all add: dvd_power_iff dvd_trans [OF True dvd_power])
  then show ?thesis by (simp add: dvd_imp_mod_0)
next
  case False
  let ?r = "nat (p - 1)"
  have "m ^ k mod p = m ^ (k mod ?r) mod p" for k
  proof -
    have "m ^ k = (m ^ ?r) ^ (k div ?r) * m ^ (k mod ?r)"
      by (simp flip: power_mult power_add)
    also have "\<dots> mod p = ((m ^ ?r mod p) ^ (k div ?r) * m ^ (k mod ?r)) mod p"
      by (metis mod_mult_left_eq power_mod)
    finally show ?thesis by (simp add: fermat [OF assms(1,2) False])
  qed
  then show ?thesis using assms(3) by metis
qed

section \<open>Two factors\<close>

lemma coprime_product_dvd:
  fixes p q :: int
  assumes "coprime p q" "p dvd x" "q dvd x"
  shows "p * q dvd x"
  using assms by (simp add: divides_mult)

lemma mod_two_factors:
  fixes p q :: int
  assumes "coprime p q" "x mod p = y mod p" "x mod q = y mod q"
  shows "x mod (p * q) = y mod (p * q)"
  using coprime_product_dvd [OF assms(1), of "x - y"] assms(2,3) by (simp add: mod_eq_dvd_iff)

end
