(* ===== verification/Rsa_Signing.thy ===== *)
theory Rsa_Signing
  imports Modular_Power "HOL-Library.Word" "HOL-Library.Signed_Division"
begin

text \<open>
  \<open>src/github/rs256.ts\<close>: RS256 signatures for runtimes without RSA. A PKCS#8 key is parsed from DER and
  checked, the digest is padded and signed with the Chinese remainder theorem. A \<open>Uint8Array\<close> is a list
  of bytes, a \<open>bigint\<close> an integer. SHA-256 is an argument.
\<close>

type_synonym bytes = "8 word list"

text \<open>The messages of the errors, after \<open>github_private_key_\<close>.\<close>

datatype key_error =
    Truncated | BadLength | NotPkcs8 | NotAlgorithm | TrailingBytes | BadVersion | NotRsa
  | InvalidKey | TooSmall

section \<open>DER\<close>

record tlv =
  tlv_tag :: "8 word"
  tlv_length :: nat
  tlv_content :: nat
  tlv_header :: nat

definition byte_at :: "bytes \<Rightarrow> nat \<Rightarrow> key_error + 8 word" where
  "byte_at bs i = (if i < length bs then Inr (bs ! i) else Inl Truncated)"

definition or_fail :: "key_error + 'a \<Rightarrow> ('a \<Rightarrow> key_error + 'b) \<Rightarrow> key_error + 'b" where
  "or_fail m f = (case m of Inl e \<Rightarrow> Inl e | Inr a \<Rightarrow> f a)"

definition check :: "bool \<Rightarrow> key_error \<Rightarrow> key_error + unit" where
  "check b e = (if b then Inr () else Inl e)"

text \<open>The long form: \<open>extra\<close> bytes, most significant first.\<close>

fun long_length :: "bytes \<Rightarrow> nat \<Rightarrow> nat \<Rightarrow> nat \<Rightarrow> key_error + nat" where
  "long_length bs offset 0 len = Inr len"
| "long_length bs offset (Suc extra) len =
     or_fail (byte_at bs offset) (\<lambda>b. long_length bs (Suc offset) extra (len * 256 + unat b))"

definition readTlv :: "bytes \<Rightarrow> nat \<Rightarrow> key_error + tlv" where
  "readTlv bs offset =
     or_fail (byte_at bs offset) (\<lambda>tag.
     or_fail (byte_at bs (offset + 1)) (\<lambda>first.
     if first = 0x80 then Inl BadLength
     else let extra = (if unat first < 128 then 0 else unat first - 128)
       in if extra > 4 then Inl BadLength
          else or_fail (if unat first < 128 then Inr (unat first) else long_length bs (offset + 2) extra 0) (\<lambda>len.
               if offset + (2 + extra) + len > length bs then Inl Truncated
               else Inr \<lparr>tlv_tag = tag, tlv_length = len, tlv_content = offset + (2 + extra), tlv_header = 2 + extra\<rparr>)))"

definition big_endian :: "bytes \<Rightarrow> int" where
  "big_endian bs = foldl (\<lambda>v b. v * 256 + uint b) 0 bs"

definition integerToBigInt :: "bytes \<Rightarrow> int" where
  "integerToBigInt bs = big_endian (if length bs > 1 \<and> hd bs = 0 then tl bs else bs)"

definition slice :: "bytes \<Rightarrow> nat \<Rightarrow> nat \<Rightarrow> bytes" where
  "slice bs from n = take n (drop from bs)"

definition TAG_INTEGER :: "8 word" where "TAG_INTEGER = 0x02"
definition TAG_OCTET_STRING :: "8 word" where "TAG_OCTET_STRING = 0x04"
definition TAG_OID :: "8 word" where "TAG_OID = 0x06"
definition TAG_SEQUENCE :: "8 word" where "TAG_SEQUENCE = 0x30"

definition RSA_ENCRYPTION_OID :: bytes where
  "RSA_ENCRYPTION_OID = [0x2a, 0x86, 0x48, 0x86, 0xf7, 0x0d, 0x01, 0x01, 0x01]"

definition expect :: "bytes \<Rightarrow> nat \<Rightarrow> 8 word \<Rightarrow> key_error \<Rightarrow> (tlv \<Rightarrow> key_error + 'a) \<Rightarrow> key_error + 'a" where
  "expect bs offset tag e f = or_fail (readTlv bs offset) (\<lambda>t. or_fail (check (tlv_tag t = tag) e) (\<lambda>_. f t))"

definition content_of :: "bytes \<Rightarrow> tlv \<Rightarrow> bytes" where
  "content_of bs t = slice bs (tlv_content t) (tlv_length t)"

fun read_integers :: "bytes \<Rightarrow> nat \<Rightarrow> nat \<Rightarrow> key_error + int list" where
  "read_integers bs cursor 0 = Inr []"
| "read_integers bs cursor (Suc k) = expect bs cursor TAG_INTEGER NotRsa (\<lambda>t.
     or_fail (read_integers bs (cursor + (tlv_header t + tlv_length t)) k) (\<lambda>vs.
     Inr (integerToBigInt (content_of bs t) # vs)))"

section \<open>Keys\<close>

record rsa_key =
  rk_modulusLength :: nat
  rk_n :: int
  rk_d :: int
  rk_p :: int
  rk_q :: int
  rk_dp :: int
  rk_dq :: int
  rk_qInv :: int

text \<open>The digits of \<open>n.toString(16)\<close>.\<close>

function hex_digits :: "int \<Rightarrow> int list" where
  "hex_digits n = (if n < 16 then [n] else hex_digits (n div 16) @ [n mod 16])"
  by pat_completeness auto
termination by (relation "measure nat") auto

declare hex_digits.simps [simp del]

definition check_key :: "int list \<Rightarrow> key_error + rsa_key" where
  "check_key vs = (case vs of
     [version, n, e, d, p, q, dp, dq, qInv] \<Rightarrow>
       if version \<noteq> 0 then Inl BadVersion
       else if n \<le> 0 \<or> d \<le> 0 \<or> p \<le> 1 \<or> q \<le> 1 then Inl InvalidKey
       else if p * q \<noteq> n then Inl InvalidKey
       else if dp \<noteq> d smod (p - 1) \<or> dq \<noteq> d smod (q - 1) then Inl InvalidKey
       else if (qInv * q) smod p \<noteq> 1 then Inl InvalidKey
       else Inr \<lparr>rk_modulusLength = (length (hex_digits n) + 1) div 2, rk_n = n, rk_d = d, rk_p = p, rk_q = q,
              rk_dp = dp, rk_dq = dq, rk_qInv = qInv\<rparr>
   | _ \<Rightarrow> Inl InvalidKey)"

definition parsePkcs8RsaPrivateKey :: "bytes \<Rightarrow> key_error + rsa_key" where
  "parsePkcs8RsaPrivateKey der =
     expect der 0 TAG_SEQUENCE NotPkcs8 (\<lambda>pkcs8.
     or_fail (check (tlv_length pkcs8 = length der - tlv_header pkcs8) TrailingBytes) (\<lambda>_.
     expect der (tlv_content pkcs8) TAG_INTEGER NotPkcs8 (\<lambda>version.
     or_fail (check (content_of der version = [0]) BadVersion) (\<lambda>_.
     let offset = tlv_content pkcs8 + (tlv_header version + tlv_length version) in
     expect der offset TAG_SEQUENCE NotAlgorithm (\<lambda>algorithm.
     expect der (tlv_content algorithm) TAG_OID NotAlgorithm (\<lambda>oid.
     or_fail (check (content_of der oid = RSA_ENCRYPTION_OID) NotRsa) (\<lambda>_.
     expect der (offset + (tlv_header algorithm + tlv_length algorithm)) TAG_OCTET_STRING NotPkcs8 (\<lambda>privateKey.
     expect der (tlv_content privateKey) TAG_SEQUENCE NotRsa (\<lambda>rsa.
     or_fail (read_integers der (tlv_content rsa) 9) check_key)))))))))"

section \<open>Signing\<close>

function modPow_loop :: "int \<Rightarrow> int \<Rightarrow> int \<Rightarrow> int \<Rightarrow> int" where
  "modPow_loop modulus result factor e =
     (if e \<le> 0 then result
      else modPow_loop modulus (if e mod 2 = 1 then (result * factor) smod modulus else result)
             ((factor * factor) smod modulus) (e div 2))"
  by pat_completeness auto
termination by (relation "measure (\<lambda>(modulus, result, factor, e). nat e)") auto

declare modPow_loop.simps [simp del]

definition modPow :: "int \<Rightarrow> int \<Rightarrow> int \<Rightarrow> int" where
  "modPow base exponent modulus = modPow_loop modulus 1 (base smod modulus) exponent"

text \<open>In decimal: the DER prefix of a 32-byte SHA-256 digest, with the object identifier of the hash.\<close>

definition SHA256_DIGEST_INFO :: bytes where
  "SHA256_DIGEST_INFO =
     [48, 49, 48, 13, 6, 9, 96, 134, 72, 1] @ [101, 3, 4, 2, 1] @ [5, 0, 4, 32]"

text \<open>EMSA-PKCS1-v1_5: \<open>0x00 0x01 0xFF...0xFF 0x00 || T\<close>.\<close>

definition padded_digest :: "nat \<Rightarrow> bytes \<Rightarrow> bytes" where
  "padded_digest k t = 0 # 1 # replicate (k - length t - 3) 0xFF @ 0 # t"

text \<open>Garner's combination.\<close>

definition crt_sign :: "rsa_key \<Rightarrow> int \<Rightarrow> int" where
  "crt_sign key message =
     (let m1 = modPow (message smod rk_p key) (rk_dp key) (rk_p key);
          m2 = modPow (message smod rk_q key) (rk_dq key) (rk_q key);
          r = (m1 - m2) smod rk_p key;
          h = (if r < 0 then r + rk_p key else r)
      in m2 + rk_q key * ((rk_qInv key * h) smod rk_p key))"

text \<open>\<open>toString(16).padStart(2 * k, "0")\<close>, two digits to a byte.\<close>

definition fixed_length :: "nat \<Rightarrow> int \<Rightarrow> bytes" where
  "fixed_length k v =
     (let ds = hex_digits v; hex = replicate (2 * k - length ds) 0 @ ds
      in map (\<lambda>i. word_of_int (16 * hex ! (2 * i) + hex ! (2 * i + 1))) [0..<k])"

definition signRs256Pkcs8 :: "(bytes \<Rightarrow> bytes) \<Rightarrow> bytes \<Rightarrow> bytes \<Rightarrow> key_error + bytes" where
  "signRs256Pkcs8 sha256 der data =
     or_fail (parsePkcs8RsaPrivateKey der) (\<lambda>key.
       let t = SHA256_DIGEST_INFO @ sha256 data; k = rk_modulusLength key
       in if int k - int (length t) - 3 < 8 then Inl TooSmall
          else Inr (fixed_length k (crt_sign key (integerToBigInt (padded_digest k t)))))"

section \<open>Modular exponentiation\<close>

lemma nat_halves:
  assumes "0 < (e::int)"
  shows "nat e = (if e mod 2 = 1 then Suc (2 * nat (e div 2)) else 2 * nat (e div 2))"
proof -
  obtain n where e: "e = int n" using assms by (metis less_imp_le nonneg_int_cases)
  have half: "nat (int n div 2) = n div 2" by (simp add: nat_div_distrib)
  have odd: "int n mod 2 = 1 \<longleftrightarrow> n mod 2 = 1" by presburger
  show ?thesis unfolding e nat_int half odd by presburger
qed

lemma modPow_loop_power:
  assumes "1 < m" "0 \<le> r" "r < m" "0 \<le> f" "0 \<le> e"
  shows "modPow_loop m r f e = r * f ^ nat e mod m"
  using assms
proof (induction m r f e rule: modPow_loop.induct)
  case (1 m r f e)
  show ?case
  proof (cases "e \<le> 0")
    case True
    then show ?thesis using 1 by (subst modPow_loop.simps) simp
  next
    case False
    define r' where "r' = (if e mod 2 = 1 then (r * f) smod m else r)"
    define f' where "f' = (f * f) smod m"
    have nonneg: "0 \<le> r * f" "0 \<le> f * f" using 1 by simp_all
    have mods: "(r * f) smod m = r * f mod m" "f' = f * f mod m"
      using nonneg 1 by (simp_all add: f'_def smod_mod_positive)
    have r': "0 \<le> r'" "r' < m" using 1 mods by (auto simp: r'_def)
    have f': "0 \<le> f'" using mods 1 by simp
    have "modPow_loop m r f e = modPow_loop m r' f' (e div 2)"
      using False by (subst modPow_loop.simps) (simp add: r'_def f'_def)
    also have "\<dots> = r' * f' ^ nat (e div 2) mod m"
      using "1.IH" [OF False] 1 r' f' by (simp add: r'_def f'_def)
    also have "\<dots> = r' * (f * f) ^ nat (e div 2) mod m"
      by (metis mods(2) power_mod mod_mult_right_eq)
    also have "\<dots> = r * f ^ nat e mod m"
    proof (cases "e mod 2 = 1")
      case True
      have "nat e = Suc (2 * nat (e div 2))" using nat_halves [of e] True False by simp
      then have "f ^ nat e = f * (f * f) ^ nat (e div 2)" by (simp add: power_mult power2_eq_square)
      moreover have "r' * (f * f) ^ nat (e div 2) mod m = (r * f) * (f * f) ^ nat (e div 2) mod m"
        using True mods by (simp add: r'_def mod_mult_left_eq)
      ultimately show ?thesis by (simp add: mult.assoc)
    next
      case odd: False
      have "nat e = 2 * nat (e div 2)" using nat_halves [of e] odd False by simp
      then have "f ^ nat e = (f * f) ^ nat (e div 2)" by (metis power_mult power2_eq_square)
      then show ?thesis using odd by (simp add: r'_def)
    qed
    finally show ?thesis .
  qed
qed

lemma modPow_power:
  assumes "1 < m" "0 \<le> b" "0 \<le> e"
  shows "modPow b e m = b ^ nat e mod m"
  using assms by (simp add: modPow_def smod_mod_positive modPow_loop_power power_mod)

section \<open>The Chinese remainder theorem\<close>

definition key_ok :: "rsa_key \<Rightarrow> bool" where
  "key_ok k \<longleftrightarrow> 0 < rk_d k \<and> 1 < rk_p k \<and> 1 < rk_q k \<and> rk_n k = rk_p k * rk_q k \<and>
     rk_dp k = rk_d k mod (rk_p k - 1) \<and> rk_dq k = rk_d k mod (rk_q k - 1) \<and>
     rk_qInv k * rk_q k mod rk_p k = 1 \<and> 0 \<le> rk_qInv k \<and>
     rk_modulusLength k = (length (hex_digits (rk_n k)) + 1) div 2"

lemma crt_sign_residues:
  assumes "key_ok k" "0 \<le> m"
  shows "crt_sign k m mod rk_p k = m ^ nat (rk_dp k) mod rk_p k"
    and "crt_sign k m mod rk_q k = m ^ nat (rk_dq k) mod rk_q k"
    and "0 \<le> crt_sign k m" "crt_sign k m < rk_n k"
proof -
  define p q i where "p = rk_p k" "q = rk_q k" "i = rk_qInv k"
  note k = assms(1) [unfolded key_ok_def, folded p_q_i_def]
  define m1 m2 where "m1 = m ^ nat (rk_dp k) mod p" "m2 = m ^ nat (rk_dq k) mod q"
  define h where "h = (m1 - m2) mod p"
  have pow: "modPow (m smod p) (rk_dp k) p = m1" "modPow (m smod q) (rk_dq k) q = m2"
    using k assms(2) by (simp_all add: modPow_power smod_mod_positive m1_m2_def power_mod)
  have rem: "(let r = (m1 - m2) smod p in if r < 0 then r + p else r) = h"
  proof -
    have "(m1 - m2) smod p mod p = h" "- p < (m1 - m2) smod p" "(m1 - m2) smod p < p"
      using k smod_int_range [of p "m1 - m2"] by (auto simp: h_def signed_modulo_int_eq_modulo_int)
    then show ?thesis by (smt (verit) mod_add_self2 mod_pos_pos_trivial Let_def)
  qed
  have "0 \<le> h" using k by (simp add: h_def)
  then have hi: "(i * h) smod p = i * h mod p" using k by (simp add: smod_mod_positive)
  have sign: "crt_sign k m = m2 + q * (i * h mod p)"
    by (simp only: crt_sign_def Let_def pow rem [unfolded Let_def] hi flip: p_q_i_def)
  have m2: "0 \<le> m2" "m2 < q" using k by (simp_all add: m1_m2_def)
  have t: "0 \<le> i * h mod p" "i * h mod p \<le> p - 1" using k pos_mod_bound [of p "i * h"] by simp_all
  show "0 \<le> crt_sign k m" using sign m2 t k by simp
  have "q * (i * h mod p) \<le> q * (p - 1)" using t k by (intro mult_left_mono) simp_all
  then show "crt_sign k m < rk_n k" using sign m2 k by (simp add: algebra_simps)
  show "crt_sign k m mod rk_q k = m ^ nat (rk_dq k) mod rk_q k"
    using sign m2 by (simp add: m1_m2_def flip: p_q_i_def)
  have "q * (i * h mod p) mod p = (i * q mod p) * h mod p"
    by (metis mod_mult_left_eq mod_mult_right_eq mult.assoc mult.commute)
  then have "q * (i * h mod p) mod p = h mod p" using k by simp
  then have "crt_sign k m mod p = (m2 + h) mod p" unfolding sign by (metis mod_add_right_eq)
  also have "\<dots> = m1 mod p" by (simp add: h_def mod_add_right_eq)
  finally show "crt_sign k m mod rk_p k = m ^ nat (rk_dp k) mod rk_p k"
    by (simp add: m1_m2_def flip: p_q_i_def)
qed

lemma key_coprime:
  assumes "key_ok k"
  shows "coprime (rk_p k) (rk_q k)"
proof (rule coprimeI)
  fix c assume "c dvd rk_p k" "c dvd rk_q k"
  then have "c dvd rk_qInv k * rk_q k mod rk_p k" by (simp add: dvd_mod_iff)
  then show "is_unit c" using assms by (simp add: key_ok_def)
qed

text \<open>With an inverse of the exponent the reduced exponents are positive.\<close>

lemma reduced_exponent:
  assumes "1 < p" "0 < (d::int)" "e * d mod (p - 1) = 1"
  shows "0 < d mod (p - 1)" "2 < p"
proof -
  show p: "2 < p" using assms by (cases "p = 2") auto
  have "d mod (p - 1) \<noteq> 0" using assms(3) by (metis dvd_eq_mod_eq_0 dvd_mult mod_0_imp_dvd zero_neq_one)
  moreover have "0 \<le> d mod (p - 1)" using p by simp
  ultimately show "0 < d mod (p - 1)" by linarith
qed

lemma power_reduced:
  assumes "prime_number p" "0 \<le> m" "0 < d" "e * d mod (p - 1) = 1"
  shows "m ^ nat (d mod (p - 1)) mod p = m ^ nat d mod p"
proof (rule power_mod_exponent [OF assms(1,2)])
  have p: "1 < p" using assms(1) by (simp add: prime_number_def)
  note red = reduced_exponent [OF p assms(3,4)]
  show "nat (d mod (p - 1)) mod nat (p - 1) = nat d mod nat (p - 1)"
    using red assms(3) by (simp add: nat_mod_distrib)
qed (use reduced_exponent assms prime_number_def in auto)

lemma power_inverse:
  assumes "prime_number p" "0 \<le> m" "0 < d" "0 < e" "e * d mod (p - 1) = 1"
  shows "(m ^ nat d) ^ nat e mod p = m mod p"
proof -
  have p: "1 < p" using assms(1) by (simp add: prime_number_def)
  note red = reduced_exponent [OF p assms(3,5)]
  have "nat (d * e) mod nat (p - 1) = 1 mod nat (p - 1)"
    using assms red by (simp add: nat_mod_distrib [symmetric] mult.commute)
  then have "m ^ nat (d * e) mod p = m ^ 1 mod p"
    by (rule power_mod_exponent [OF assms(1,2)]) (use assms in simp_all)
  then show ?thesis using assms by (simp add: nat_mult_distrib power_mult)
qed

section \<open>Bytes and digits\<close>

lemma big_endian_Nil [simp]: "big_endian [] = 0"
  by (simp add: big_endian_def)

lemma big_endian_snoc [simp]: "big_endian (bs @ [b]) = big_endian bs * 256 + uint b"
  by (simp add: big_endian_def)

lemma big_endian_zero [simp]: "big_endian (0 # bs) = big_endian bs"
  by (simp add: big_endian_def)

lemma big_endian_bounds: "0 \<le> big_endian bs" "big_endian bs < 256 ^ length bs"
proof (induction bs rule: rev_induct)
  case (snoc b bs)
  have b: "0 \<le> uint b" "uint b < 256" using uint_lt2p [of b] by simp_all
  {
    case 1
    then show ?case using snoc.IH(1) b by simp
  next
    case 2
    then show ?case using snoc.IH(2) b by simp
  }
qed simp_all

lemma integerToBigInt_value: "integerToBigInt bs = big_endian bs"
  by (cases bs) (auto simp: integerToBigInt_def)

definition hex_value :: "int list \<Rightarrow> int" where
  "hex_value ds = foldl (\<lambda>v d. v * 16 + d) 0 ds"

lemma hex_value_snoc [simp]: "hex_value (ds @ [d]) = hex_value ds * 16 + d"
  by (simp add: hex_value_def)

lemma hex_value_zeros [simp]: "hex_value (replicate j 0 @ ds) = hex_value ds"
  by (induction j) (simp_all add: hex_value_def)

lemma sixteenths:
  "(x::int) \<le> n div 16 \<Longrightarrow> 16 * x \<le> n" "n div 16 < 16 * x \<Longrightarrow> n < 16 * (16 * x)"
  by linarith+

lemma hex_digits_facts:
  assumes "0 \<le> n"
  shows "hex_value (hex_digits n) = n" "\<forall>x \<in> set (hex_digits n). 0 \<le> x \<and> x < 16"
    "hex_digits n \<noteq> []" "0 < n \<Longrightarrow> 16 ^ (length (hex_digits n) - 1) \<le> n"
    "n < 16 ^ length (hex_digits n)"
proof -
  have "hex_value (hex_digits n) = n \<and> (\<forall>x \<in> set (hex_digits n). 0 \<le> x \<and> x < 16) \<and> hex_digits n \<noteq> [] \<and>
      (0 < n \<longrightarrow> 16 ^ (length (hex_digits n) - 1) \<le> n) \<and> n < 16 ^ length (hex_digits n)"
    using assms
  proof (induction n rule: hex_digits.induct)
    case (1 n)
    show ?case
    proof (cases "n < 16")
      case True
      then have "hex_digits n = [n]" by (subst hex_digits.simps) simp
      then show ?thesis using 1(2) True by (simp add: hex_value_def)
    next
      case False
      then have pos: "0 \<le> n div 16" "0 < n div 16" by linarith+
      then have IH: "hex_value (hex_digits (n div 16)) = n div 16"
        "\<forall>x \<in> set (hex_digits (n div 16)). 0 \<le> x \<and> x < 16" "hex_digits (n div 16) \<noteq> []"
        "16 ^ (length (hex_digits (n div 16)) - 1) \<le> n div 16" "n div 16 < 16 ^ length (hex_digits (n div 16))"
        using "1.IH" [OF False pos(1)] pos(2) by blast+
      have ds: "hex_digits n = hex_digits (n div 16) @ [n mod 16]" using False by (subst hex_digits.simps) simp
      obtain l where l: "length (hex_digits (n div 16)) = Suc l" using IH(3) by (cases "hex_digits (n div 16)") auto
      have "16 ^ l \<le> n div 16" "n div 16 < 16 ^ Suc l" using IH(4,5) by (simp_all only: l diff_Suc_1)
      then have "16 ^ Suc l \<le> n" "n < 16 ^ Suc (Suc l)"
        using sixteenths [of "16 ^ l" n] by (simp_all only: power_Suc)
      moreover have "length (hex_digits n) = Suc (Suc l)" by (simp add: ds l)
      moreover have "hex_value (hex_digits n) = n" by (simp only: ds hex_value_snoc IH(1)) simp
      moreover have "\<forall>x \<in> set (hex_digits n). 0 \<le> x \<and> x < 16" using IH(2) unfolding ds by simp
      moreover have "hex_digits n \<noteq> []" by (simp add: ds)
      ultimately show ?thesis by simp
    qed
  qed
  then show "hex_value (hex_digits n) = n" "\<forall>x \<in> set (hex_digits n). 0 \<le> x \<and> x < 16"
    "hex_digits n \<noteq> []" "0 < n \<Longrightarrow> 16 ^ (length (hex_digits n) - 1) \<le> n"
    "n < 16 ^ length (hex_digits n)" by auto
qed

lemma uint_byte: "0 \<le> x \<Longrightarrow> x < 256 \<Longrightarrow> uint (word_of_int x :: 8 word) = x"
  by (simp add: uint_word_of_int)

lemma paired_value:
  assumes "2 * k \<le> length ds" "\<forall>x \<in> set ds. 0 \<le> x \<and> x < 16"
  shows "big_endian (map (\<lambda>i. word_of_int (16 * ds ! (2 * i) + ds ! (2 * i + 1))) [0..<k]) = hex_value (take (2 * k) ds)"
  using assms(1)
proof (induction k)
  case 0
  then show ?case by (simp add: hex_value_def)
next
  case (Suc k)
  have "take (2 * Suc k) ds = (take (2 * k) ds @ [ds ! (2 * k)]) @ [ds ! (2 * k + 1)]"
    using Suc.prems by (simp add: take_Suc_conv_app_nth)
  then have whole: "hex_value (take (2 * Suc k) ds) = (hex_value (take (2 * k) ds) * 16 + ds ! (2 * k)) * 16 + ds ! (2 * k + 1)"
    by (simp only: hex_value_snoc)
  have "0 \<le> ds ! (2 * k)" "ds ! (2 * k) < 16" "0 \<le> ds ! (2 * k + 1)" "ds ! (2 * k + 1) < 16"
    using Suc.prems assms(2) by (simp_all add: nth_mem)
  then have "uint (word_of_int (16 * ds ! (2 * k) + ds ! (2 * k + 1)) :: 8 word) = 16 * ds ! (2 * k) + ds ! (2 * k + 1)"
    by (intro uint_byte) simp_all
  then show ?case using Suc whole by simp
qed

lemma fixed_length_facts:
  assumes "0 \<le> v" "v < 256 ^ k" "0 < k"
  shows "length (fixed_length k v) = k" "big_endian (fixed_length k v) = v"
proof -
  note hex = hex_digits_facts [OF assms(1)]
  have "(16::int) ^ (length (hex_digits v) - 1) < 16 ^ (2 * k)" if "0 < v"
    using hex(4) [OF that] assms(2) by (simp add: power_mult)
  then have short: "length (hex_digits v) \<le> 2 * k"
  proof (cases "0 < v")
    case False
    then show ?thesis using assms by (subst hex_digits.simps) simp
  qed (use power_less_imp_less_exp [of 16 "length (hex_digits v) - 1" "2 * k"] in auto)
  define ds where "ds = replicate (2 * k - length (hex_digits v)) 0 @ hex_digits v"
  have ds: "length ds = 2 * k" "\<forall>x \<in> set ds. 0 \<le> x \<and> x < 16" "hex_value ds = v"
    using short hex by (auto simp: ds_def)
  have digits: "fixed_length k v = map (\<lambda>i. word_of_int (16 * ds ! (2 * i) + ds ! (2 * i + 1))) [0..<k]"
    by (simp only: fixed_length_def ds_def Let_def)
  then show "length (fixed_length k v) = k" by simp
  show "big_endian (fixed_length k v) = v" using paired_value [of k ds] ds digits by simp
qed

text \<open>A modulus of \<open>k\<close> bytes has a leading byte that is not zero.\<close>

lemma modulus_bounds:
  assumes "key_ok key"
  shows "256 ^ (rk_modulusLength key - 1) \<le> rk_n key" "rk_n key < 256 ^ rk_modulusLength key" "0 < rk_modulusLength key"
proof -
  have n: "0 < rk_n key" using assms by (simp add: key_ok_def)
  define l where "l = length (hex_digits (rk_n key))"
  have k: "rk_modulusLength key = (l + 1) div 2" using assms by (simp add: key_ok_def l_def)
  have l: "16 ^ (l - 1) \<le> rk_n key" "rk_n key < 16 ^ l" "0 < l"
    using hex_digits_facts [of "rk_n key"] n by (auto simp: l_def)
  have "(256::int) ^ (rk_modulusLength key - 1) = 16 ^ (2 * (rk_modulusLength key - 1))" by (simp add: power_mult)
  also have "\<dots> \<le> 16 ^ (l - 1)" by (rule power_increasing) (simp_all add: k)
  finally show "256 ^ (rk_modulusLength key - 1) \<le> rk_n key" using l by simp
  have "(16::int) ^ l \<le> 16 ^ (2 * rk_modulusLength key)" by (rule power_increasing) (simp_all add: k)
  then show "rk_n key < 256 ^ rk_modulusLength key" using l by (simp add: power_mult)
  show "0 < rk_modulusLength key" using l k by simp
qed

section \<open>Accepted keys\<close>

lemma check_key_accepts:
  assumes "check_key vs = Inr key" "\<forall>x \<in> set vs. 0 \<le> x"
  shows "key_ok key"
proof -
  obtain version n e d p q dp dq qInv where vs: "vs = [version, n, e, d, p, q, dp, dq, qInv]"
    using assms(1) by (auto simp: check_key_def split: list.splits)
  show ?thesis
    using assms unfolding vs by (auto simp: check_key_def key_ok_def smod_mod_positive split: if_splits)
qed

lemma read_integers_nonneg: "read_integers bs c k = Inr vs \<Longrightarrow> \<forall>x \<in> set vs. 0 \<le> x"
  by (induction bs c k arbitrary: vs rule: read_integers.induct)
    (auto simp: expect_def or_fail_def integerToBigInt_value big_endian_bounds split: sum.splits)

lemma parse_accepts:
  assumes "parsePkcs8RsaPrivateKey der = Inr key"
  shows "key_ok key"
proof -
  obtain c vs where "read_integers der c 9 = Inr vs" "check_key vs = Inr key"
    using assms by (auto simp: parsePkcs8RsaPrivateKey_def expect_def or_fail_def Let_def split: sum.splits)
  then show ?thesis using check_key_accepts read_integers_nonneg by blast
qed

section \<open>Signatures\<close>

lemma signature_verifies:
  assumes "key_ok key" "prime_number (rk_p key)" "prime_number (rk_q key)" "0 < e"
    "e * rk_d key mod (rk_p key - 1) = 1" "e * rk_d key mod (rk_q key - 1) = 1"
    "0 \<le> m" "m < rk_n key"
  shows "crt_sign key m = m ^ nat (rk_d key) mod rk_n key" "crt_sign key m ^ nat e mod rk_n key = m"
proof -
  define s where "s = crt_sign key m"
  have d: "0 < rk_d key" and n: "rk_n key = rk_p key * rk_q key"
    and red: "rk_dp key = rk_d key mod (rk_p key - 1)" "rk_dq key = rk_d key mod (rk_q key - 1)"
    using assms(1) by (simp_all add: key_ok_def)
  note res = crt_sign_residues [OF assms(1,7)]
  have p: "s mod rk_p key = m ^ nat (rk_d key) mod rk_p key"
    using res(1) power_reduced [OF assms(2,7) d assms(5)] red by (simp add: s_def)
  have q: "s mod rk_q key = m ^ nat (rk_d key) mod rk_q key"
    using res(2) power_reduced [OF assms(3,7) d assms(6)] red by (simp add: s_def)
  note both = mod_two_factors [OF key_coprime [OF assms(1)], folded n]
  have "s mod rk_n key = m ^ nat (rk_d key) mod rk_n key" using p q by (rule both)
  then show "crt_sign key m = m ^ nat (rk_d key) mod rk_n key" using res(3,4) by (simp add: s_def)
  have "s ^ nat e mod rk_p key = m mod rk_p key"
    using p power_inverse [OF assms(2,7) d assms(4,5)] by (metis power_mod)
  moreover have "s ^ nat e mod rk_q key = m mod rk_q key"
    using q power_inverse [OF assms(3,7) d assms(4,6)] by (metis power_mod)
  ultimately have "s ^ nat e mod rk_n key = m mod rk_n key" by (rule both)
  then show "crt_sign key m ^ nat e mod rk_n key = m" using assms(7,8) by (simp add: s_def)
qed

text \<open>The padded message starts with a zero byte and so is below the modulus.\<close>

lemma padded_digest_bounds:
  assumes "key_ok key" "length t + 11 \<le> rk_modulusLength key"
  shows "length (padded_digest (rk_modulusLength key) t) = rk_modulusLength key"
    "0 \<le> integerToBigInt (padded_digest (rk_modulusLength key) t)"
    "integerToBigInt (padded_digest (rk_modulusLength key) t) < rk_n key"
proof -
  define rest where "rest = 1 # replicate (rk_modulusLength key - length t - 3) 0xFF @ 0 # t"
  have em: "padded_digest (rk_modulusLength key) t = 0 # rest" by (simp add: padded_digest_def rest_def)
  have rest: "length rest = rk_modulusLength key - 1" using assms(2) by (simp add: rest_def)
  show "length (padded_digest (rk_modulusLength key) t) = rk_modulusLength key" using assms(2) rest by (simp add: em)
  show "0 \<le> integerToBigInt (padded_digest (rk_modulusLength key) t)"
    by (simp add: integerToBigInt_value big_endian_bounds)
  show "integerToBigInt (padded_digest (rk_modulusLength key) t) < rk_n key"
    using big_endian_bounds(2) [of rest] modulus_bounds(1) [OF assms(1)]
    by (simp add: em rest integerToBigInt_value)
qed

lemma signRs256_verifies:
  assumes "signRs256Pkcs8 sha256 der data = Inr sig" "parsePkcs8RsaPrivateKey der = Inr key"
    "prime_number (rk_p key)" "prime_number (rk_q key)" "0 < e"
    "e * rk_d key mod (rk_p key - 1) = 1" "e * rk_d key mod (rk_q key - 1) = 1"
  shows "length sig = rk_modulusLength key"
    "big_endian sig ^ nat e mod rk_n key =
       big_endian (padded_digest (rk_modulusLength key) (SHA256_DIGEST_INFO @ sha256 data))"
proof -
  define t where "t = SHA256_DIGEST_INFO @ sha256 data"
  define m where "m = integerToBigInt (padded_digest (rk_modulusLength key) t)"
  have long: "length t + 11 \<le> rk_modulusLength key" and sig: "sig = fixed_length (rk_modulusLength key) (crt_sign key m)"
    using assms(1,2) by (auto simp: signRs256Pkcs8_def or_fail_def Let_def t_def m_def split: if_splits)
  have ok: "key_ok key" using assms(2) by (rule parse_accepts)
  note m = padded_digest_bounds(2,3) [OF ok long, folded m_def]
  note res = crt_sign_residues(3,4) [OF ok m(1)]
  note fixed = fixed_length_facts [OF res(1) _ modulus_bounds(3) [OF ok]]
  have "crt_sign key m < 256 ^ rk_modulusLength key" using res(2) modulus_bounds(2) [OF ok] by simp
  note bytes = fixed [OF this, folded sig]
  show "length sig = rk_modulusLength key" by (rule bytes(1))
  show "big_endian sig ^ nat e mod rk_n key =
      big_endian (padded_digest (rk_modulusLength key) (SHA256_DIGEST_INFO @ sha256 data))"
    unfolding bytes(2) signature_verifies(2) [OF ok assms(3-7) m]
    by (simp add: m_def t_def integerToBigInt_value)
qed

text \<open>C24: the signature of an accepted key verifies. For every key whose integers pass the checks of the
  parser, with prime factors and a public exponent that inverts the private one, the signature of a message
  below the modulus, written on exactly the modulus's length of bytes (a leading zero is kept), reads back as
  the number that the public exponent takes to the message: the combination of the two half-size powers is
  the full private power. No other bytes can come out of a corrupt factorisation, since the parser refuses one.\<close>

theorem rs256_signature_verifies:
  assumes "check_key vs = Inr key" "\<forall>x \<in> set vs. 0 \<le> x"
    "prime_number (rk_p key)" "prime_number (rk_q key)" "0 < e"
    "e * rk_d key mod (rk_p key - 1) = 1" "e * rk_d key mod (rk_q key - 1) = 1"
    "0 \<le> m" "m < rk_n key"
  shows "length (fixed_length (rk_modulusLength key) (crt_sign key m)) = rk_modulusLength key \<and>
    big_endian (fixed_length (rk_modulusLength key) (crt_sign key m)) = m ^ nat (rk_d key) mod rk_n key \<and>
    big_endian (fixed_length (rk_modulusLength key) (crt_sign key m)) ^ nat e mod rk_n key = m"
proof -
  have ok: "key_ok key" using assms(1,2) by (rule check_key_accepts)
  note res = crt_sign_residues(3,4) [OF ok assms(8)]
  have "crt_sign key m < 256 ^ rk_modulusLength key" using res(2) modulus_bounds(2) [OF ok] by simp
  note bytes = fixed_length_facts [OF res(1) this modulus_bounds(3) [OF ok]]
  show ?thesis using bytes signature_verifies [OF ok assms(3-9)] by simp
qed

lemma prime_number_check:
  assumes "1 < p" "list_all (\<lambda>m::int. p mod m \<noteq> 0) [2..p - 1]"
  shows "prime_number p"
proof -
  have "m = 1 \<or> m = p" if "0 < m" "m dvd p" for m :: int
  proof (rule ccontr)
    assume "\<not> (m = 1 \<or> m = p)"
    moreover have "m \<le> p" using that assms(1) by (intro zdvd_imp_le) simp_all
    ultimately have "m \<in> set [2..p - 1]" using that by auto
    then have "p mod m \<noteq> 0" using assms(2) unfolding list_all_iff by (rule bspec [rotated])
    then show False using that(2) by (simp add: dvd_eq_mod_eq_0)
  qed
  then show ?thesis using assms(1) by (simp add: prime_number_def)
qed

lemma rs256_signature_verifies_witness:
  "\<exists>key. check_key [0, 33, 3, 7, 3, 11, 1, 7, 2] = Inr key \<and>
     big_endian (fixed_length (rk_modulusLength key) (crt_sign key 2)) = 29 \<and>
     big_endian (fixed_length (rk_modulusLength key) (crt_sign key 2)) ^ 3 mod 33 = 2"
proof -
  define key where "key = \<lparr>rk_modulusLength = 1, rk_n = 33, rk_d = 7, rk_p = 3, rk_q = 11, rk_dp = 1, rk_dq = 7, rk_qInv = 2\<rparr>"
  have accepted: "check_key [0, 33, 3, 7, 3, 11, 1, 7, 2] = Inr key" unfolding key_def by code_simp
  have primes: "prime_number 3" "prime_number 11" by (rule prime_number_check; code_simp)+
  have "big_endian (fixed_length (rk_modulusLength key) (crt_sign key 2)) = 2 ^ nat (rk_d key) mod rk_n key \<and>
      big_endian (fixed_length (rk_modulusLength key) (crt_sign key 2)) ^ nat 3 mod rk_n key = 2"
    using rs256_signature_verifies [OF accepted, of 3 2] primes by (simp add: key_def)
  then show ?thesis using accepted by (auto simp: key_def)
qed

end
