(* ===== verification/Spec2Isabelle.thy ===== *)
theory Spec2Isabelle
  imports Alarm_Liveness Fake_Commands Work_Sweep Container_Ledger File_Service Sandbox_Probes Automata_Firing Output_Slices Push_Completion Artifact_Serving Rsa_Signing
begin

text \<open>
  Nadi: a multi-user coding-agent service on Cloudflare Workers. Every conversation (a \<^emph>\<open>thread\<close>) is a
  Durable Object with its own SQLite storage; it runs model turns, keeps a sandbox with a workspace
  alive, watches processes in it, and reports what finished. D1 tables shared by all threads hold the
  workspaces' state: containers, automata and their runs. This development models the parts of
  \<open>src/\<close> that carry that logic and proves what makes them correct.

  \<^bold>\<open>Parts and theories.\<close>
  \<^item> \<open>Prelude\<close>: tables as lists of rows with the SQL statements the sources run, optional times,
    decimal rendering. \<open>Strings\<close>: splitting, joining, trimming, UTF-8 decoding.
  \<^item> \<open>Watchers\<close> (\<open>compute/watchers.ts\<close>), \<open>Work_Ledger\<close> (\<open>agent/work-ledger.ts\<close>) and
    \<open>Work_Ledger_Store\<close> (\<open>agent/work-ledger-store.ts\<close>): the ledger of background work, its
    classification by liveness and its table. A \<open>work_row\<close> is opened by \<open>register\<close>, kept alive by the
    stamps, closed once by \<open>terminalize\<close> and told to the model once by \<open>markDelivered\<close>.
  \<^item> \<open>Injection_Buffer\<close> (\<open>agent/injection-buffer.ts\<close>, \<open>agent/injection-router.ts\<close>): the queue of messages
    for the next turn, durable and in memory, and the drain that submits it.
  \<^item> \<open>Work_Sweep\<close> (\<open>runWorkLedgerSweep\<close> and its callees in \<open>agent/think-thread-agent.ts\<close>,
    \<open>agent/system-reminder.ts\<close>): the reaper tick that composes the three parts above.
  \<^item> \<open>Container_Ledger\<close> (\<open>compute/container-ledger.ts\<close>, \<open>compute/container-quota.ts\<close>): leases on live
    containers and the admission gate with its reclaim loop of at most 3 candidates.
  \<^item> \<open>Compute_Backend\<close> (\<open>compute/errors.ts\<close>, \<open>compute/backend.ts\<close>): the provider contract, as a record of
    file operations and the locales \<open>compute_files\<close> and \<open>file_backend\<close>. \<open>Fake_Backend\<close>
    (\<open>compute/backends/fake.ts\<close>): the in-memory provider, which interprets the locales.
  \<^item> \<open>Workspace_Paths\<close> (\<open>compute/files/path.ts\<close>, \<open>text.ts\<close>), \<open>Patch\<close> (\<open>compute/files/patch.ts\<close>) and
    \<open>File_Service\<close> (\<open>compute/file-service.ts\<close>): the model's file tools.
  \<^item> \<open>Sandbox_Probes\<close> (\<open>compute/generation.ts\<close>, \<open>compute/workspace-cleanliness.ts\<close>): whether the container
    was reset, and whether its workspace may be discarded.
  \<^item> \<open>Automaton_Schedule\<close> (\<open>automata/schedule.ts\<close>), \<open>Automata_Store\<close>
    (\<open>db/repositories/automata.ts\<close>, \<open>automata/run-lifecycle.ts\<close>) and \<open>Automata_Firing\<close>
    (\<open>automata/fire-policy.ts\<close>, \<open>automata/fire-due.ts\<close>): scheduled prompts, from the stored schedule
    to the cron tick that claims a due time and starts a thread.
  \<^item> \<open>Process_Output\<close> and \<open>Output_Slices\<close> (\<open>compute/output.ts\<close>, the output table of
    \<open>compute/thread-store.ts\<close>): output kept in chunks under two budgets, and the tail, grep, line and
    byte reads over them.
  \<^item> \<open>Effects\<close>: actions that change a state and may throw, with their weakest preconditions.
    \<open>Compute_State\<close> and \<open>Store_Machine\<close> (\<open>compute/thread-store.ts\<close>): the thread's compute row, its
    processes and watchers, the migration from the legacy tables, every run of store writes.
  \<^item> \<open>Service_State\<close>, \<open>Runtime_Lifecycle\<close>, \<open>Watcher_Polling\<close>, \<open>Command_Execution\<close>
    (\<open>compute/thread-service.ts\<close>): the service of a thread's container. \<open>Runtime_Lifecycle\<close> acquires,
    restores, reclaims and releases it, \<open>Watcher_Polling\<close> follows its processes, \<open>Command_Execution\<close> runs
    commands with the foreground wait and the hand-over to a watcher. \<open>Release_Safety\<close>,
    \<open>Command_Safety\<close> and \<open>Command_Termination\<close> hold their theorems.
  \<^item> \<open>Compute_Alarm\<close> and \<open>Alarm_Liveness\<close> (\<open>runComputeTick\<close>, \<open>runSandboxEviction\<close> in
    \<open>agent/think-thread-agent.ts\<close>): the callback of the thread's one alarm, which composes the service,
    the reaper and the message queue.
  \<^item> \<open>Fake_Thread\<close>, \<open>Fake_Commands\<close>: a thread whose outside is made of the models above (the in-memory
    provider, the container ledger, a clock); the locales are interpreted on it and its runs are the
    concrete instances of the theorems.

  \<^bold>\<open>How state and operations correspond.\<close> A table is the list of its rows, a row is a record with the
  columns as fields, and each statement is one \<open>sql_...\<close> operation; a method that runs several statements
  is their composition. A class instance is a record; a method takes the state and returns it updated,
  with the result. A thrown error is \<open>Inl\<close>, a returned value \<open>Inr\<close>. The compute service takes its
  \<open>deps\<close> as a record of arbitrary actions on an arbitrary outside state, each of which may fail before,
  after or halfway through its effect. Where several writers interleave
  (\<open>Work_Ledger_Store\<close>, \<open>Container_Ledger\<close>, \<open>Injection_Buffer\<close>, \<open>Automata_Store\<close>) the theorems
  quantify over all sequences of operations, or over a step relation.

  \<^bold>\<open>What the lemmas show.\<close> Each component proves that its operations keep its invariant (primary keys,
  caps, contiguity), what each operation does on every branch, and one theorem per promise: exactly
  one terminal and one delivery per work row; no message lost or doubled by a drain; no cap exceeded;
  no lost update; patches placed exactly and applied all or not at all; no false "clean" and no false
  "reset"; no due time claimed twice, none that wedges its automaton.

  \<^bold>\<open>Bounds and fuel.\<close> Every function is total. Two have fuel. \<open>missingParents\<close> in \<open>Fake_Backend\<close> is started at the length of the path plus one; each round drops at least one character,
  and the lemma \<open>missingParents_enough\<close> shows that it never runs out. \<open>wait_rounds\<close> in
  \<open>Command_Execution\<close> takes the number of polls it may make; \<open>exec_returns\<close> shows that one more than the
  milliseconds a process may run are enough. Times, counts and sizes are
  integers: the sources only add and compare values far below \<open>2 ^ 53\<close>.

  \<^bold>\<open>Arguments of the model.\<close> What is not under \<open>src/\<close> is an argument of the definitions that use it:
  hashing, the npm package \<open>cron-parser\<close>, \<open>Intl\<close> formatting, \<open>JSON.parse\<close>, random ids, the clock, the
  outcome of every remote call.

  \<^bold>\<open>Not modelled.\<close> The HTTP routes, the web application, the real sandbox providers and the model
  providers are input, output and calls into other services. Of \<open>compute/thread-service.ts\<close> the
  output queries, file transfers and artifact publishing are left, of \<open>agent/think-thread-agent.ts\<close> all
  but the reaper and the alarm callback. \<open>thread-knowledge/\<close>, \<open>mcp/\<close>, settings, secrets, notifications
  and the repositories other than that of the automata are not modelled. Two methods of one thread
  that interleave at an \<open>await\<close> are not modelled either.
\<close>

end
